theory Spec2Isabelle
  imports Main "HOL-Library.Word" "HOL-Library.Sublist"
begin

unbundle bit_operations_syntax

section \<open>Source text\<close>

text \<open>
  Program text is a \<^typ>\<open>string\<close>; one \<^typ>\<open>char\<close> stands for one code unit of the
  JavaScript string (code units below 256 are representable).  Offsets count code units,
  as \<^verbatim>\<open>String.prototype.slice\<close> does.
\<close>

definition is_space :: "char \<Rightarrow> bool" where
  \<comment> \<open>the characters matched by \<^verbatim>\<open>\s\<close> and removed by \<^verbatim>\<open>trim()\<close>, below 256:
      TAB, LF, VT, FF, CR, SPACE, NBSP\<close>
  "is_space c \<longleftrightarrow> c \<in> set [CHR 0x09, CHR 0x0A, CHR 0x0B, CHR 0x0C, CHR 0x0D, CHR 0x20, CHR 0xA0]"

definition trim :: "string \<Rightarrow> string" where
  "trim s = rev (dropWhile is_space (rev (dropWhile is_space s)))"

definition quoted :: "string \<Rightarrow> string" where
  \<comment> \<open>the template \<^verbatim>\<open>'${className}'\<close>\<close>
  "quoted className = [CHR 0x27] @ className @ [CHR 0x27]"

section \<open>Replacements and text splicing\<close>

record Replacement =
  rep_start :: nat
  rep_end :: nat
  rep_className :: string

definition splice :: "Replacement \<Rightarrow> string \<Rightarrow> string" where
  \<comment> \<open>one iteration of the loop at the end of \<^verbatim>\<open>extractCssFromCode\<close>:
      \<^verbatim>\<open>slice(0, start) + "'" + className + "'" + slice(end)\<close>\<close>
  "splice r transformedCode =
     take (rep_start r) transformedCode @ quoted (rep_className r) @ drop (rep_end r) transformedCode"

definition sortReplacements :: "Replacement list \<Rightarrow> Replacement list" where
  \<comment> \<open>\<^verbatim>\<open>replacements.sort((a, b) => b.start - a.start)\<close>: a stable sort, descending by start\<close>
  "sortReplacements replacements = sort_key (\<lambda>r. - int (rep_start r)) replacements"

definition applyReplacements :: "string \<Rightarrow> Replacement list \<Rightarrow> string" where
  "applyReplacements code replacements = fold splice (sortReplacements replacements) code"

subsection \<open>Substitution at the recorded offsets, written out directly\<close>

text \<open>
  The reference the splicing loop is compared with: walk the original text once from left to
  right, copy the text between the ranges and put the quoted class name where each range was.
\<close>

fun substitute_from :: "nat \<Rightarrow> string \<Rightarrow> Replacement list \<Rightarrow> string" where
  "substitute_from pos code [] = drop pos code"
| "substitute_from pos code (r # rs) =
     take (rep_start r - pos) (drop pos code) @ quoted (rep_className r) @
     substitute_from (rep_end r) code rs"

definition manual_substitution :: "string \<Rightarrow> Replacement list \<Rightarrow> string" where
  "manual_substitution code replacements = substitute_from 0 code (sort_key rep_start replacements)"

definition disjoint_ranges :: "Replacement \<Rightarrow> Replacement \<Rightarrow> bool" where
  "disjoint_ranges r r' \<longleftrightarrow> rep_end r \<le> rep_start r' \<or> rep_end r' \<le> rep_start r"

fun non_overlapping :: "Replacement list \<Rightarrow> bool" where
  "non_overlapping [] = True"
| "non_overlapping (r # rs) = (list_all (disjoint_ranges r) rs \<and> non_overlapping rs)"

definition within :: "string \<Rightarrow> Replacement list \<Rightarrow> bool" where
  \<comment> \<open>every range is a non-empty range of the text\<close>
  "within code rs = list_all (\<lambda>r. rep_start r < rep_end r \<and> rep_end r \<le> length code) rs"

fun ordered_from :: "nat \<Rightarrow> nat \<Rightarrow> Replacement list \<Rightarrow> bool" where
  "ordered_from n pos [] = True"
| "ordered_from n pos (r # rs) =
     (pos \<le> rep_start r \<and> rep_start r \<le> rep_end r \<and> rep_end r \<le> n \<and> ordered_from n (rep_end r) rs)"

section \<open>Hashing\<close>

text \<open>
  \<^verbatim>\<open>hashText\<close> calls \<^verbatim>\<open>createHash('md5').update(text).digest('hex')\<close> of
  \<^verbatim>\<open>node:crypto\<close> and keeps the first eight characters.  The digest is MD5 (RFC 1321)
  of the UTF-8 encoding of the text, printed in lower-case hexadecimal.
\<close>

definition utf8 :: "string \<Rightarrow> nat list" where
  "utf8 text = concat (map (\<lambda>c. let n = (of_char c :: nat) in
       if n < 128 then [n] else [192 + n div 64, 128 + n mod 64]) text)"

definition md5_pad :: "nat list \<Rightarrow> nat list" where
  "md5_pad bs =
     (let n = length bs; bits = 8 * n in
      bs @ [128] @ replicate ((119 - n mod 64) mod 64) 0 @
      [bits mod 256, bits div 256 mod 256, bits div 65536 mod 256, bits div 16777216 mod 256,
       bits div 4294967296 mod 256, bits div 1099511627776 mod 256,
       bits div 281474976710656 mod 256, bits div 72057594037927936 mod 256])"

fun md5_words :: "nat list \<Rightarrow> 32 word list" where
  "md5_words (b0 # b1 # b2 # b3 # bs) =
     of_nat (b0 + 256 * b1 + 65536 * b2 + 16777216 * b3) # md5_words bs"
| "md5_words _ = []"

fun md5_blocks :: "32 word list \<Rightarrow> 32 word list list" where
  "md5_blocks ws = (if ws = [] then [] else take 16 ws # md5_blocks (drop 16 ws))"

declare md5_blocks.simps [simp del]

definition md5_s :: "nat list" where
  "md5_s = [7, 12, 17, 22, 7, 12, 17, 22, 7, 12, 17, 22, 7, 12, 17, 22,
            5, 9, 14, 20, 5, 9, 14, 20, 5, 9, 14, 20, 5, 9, 14, 20,
            4, 11, 16, 23, 4, 11, 16, 23, 4, 11, 16, 23, 4, 11, 16, 23,
            6, 10, 15, 21, 6, 10, 15, 21, 6, 10, 15, 21, 6, 10, 15, 21]"

definition md5_K :: "32 word list" where
  "md5_K =
    [0xd76aa478, 0xe8c7b756, 0x242070db, 0xc1bdceee, 0xf57c0faf, 0x4787c62a, 0xa8304613, 0xfd469501,
     0x698098d8, 0x8b44f7af, 0xffff5bb1, 0x895cd7be, 0x6b901122, 0xfd987193, 0xa679438e, 0x49b40821,
     0xf61e2562, 0xc040b340, 0x265e5a51, 0xe9b6c7aa, 0xd62f105d, 0x02441453, 0xd8a1e681, 0xe7d3fbc8,
     0x21e1cde6, 0xc33707d6, 0xf4d50d87, 0x455a14ed, 0xa9e3e905, 0xfcefa3f8, 0x676f02d9, 0x8d2a4c8a,
     0xfffa3942, 0x8771f681, 0x6d9d6122, 0xfde5380c, 0xa4beea44, 0x4bdecfa9, 0xf6bb4b60, 0xbebfbc70,
     0x289b7ec6, 0xeaa127fa, 0xd4ef3085, 0x04881d05, 0xd9d4d039, 0xe6db99e5, 0x1fa27cf8, 0xc4ac5665,
     0xf4292244, 0x432aff97, 0xab9423a7, 0xfc93a039, 0x655b59c3, 0x8f0ccc92, 0xffeff47d, 0x85845dd1,
     0x6fa87e4f, 0xfe2ce6e0, 0xa3014314, 0x4e0811a1, 0xf7537e82, 0xbd3af235, 0x2ad7d2bb, 0xeb86d391]"

definition rotl32 :: "32 word \<Rightarrow> nat \<Rightarrow> 32 word" where
  "rotl32 x n = push_bit n x OR drop_bit (32 - n) x"

type_synonym md5_state = "32 word \<times> 32 word \<times> 32 word \<times> 32 word"

definition md5_f :: "nat \<Rightarrow> 32 word \<Rightarrow> 32 word \<Rightarrow> 32 word \<Rightarrow> 32 word" where
  "md5_f i B C D =
     (if i < 16 then (B AND C) OR (NOT B AND D)
      else if i < 32 then (D AND B) OR (NOT D AND C)
      else if i < 48 then B XOR C XOR D
      else C XOR (B OR NOT D))"

definition md5_g :: "nat \<Rightarrow> nat" where
  "md5_g i =
     (if i < 16 then i
      else if i < 32 then (5 * i + 1) mod 16
      else if i < 48 then (3 * i + 5) mod 16
      else (7 * i) mod 16)"

fun md5_step :: "32 word list \<Rightarrow> nat \<Rightarrow> md5_state \<Rightarrow> md5_state" where
  "md5_step M i (A, B, C, D) =
     (D, B + rotl32 (md5_f i B C D + A + md5_K ! i + M ! md5_g i) (md5_s ! i), B, C)"

definition md5_rounds :: "32 word list \<Rightarrow> md5_state \<Rightarrow> md5_state" where
  "md5_rounds M h = fold (md5_step M) [0..<64] h"

definition md5_block :: "32 word list \<Rightarrow> md5_state \<Rightarrow> md5_state" where
  "md5_block M h =
     (case h of (a0, b0, c0, d0) \<Rightarrow>
        (case md5_rounds M h of (A, B, C, D) \<Rightarrow> (a0 + A, b0 + B, c0 + C, d0 + D)))"

definition md5_init :: md5_state where
  "md5_init = (0x67452301, 0xefcdab89, 0x98badcfe, 0x10325476)"

definition md5 :: "string \<Rightarrow> md5_state" where
  "md5 text = fold md5_block (md5_blocks (md5_words (md5_pad (utf8 text)))) md5_init"

definition hex_digit :: "nat \<Rightarrow> char" where
  "hex_digit n = ''0123456789abcdef'' ! n"

definition hex_byte :: "nat \<Rightarrow> string" where
  "hex_byte b = [hex_digit (b div 16), hex_digit (b mod 16)]"

definition hex_word :: "32 word \<Rightarrow> string" where
  \<comment> \<open>the four bytes of a word, lowest first\<close>
  "hex_word w =
     (let n = unat w in
      concat (map hex_byte [n mod 256, n div 256 mod 256, n div 65536 mod 256, n div 16777216 mod 256]))"

definition md5_hex :: "string \<Rightarrow> string" where
  "md5_hex text = (case md5 text of (a, b, c, d) \<Rightarrow> hex_word a @ hex_word b @ hex_word c @ hex_word d)"

definition hashText :: "string \<Rightarrow> string" where
  "hashText text = take 8 (md5_hex text)"

section \<open>Naming scheme\<close>

definition digit_char :: "nat \<Rightarrow> char" where
  "digit_char d = char_of (48 + d)"

fun string_of_nat :: "nat \<Rightarrow> string" where
  \<comment> \<open>\<^verbatim>\<open>`${index}`\<close> for an array length: its decimal digits\<close>
  "string_of_nat n =
     (if n < 10 then [digit_char n] else string_of_nat (n div 10) @ [digit_char (n mod 10)])"

declare string_of_nat.simps [simp del]

definition string_of_name :: "string option \<Rightarrow> string" where
  \<comment> \<open>\<^verbatim>\<open>`${localName}`\<close> for \<^verbatim>\<open>string | undefined\<close>\<close>
  "string_of_name localName = (case localName of None \<Rightarrow> ''undefined'' | Some n \<Rightarrow> n)"

definition classNameKey :: "string \<Rightarrow> nat \<Rightarrow> string option \<Rightarrow> string" where
  \<comment> \<open>\<^verbatim>\<open>`${relativePath}:${index}:${localName}`\<close>\<close>
  "classNameKey relativePath index localName =
     relativePath @ '':'' @ string_of_nat index @ '':'' @ string_of_name localName"

definition generateClassName :: "string \<Rightarrow> string \<Rightarrow> nat \<Rightarrow> string option \<Rightarrow> string" where
  \<comment> \<open>the two assignments \<^verbatim>\<open>hash\<close> and \<^verbatim>\<open>className\<close> of
      \<^verbatim>\<open>handleTaggedTemplateExpression\<close>\<close>
  "generateClassName classPrefix relativePath index localName =
     classPrefix @ hashText (classNameKey relativePath index localName)"

section \<open>Parser output\<close>

text \<open>
  The parser and its visitor are libraries (\<^verbatim>\<open>oxc-parser\<close>); the model takes their output
  as data.  Only the node kinds the plugin looks at are told apart.  A numeric literal is
  kept as the text \<^verbatim>\<open>String(value)\<close> gives for it.  A template literal has at least
  one quasi, so \<^verbatim>\<open>node.quasi.quasis\<close> is \<open>first_quasi # more_quasis\<close>, each given by
  its \<^verbatim>\<open>value.raw\<close>.
\<close>

datatype literal_value = StringValue string | NumberValue string | OtherValue

datatype node =
    Identifier (name: string)
  | Literal literal_value
  | TaggedTemplateExpression (tag: node) (first_quasi: string) (more_quasis: "string list")
      (expressions: "node list") (node_start: nat) (node_end: nat)
  | VariableDeclarator node "node option"
  | OtherNode "node list"

definition quasis :: "node \<Rightarrow> string list" where
  "quasis t = first_quasi t # more_quasis t"

datatype import_name = ImportName string | ImportNamespaceObject | ImportDefault

datatype import_entry = ImportEntry (entry_importName: import_name) (entry_localName: string)

datatype static_import = StaticImport (moduleRequest: string) (import_entries: "import_entry list")

datatype export_import_name = ExportImportName string | ExportImportAll | ExportImportAllButDefault
  | ExportImportNone

datatype export_export_name = ExportExportName string | ExportExportDefault | ExportExportNone

datatype export_local_name = ExportLocalName string | ExportLocalDefault | ExportLocalNone

datatype export_entry = ExportEntry (export_importName: export_import_name)
  (export_exportName: export_export_name) (export_localName: export_local_name)

datatype static_export = StaticExport (export_entries: "export_entry list")

record parse_result =
  program :: node
  staticImports :: "static_import list"
  staticExports :: "static_export list"

subsection \<open>The visitor\<close>

text \<open>
  An AST node is a JavaScript object, and the plugin keeps a \<^verbatim>\<open>Set\<close> of such objects.
  The identity of a node is modelled by its position in the tree: the list of child indices
  that leads to it from the program node.  \<^verbatim>\<open>Visitor.visit\<close> walks the tree in
  pre-order and calls the callback of a node when it enters it; \<open>visits\<close> lists these calls
  for the two node kinds the plugin registers a callback for.
\<close>

type_synonym node_ref = "nat list"

fun visits :: "node_ref \<Rightarrow> node \<Rightarrow> (node_ref \<times> node) list"
  and visits_list :: "node_ref \<Rightarrow> nat \<Rightarrow> node list \<Rightarrow> (node_ref \<times> node) list" where
  "visits p (Identifier x) = []"
| "visits p (Literal v) = []"
| "visits p (TaggedTemplateExpression tg q qs es s e) =
     (p, TaggedTemplateExpression tg q qs es s e) # visits (p @ [0]) tg @ visits_list p 1 es"
| "visits p (VariableDeclarator i init) =
     (p, VariableDeclarator i init) # visits (p @ [0]) i @
     (case init of None \<Rightarrow> [] | Some t \<Rightarrow> visits (p @ [1]) t)"
| "visits p (OtherNode cs) = visits_list p 0 cs"
| "visits_list p k [] = []"
| "visits_list p k (c # cs) = visits (p @ [k]) c @ visits_list p (Suc k) cs"

section \<open>File analysis\<close>

record Declaration =
  className :: string
  node :: node
  hasInterpolations :: bool

record ParsedFileInfo =
  declarations :: "Declaration list"
  localIdentifiers :: "string \<rightharpoonup> string"
  importedIdentifiers :: "string \<rightharpoonup> string \<times> string"
  exportNameToValueMap :: "string \<rightharpoonup> string"

text \<open>
  In \<open>importedIdentifiers\<close> a pair is \<^verbatim>\<open>{ source, imported }\<close>.  The state of one run
  of the visitor is the file information under construction together with the set
  \<^verbatim>\<open>taggedTemplateExpressionFromVariableDeclarator\<close>.
\<close>

record visit_state = ParsedFileInfo +
  taggedTemplateExpressionFromVariableDeclarator :: "node_ref list"

record file_scope =
  classPrefix :: string
  relativePath :: string
  localNameToExportedNameMap :: "string \<rightharpoonup> string"

definition recordImport :: "string \<Rightarrow> import_entry \<Rightarrow> (string \<rightharpoonup> string \<times> string) \<Rightarrow> (string \<rightharpoonup> string \<times> string)" where
  \<comment> \<open>the body of the loop over the entries of one static import\<close>
  "recordImport source entry m =
     (case entry_importName entry of
        ImportName imported \<Rightarrow> m(entry_localName entry \<mapsto> (source, imported))
      | _ \<Rightarrow> m)"

definition collectImports :: "static_import list \<Rightarrow> (string \<rightharpoonup> string \<times> string)" where
  "collectImports imports =
     fold (\<lambda>staticImport. fold (recordImport (moduleRequest staticImport)) (import_entries staticImport))
       imports Map.empty"

definition recordExport :: "export_entry \<Rightarrow> (string \<rightharpoonup> string) \<Rightarrow> (string \<rightharpoonup> string)" where
  \<comment> \<open>the body of the loop over the entries of one static export: a re-export
      (\<^verbatim>\<open>importName.kind !== 'None'\<close>) is skipped\<close>
  "recordExport entry m =
     (case export_importName entry of
        ExportImportNone \<Rightarrow>
          (case (export_exportName entry, export_localName entry) of
             (ExportExportName exportedName, ExportLocalName localName) \<Rightarrow>
               m(localName \<mapsto> exportedName)
           | _ \<Rightarrow> m)
      | _ \<Rightarrow> m)"

definition collectExports :: "static_export list \<Rightarrow> (string \<rightharpoonup> string)" where
  "collectExports exports =
     fold (\<lambda>staticExport. fold recordExport (export_entries staticExport)) exports Map.empty"

definition recordIdentifierWithValue :: "file_scope \<Rightarrow> string \<Rightarrow> string \<Rightarrow> visit_state \<Rightarrow> visit_state" where
  "recordIdentifierWithValue sc localName v st =
     (let st1 = st\<lparr>localIdentifiers := (localIdentifiers st)(localName \<mapsto> v)\<rparr> in
      case localNameToExportedNameMap sc localName of
        Some exportedName \<Rightarrow>
          st1\<lparr>exportNameToValueMap := (exportNameToValueMap st1)(exportedName \<mapsto> v)\<rparr>
      | None \<Rightarrow> st1)"

definition is_css_tagged :: "node \<Rightarrow> bool" where
  \<comment> \<open>\<^verbatim>\<open>node.tag.type === 'Identifier' && node.tag.name === 'css'\<close>\<close>
  "is_css_tagged t \<longleftrightarrow> tag t = Identifier ''css''"

definition handleTaggedTemplateExpression ::
  "file_scope \<Rightarrow> string option \<Rightarrow> node \<Rightarrow> visit_state \<Rightarrow> visit_state" where
  "handleTaggedTemplateExpression sc localName t st =
     (if \<not> is_css_tagged t then st
      else
        let index = length (declarations st);
            cn = generateClassName (classPrefix sc) (relativePath sc) index localName;
            st1 = st\<lparr>declarations := declarations st @
                    [\<lparr>className = cn, node = t, hasInterpolations = (expressions t \<noteq> [])\<rparr>]\<rparr>
        in case localName of
             Some n \<Rightarrow> recordIdentifierWithValue sc n cn st1
           | None \<Rightarrow> st1)"

fun onVariableDeclarator :: "file_scope \<Rightarrow> node_ref \<Rightarrow> node \<Rightarrow> node option \<Rightarrow> visit_state \<Rightarrow> visit_state" where
  "onVariableDeclarator sc p (Identifier localName) (Some (TaggedTemplateExpression tg q qs es s e)) st =
     handleTaggedTemplateExpression sc (Some localName) (TaggedTemplateExpression tg q qs es s e)
       (st\<lparr>taggedTemplateExpressionFromVariableDeclarator :=
             (p @ [1]) # taggedTemplateExpressionFromVariableDeclarator st\<rparr>)"
| "onVariableDeclarator sc p (Identifier localName) (Some (Literal (StringValue v))) st =
     recordIdentifierWithValue sc localName v st"
| "onVariableDeclarator sc p (Identifier localName) (Some (Literal (NumberValue v))) st =
     recordIdentifierWithValue sc localName v st"
| "onVariableDeclarator sc p i init st = st"

definition onTaggedTemplateExpression :: "file_scope \<Rightarrow> node_ref \<Rightarrow> node \<Rightarrow> visit_state \<Rightarrow> visit_state" where
  "onTaggedTemplateExpression sc p t st =
     (if p \<in> set (taggedTemplateExpressionFromVariableDeclarator st) then st
      else handleTaggedTemplateExpression sc None t st)"

fun callback :: "file_scope \<Rightarrow> node_ref \<times> node \<Rightarrow> visit_state \<Rightarrow> visit_state" where
  "callback sc (p, VariableDeclarator i init) st = onVariableDeclarator sc p i init st"
| "callback sc (p, TaggedTemplateExpression tg q qs es s e) st =
     onTaggedTemplateExpression sc p (TaggedTemplateExpression tg q qs es s e) st"
| "callback sc (p, n) st = st"

definition initial_state :: "(string \<rightharpoonup> string \<times> string) \<Rightarrow> visit_state" where
  "initial_state imported =
     \<lparr>declarations = [], localIdentifiers = Map.empty, importedIdentifiers = imported,
      exportNameToValueMap = Map.empty, taggedTemplateExpressionFromVariableDeclarator = []\<rparr>"

definition visit :: "file_scope \<Rightarrow> node \<Rightarrow> visit_state \<Rightarrow> visit_state" where
  \<comment> \<open>\<^verbatim>\<open>visitor.visit(parseResult.program)\<close>\<close>
  "visit sc prog st = fold (callback sc) (visits [] prog) st"

definition analyse :: "string \<Rightarrow> string \<Rightarrow> parse_result \<Rightarrow> ParsedFileInfo" where
  \<comment> \<open>\<^verbatim>\<open>parseFile\<close> from the parse result on, up to \<^verbatim>\<open>parsedInfo\<close>\<close>
  "analyse pfx relPath parseResult =
     (let sc = \<lparr>classPrefix = pfx, relativePath = relPath,
                localNameToExportedNameMap = collectExports (staticExports parseResult)\<rparr>;
          st = visit sc (program parseResult)
                 (initial_state (collectImports (staticImports parseResult)))
      in ParsedFileInfo.truncate st)"

subsection \<open>The style declarations of a tree, read off the tree\<close>

text \<open>
  Two descriptions of a syntax tree that do not go through the visitor's callbacks:
  \<open>count_css\<close> counts the tagged templates whose tag is the identifier \<^verbatim>\<open>css\<close>, one per
  position of the tree; \<open>occurrences\<close> lists them in pre-order, each with the name of
  the variable it initialises.  A tagged template that is the initialiser of a declarator
  with an identifier on its left is listed at the declarator.
\<close>

fun css_node :: "node \<Rightarrow> bool" where
  "css_node (TaggedTemplateExpression tg q qs es s e) = (tg = Identifier ''css'')"
| "css_node n = False"

fun count_css :: "node \<Rightarrow> nat" and count_css_list :: "node list \<Rightarrow> nat" where
  "count_css (Identifier x) = 0"
| "count_css (Literal v) = 0"
| "count_css (TaggedTemplateExpression tg q qs es s e) =
     (if tg = Identifier ''css'' then 1 else 0) + count_css tg + count_css_list es"
| "count_css (VariableDeclarator i init) =
     count_css i + (case init of None \<Rightarrow> 0 | Some t \<Rightarrow> count_css t)"
| "count_css (OtherNode cs) = count_css_list cs"
| "count_css_list [] = 0"
| "count_css_list (c # cs) = count_css c + count_css_list cs"

fun binds :: "node \<Rightarrow> node option \<Rightarrow> bool" where
  \<comment> \<open>a declarator \<^verbatim>\<open>x = tag`...`\<close> with an identifier on the left\<close>
  "binds (Identifier x) (Some (TaggedTemplateExpression tg q qs es s e)) = True"
| "binds i init = False"

fun occurrences :: "bool \<Rightarrow> node \<Rightarrow> (string option \<times> node) list"
  and occurrences_list :: "node list \<Rightarrow> (string option \<times> node) list" where
  "occurrences listed (Identifier x) = []"
| "occurrences listed (Literal v) = []"
| "occurrences listed (TaggedTemplateExpression tg q qs es s e) =
     (if tg = Identifier ''css'' \<and> \<not> listed
      then [(None, TaggedTemplateExpression tg q qs es s e)] else []) @
     occurrences False tg @ occurrences_list es"
| "occurrences listed (VariableDeclarator i init) =
     (case init of
        None \<Rightarrow> occurrences False i
      | Some t \<Rightarrow>
          (if binds i init \<and> css_node t then [(Some (name i), t)] else []) @
          occurrences False i @ occurrences (binds i init) t)"
| "occurrences listed (OtherNode cs) = occurrences_list cs"
| "occurrences_list [] = []"
| "occurrences_list (c # cs) = occurrences False c @ occurrences_list cs"

definition declaration_at :: "file_scope \<Rightarrow> nat \<times> string option \<times> node \<Rightarrow> Declaration" where
  "declaration_at sc = (\<lambda>(k, localName, t).
     \<lparr>className = generateClassName (classPrefix sc) (relativePath sc) k localName,
      node = t, hasInterpolations = (expressions t \<noteq> [])\<rparr>)"

definition declarations_from :: "file_scope \<Rightarrow> nat \<Rightarrow> (string option \<times> node) list \<Rightarrow> Declaration list" where
  "declarations_from sc k os = map (declaration_at sc) (enumerate k os)"

subsection \<open>What a walk over a subtree does to the state\<close>

definition seen :: "visit_state \<Rightarrow> node_ref set" where
  "seen st = set (taggedTemplateExpressionFromVariableDeclarator st)"

definition walk_ok :: "file_scope \<Rightarrow> node_ref \<Rightarrow> node \<Rightarrow> bool" where
  "walk_ok sc p n \<longleftrightarrow>
     (\<forall>st. (\<forall>q \<in> seen st. \<not> strict_prefix p q) \<longrightarrow>
        declarations (fold (callback sc) (visits p n) st) =
          declarations st @ declarations_from sc (length (declarations st)) (occurrences (p \<in> seen st) n)
        \<and> seen (fold (callback sc) (visits p n) st) \<subseteq> seen st \<union> {q. strict_prefix p q})"

definition walk_list_ok :: "file_scope \<Rightarrow> node_ref \<Rightarrow> nat \<Rightarrow> node list \<Rightarrow> bool" where
  "walk_list_ok sc p k cs \<longleftrightarrow>
     (\<forall>st. (\<forall>q \<in> seen st. \<forall>j \<ge> k. \<not> prefix (p @ [j]) q) \<longrightarrow>
        declarations (fold (callback sc) (visits_list p k cs) st) =
          declarations st @ declarations_from sc (length (declarations st)) (occurrences_list cs)
        \<and> seen (fold (callback sc) (visits_list p k cs) st)
            \<subseteq> seen st \<union> {q. \<exists>j \<ge> k. strict_prefix (p @ [j]) q})"

section \<open>The host and the analysis cache\<close>

text \<open>
  What the plugin gets from outside: the working directory of the process and
  \<^verbatim>\<open>path.relative\<close>, the parser, and the two calls on the plugin context,
  \<^verbatim>\<open>context.resolve\<close> (\<open>None\<close> is \<^verbatim>\<open>null\<close>) and \<^verbatim>\<open>context.fs.readFile\<close>
  (\<open>None\<close> is a rejected promise, which ends the transform with that error).
\<close>

datatype error = ReadFileError string

record host =
  cwd :: string
  relative :: "string \<Rightarrow> string \<Rightarrow> string"
  parseSync :: "string \<Rightarrow> string \<Rightarrow> parse_result"
  resolve :: "string \<Rightarrow> string \<Rightarrow> string option"
  readFile :: "string \<Rightarrow> string option"

type_synonym cache = "string \<rightharpoonup> ParsedFileInfo"

definition projectRelativePath :: "host \<Rightarrow> string \<Rightarrow> string" where
  \<comment> \<open>\<^verbatim>\<open>relative(PROJECT_ROOT, filePath).replaceAll('\\', '/')\<close>\<close>
  "projectRelativePath h filePath =
     map (\<lambda>c. if c = CHR 0x5C then CHR ''/'' else c) (relative h (cwd h) filePath)"

definition analyseFile :: "string \<Rightarrow> host \<Rightarrow> string \<Rightarrow> string \<Rightarrow> ParsedFileInfo" where
  "analyseFile pfx h filePath sourceText =
     analyse pfx (projectRelativePath h filePath) (parseSync h filePath sourceText)"

definition parseFile ::
  "string \<Rightarrow> host \<Rightarrow> cache \<Rightarrow> string \<Rightarrow> string option \<Rightarrow> error + ParsedFileInfo \<times> cache" where
  "parseFile pfx h parsedFileInfoCache filePath code =
     (case (code, parsedFileInfoCache filePath) of
        (None, Some cached) \<Rightarrow> Inr (cached, parsedFileInfoCache)
      | _ \<Rightarrow>
         (case (case code of Some text \<Rightarrow> Some text | None \<Rightarrow> readFile h filePath) of
            None \<Rightarrow> Inl (ReadFileError filePath)
          | Some sourceText \<Rightarrow>
              (let parsedInfo = analyseFile pfx h filePath sourceText
               in Inr (parsedInfo, parsedFileInfoCache(filePath \<mapsto> parsedInfo)))))"

section \<open>Extraction\<close>

record Extraction =
  ext_className :: string
  ext_cssContent :: string
  sourcePosition :: nat

text \<open>The two arrays \<^verbatim>\<open>cssExtractions\<close> and \<^verbatim>\<open>replacements\<close>, filled together.\<close>

type_synonym collected = "Extraction list \<times> Replacement list"

definition addProcessedDeclaration :: "Declaration \<Rightarrow> string \<Rightarrow> collected \<Rightarrow> collected" where
  "addProcessedDeclaration declaration cssContent acc =
     (case acc of (cssExtractions, replacements) \<Rightarrow>
        (cssExtractions @
           [\<lparr>ext_className = className declaration, ext_cssContent = trim cssContent,
             sourcePosition = node_start (node declaration)\<rparr>],
         replacements @
           [\<lparr>rep_start = node_start (node declaration), rep_end = node_end (node declaration),
             rep_className = className declaration\<rparr>]))"

definition pass1 :: "Declaration list \<Rightarrow> collected \<Rightarrow> collected" where
  \<comment> \<open>Pass 1: no interpolations; the content is \<^verbatim>\<open>quasis[0].value.raw\<close>\<close>
  "pass1 ds acc =
     fold (\<lambda>declaration acc'.
        if hasInterpolations declaration then acc'
        else addProcessedDeclaration declaration (first_quasi (node declaration)) acc') ds acc"

definition resolveValue ::
  "string \<Rightarrow> host \<Rightarrow> string \<Rightarrow> ParsedFileInfo \<Rightarrow> cache \<Rightarrow> string \<Rightarrow> error + string option \<times> cache" where
  "resolveValue pfx h filePath info c identifierName =
     (case localIdentifiers info identifierName of
        Some v \<Rightarrow> Inr (Some v, c)
      | None \<Rightarrow>
         (case importedIdentifiers info identifierName of
            None \<Rightarrow> Inr (None, c)
          | Some (source, imported) \<Rightarrow>
             (case resolve h source filePath of
                None \<Rightarrow> Inr (None, c)
              | Some resolvedId \<Rightarrow>
                 (case parseFile pfx h c resolvedId None of
                    Inl err \<Rightarrow> Inl err
                  | Inr (target, c') \<Rightarrow> Inr (exportNameToValueMap target imported, c')))))"

fun interpolate ::
  "string \<Rightarrow> host \<Rightarrow> string \<Rightarrow> ParsedFileInfo \<Rightarrow> cache \<Rightarrow> string list \<Rightarrow> node list \<Rightarrow> string
   \<Rightarrow> error + string option \<times> cache" where
  "interpolate pfx h filePath info c [] es cssContent = Inr (Some cssContent, c)"
| "interpolate pfx h filePath info c (q # qs) [] cssContent =
     interpolate pfx h filePath info c qs [] (cssContent @ q)"
| "interpolate pfx h filePath info c (q # qs) (Identifier identifierName # es) cssContent =
     (case resolveValue pfx h filePath info c identifierName of
        Inl err \<Rightarrow> Inl err
      | Inr (None, c') \<Rightarrow> Inr (None, c')
      | Inr (Some resolvedValue, c') \<Rightarrow>
          interpolate pfx h filePath info c' qs es (cssContent @ q @ resolvedValue))"
| "interpolate pfx h filePath info c (q # qs) (e # es) cssContent = Inr (None, c)"

fun pass2 ::
  "string \<Rightarrow> host \<Rightarrow> string \<Rightarrow> ParsedFileInfo \<Rightarrow> cache \<Rightarrow> Declaration list \<Rightarrow> collected
   \<Rightarrow> error + collected \<times> cache" where
  "pass2 pfx h filePath info c [] acc = Inr (acc, c)"
| "pass2 pfx h filePath info c (declaration # ds) acc =
     (if \<not> hasInterpolations declaration then pass2 pfx h filePath info c ds acc
      else
        (case interpolate pfx h filePath info c (quasis (node declaration))
                (expressions (node declaration)) [] of
           Inl err \<Rightarrow> Inl err
         | Inr (None, c') \<Rightarrow> pass2 pfx h filePath info c' ds acc
         | Inr (Some cssContent, c') \<Rightarrow>
             pass2 pfx h filePath info c' ds (addProcessedDeclaration declaration cssContent acc)))"

record ExtractionResult =
  transformedCode :: string
  hasExtractions :: bool
  cssContent :: string
  hasUnprocessedCssBlocks :: bool

definition renderBlock :: "Extraction \<Rightarrow> string" where
  \<comment> \<open>\<^verbatim>\<open>`.${className} {\n  ${cssContent}\n}`\<close>\<close>
  "renderBlock e =
     ''.'' @ ext_className e @ '' {'' @ [CHR 0x0A] @ ''  '' @ ext_cssContent e @ [CHR 0x0A] @ ''}''"

fun join :: "string \<Rightarrow> string list \<Rightarrow> string" where
  "join sep [] = []"
| "join sep [x] = x"
| "join sep (x # y # ys) = x @ sep @ join sep (y # ys)"

definition cssBlocks :: "Extraction list \<Rightarrow> string list" where
  \<comment> \<open>the extractions sorted by source position, the empty ones left out, each rendered\<close>
  "cssBlocks cssExtractions =
     map renderBlock (filter (\<lambda>e. ext_cssContent e \<noteq> []) (sort_key sourcePosition cssExtractions))"

definition assemble :: "string \<Rightarrow> Declaration list \<Rightarrow> collected \<Rightarrow> ExtractionResult" where
  \<comment> \<open>\<^verbatim>\<open>extractCssFromCode\<close> after the two passes\<close>
  "assemble code ds acc =
     (case acc of (cssExtractions, replacements) \<Rightarrow>
        if length replacements = 0 then
          \<lparr>transformedCode = code, hasExtractions = False, cssContent = [],
           hasUnprocessedCssBlocks = False\<rparr>
        else
          \<lparr>transformedCode = applyReplacements code replacements, hasExtractions = True,
           cssContent = join [CHR 0x0A, CHR 0x0A] (cssBlocks cssExtractions),
           hasUnprocessedCssBlocks = (length ds > length replacements)\<rparr>)"

definition extractCssFromCode ::
  "string \<Rightarrow> host \<Rightarrow> cache \<Rightarrow> string \<Rightarrow> string \<Rightarrow> error + ExtractionResult \<times> cache" where
  "extractCssFromCode pfx h c code filePath =
     (case parseFile pfx h c filePath (Some code) of
        Inl err \<Rightarrow> Inl err
      | Inr (info, c1) \<Rightarrow>
         (case pass2 pfx h filePath info c1 (declarations info)
                 (pass1 (declarations info) ([], [])) of
            Inl err \<Rightarrow> Inl err
          | Inr (acc, c2) \<Rightarrow> Inr (assemble code (declarations info) acc, c2)))"

subsection \<open>Exports that are re-exports\<close>

definition reexported_only :: "string \<Rightarrow> parse_result \<Rightarrow> bool" where
  \<comment> \<open>every export entry for the name is a re-export from another module
      (\<^verbatim>\<open>export { n } from './other'\<close>)\<close>
  "reexported_only n parseResult =
     list_all (\<lambda>staticExport.
        list_all (\<lambda>entry.
           export_exportName entry = ExportExportName n \<longrightarrow> export_importName entry \<noteq> ExportImportNone)
          (export_entries staticExport))
       (staticExports parseResult)"

subsection \<open>Later bindings of a name\<close>

fun records :: "node \<Rightarrow> bool" where
  \<comment> \<open>an initialiser for which the declarator's callback records a value\<close>
  "records (TaggedTemplateExpression tg q qs es s e) = (tg = Identifier ''css'')"
| "records (Literal (StringValue v)) = True"
| "records (Literal (NumberValue v)) = True"
| "records n = False"

fun rebinds :: "file_scope \<Rightarrow> string \<Rightarrow> node_ref \<times> node \<Rightarrow> bool" where
  \<comment> \<open>a declarator whose callback writes the entry of the local name \<open>x\<close>, or the entry of
      the name \<open>x\<close> is exported under\<close>
  "rebinds sc x (p, VariableDeclarator (Identifier y) (Some init)) =
     (records init \<and>
      (y = x \<or> (localNameToExportedNameMap sc y \<noteq> None
                 \<and> localNameToExportedNameMap sc y = localNameToExportedNameMap sc x)))"
| "rebinds sc x ev = False"

definition scope_of :: "string \<Rightarrow> host \<Rightarrow> string \<Rightarrow> string \<Rightarrow> file_scope" where
  \<comment> \<open>the three values the callbacks of \<^verbatim>\<open>parseFile\<close> close over\<close>
  "scope_of pfx h filePath sourceText =
     \<lparr>classPrefix = pfx, relativePath = projectRelativePath h filePath,
      localNameToExportedNameMap = collectExports (staticExports (parseSync h filePath sourceText))\<rparr>"

subsection \<open>The outcome of each declaration\<close>

text \<open>
  What the two passes do, told per declaration and in the order of the declarations: the
  content of a declaration that resolves, or nothing.  A declaration without interpolations
  resolves to its only quasi; one with interpolations is run through \<open>interpolate\<close>, in
  the cache the declarations before it have left.  \<open>resolved\<close> lists the resolved
  declarations in the order the passes add them.
\<close>

fun outcomes ::
  "string \<Rightarrow> host \<Rightarrow> string \<Rightarrow> ParsedFileInfo \<Rightarrow> cache \<Rightarrow> Declaration list
   \<Rightarrow> error + (Declaration \<times> string option) list \<times> cache" where
  "outcomes pfx h filePath info c [] = Inr ([], c)"
| "outcomes pfx h filePath info c (d # ds) =
     (if \<not> hasInterpolations d then
        (case outcomes pfx h filePath info c ds of
           Inl err \<Rightarrow> Inl err
         | Inr (os, c') \<Rightarrow> Inr ((d, Some (first_quasi (node d))) # os, c'))
      else
        (case interpolate pfx h filePath info c (quasis (node d)) (expressions (node d)) [] of
           Inl err \<Rightarrow> Inl err
         | Inr (r, c1) \<Rightarrow>
            (case outcomes pfx h filePath info c1 ds of
               Inl err \<Rightarrow> Inl err
             | Inr (os, c') \<Rightarrow> Inr ((d, r) # os, c'))))"

fun contents :: "(Declaration \<times> string option) list \<Rightarrow> (Declaration \<times> string) list" where
  "contents [] = []"
| "contents ((d, None) # os) = contents os"
| "contents ((d, Some s) # os) = (d, s) # contents os"

definition resolved :: "(Declaration \<times> string option) list \<Rightarrow> (Declaration \<times> string) list" where
  "resolved os =
     contents (filter (\<lambda>(d, r). \<not> hasInterpolations d) os) @
     contents (filter (\<lambda>(d, r). hasInterpolations d) os)"

definition all_resolved :: "(Declaration \<times> string option) list \<Rightarrow> bool" where
  "all_resolved os = list_all (\<lambda>(d, r). r \<noteq> None) os"

definition none_resolved :: "(Declaration \<times> string option) list \<Rightarrow> bool" where
  "none_resolved os = list_all (\<lambda>(d, r). r = None) os"

definition extraction_of :: "Declaration \<times> string \<Rightarrow> Extraction" where
  "extraction_of = (\<lambda>(d, s).
     \<lparr>ext_className = className d, ext_cssContent = trim s, sourcePosition = node_start (node d)\<rparr>)"

definition replacement_of :: "Declaration \<times> string \<Rightarrow> Replacement" where
  "replacement_of = (\<lambda>(d, s).
     \<lparr>rep_start = node_start (node d), rep_end = node_end (node d), rep_className = className d\<rparr>)"

definition collected_of :: "(Declaration \<times> string) list \<Rightarrow> collected" where
  "collected_of ps = (map extraction_of ps, map replacement_of ps)"


definition all_empty :: "(Declaration \<times> string option) list \<Rightarrow> bool" where
  \<comment> \<open>every declaration resolved, to content that trims to the empty string\<close>
  "all_empty os = list_all (\<lambda>(d, r). case r of None \<Rightarrow> False | Some s \<Rightarrow> trim s = []) os"

definition non_empty :: "Declaration \<times> string \<Rightarrow> bool" where
  "non_empty = (\<lambda>(d, s). trim s \<noteq> [])"

section \<open>The plugin hooks\<close>

subsection \<open>Import removal\<close>

text \<open>
  \<^verbatim>\<open>code.replace(/import\s+{\s*css\s*}\s+from\s+['"]ecij['"];?\s*/g, '')\<close>.
  Every repetition of the pattern is followed by a character outside its class (or is
  last), so a match at a position is unique and greedy; \<open>match_import\<close> returns the text
  after the match.
\<close>

definition literally :: "string \<Rightarrow> string \<Rightarrow> string option" where
  "literally p s = (if take (length p) s = p then Some (drop (length p) s) else None)"

definition spaces1 :: "string \<Rightarrow> string option" where
  \<comment> \<open>\<^verbatim>\<open>\s+\<close>\<close>
  "spaces1 s = (case s of [] \<Rightarrow> None | c # cs \<Rightarrow> if is_space c then Some (dropWhile is_space cs) else None)"

definition spaces0 :: "string \<Rightarrow> string option" where
  \<comment> \<open>\<^verbatim>\<open>\s*\<close>\<close>
  "spaces0 s = Some (dropWhile is_space s)"

definition quote_mark :: "string \<Rightarrow> string option" where
  \<comment> \<open>\<^verbatim>\<open>['"]\<close>\<close>
  "quote_mark s =
     (case s of [] \<Rightarrow> None | c # cs \<Rightarrow> if c = CHR 0x27 \<or> c = CHR 0x22 then Some cs else None)"

definition optional_semicolon :: "string \<Rightarrow> string option" where
  \<comment> \<open>\<^verbatim>\<open>;?\<close>\<close>
  "optional_semicolon s = (case s of [] \<Rightarrow> Some s | c # cs \<Rightarrow> if c = CHR '';'' then Some cs else Some s)"

definition match_import :: "string \<Rightarrow> string option" where
  "match_import s =
     Option.bind (literally ''import'' s) (\<lambda>s.
     Option.bind (spaces1 s) (\<lambda>s.
     Option.bind (literally ''{'' s) (\<lambda>s.
     Option.bind (spaces0 s) (\<lambda>s.
     Option.bind (literally ''css'' s) (\<lambda>s.
     Option.bind (spaces0 s) (\<lambda>s.
     Option.bind (literally ''}'' s) (\<lambda>s.
     Option.bind (spaces1 s) (\<lambda>s.
     Option.bind (literally ''from'' s) (\<lambda>s.
     Option.bind (spaces1 s) (\<lambda>s.
     Option.bind (quote_mark s) (\<lambda>s.
     Option.bind (literally ''ecij'' s) (\<lambda>s.
     Option.bind (quote_mark s) (\<lambda>s.
     Option.bind (optional_semicolon s) spaces0)))))))))))))"

lemma literally_length: "literally p s = Some r \<Longrightarrow> length r + length p = length s"
proof -
  assume "literally p s = Some r"
  then have e: "take (length p) s = p" "r = drop (length p) s"
    by (auto simp: literally_def split: if_splits)
  have "length p \<le> length s" using e(1) by (metis length_take min.cobounded1)
  then show ?thesis using e(2) by simp
qed

lemma spaces1_length: "spaces1 s = Some r \<Longrightarrow> length r < length s"
  by (auto simp: spaces1_def split: list.splits if_splits intro: le_imp_less_Suc length_dropWhile_le)

lemma spaces0_length: "spaces0 s = Some r \<Longrightarrow> length r \<le> length s"
  by (auto simp: spaces0_def length_dropWhile_le)

lemma quote_mark_length: "quote_mark s = Some r \<Longrightarrow> length r < length s"
  by (auto simp: quote_mark_def split: list.splits if_splits)

lemma optional_semicolon_length: "optional_semicolon s = Some r \<Longrightarrow> length r \<le> length s"
  by (auto simp: optional_semicolon_def split: list.splits if_splits)

lemma match_import_shorter:
  assumes "match_import s = Some r"
  shows "length r < length s"
proof -
  obtain s1 s2 where a: "literally ''import'' s = Some s1" and b: "spaces1 s1 = Some s2"
    and c: "Option.bind (literally ''{'' s2) (\<lambda>s.
     Option.bind (spaces0 s) (\<lambda>s.
     Option.bind (literally ''css'' s) (\<lambda>s.
     Option.bind (spaces0 s) (\<lambda>s.
     Option.bind (literally ''}'' s) (\<lambda>s.
     Option.bind (spaces1 s) (\<lambda>s.
     Option.bind (literally ''from'' s) (\<lambda>s.
     Option.bind (spaces1 s) (\<lambda>s.
     Option.bind (quote_mark s) (\<lambda>s.
     Option.bind (literally ''ecij'' s) (\<lambda>s.
     Option.bind (quote_mark s) (\<lambda>s.
     Option.bind (optional_semicolon s) spaces0))))))))))) = Some r"
    using assms unfolding match_import_def by (auto simp: bind_eq_Some_conv)
  from c obtain t1 t2 t3 t4 t5 t6 t7 t8 t9 t10 t11 t12 where
    t: "literally ''{'' s2 = Some t1" "spaces0 t1 = Some t2" "literally ''css'' t2 = Some t3"
    "spaces0 t3 = Some t4" "literally ''}'' t4 = Some t5" "spaces1 t5 = Some t6"
    "literally ''from'' t6 = Some t7" "spaces1 t7 = Some t8" "quote_mark t8 = Some t9"
    "literally ''ecij'' t9 = Some t10" "quote_mark t10 = Some t11"
    "optional_semicolon t11 = Some t12" "spaces0 t12 = Some r"
    by (auto simp: bind_eq_Some_conv)
  have "length t1 \<le> length s2" using literally_length [OF t(1)] by simp
  moreover have "length t2 \<le> length t1" using spaces0_length [OF t(2)] .
  moreover have "length t3 \<le> length t2" using literally_length [OF t(3)] by simp
  moreover have "length t4 \<le> length t3" using spaces0_length [OF t(4)] .
  moreover have "length t5 \<le> length t4" using literally_length [OF t(5)] by simp
  moreover have "length t6 \<le> length t5" using spaces1_length [OF t(6)] by simp
  moreover have "length t7 \<le> length t6" using literally_length [OF t(7)] by simp
  moreover have "length t8 \<le> length t7" using spaces1_length [OF t(8)] by simp
  moreover have "length t9 \<le> length t8" using quote_mark_length [OF t(9)] by simp
  moreover have "length t10 \<le> length t9" using literally_length [OF t(10)] by simp
  moreover have "length t11 \<le> length t10" using quote_mark_length [OF t(11)] by simp
  moreover have "length t12 \<le> length t11" using optional_semicolon_length [OF t(12)] .
  moreover have "length r \<le> length t12" using spaces0_length [OF t(13)] .
  ultimately have "length r \<le> length s2" by linarith
  moreover have "length s2 < length s"
    using a b literally_length spaces1_length by fastforce
  ultimately show ?thesis by simp
qed

function removeImport :: "string \<Rightarrow> string" where
  "removeImport [] = []"
| "removeImport (c # cs) =
     (case match_import (c # cs) of
        Some rest \<Rightarrow> removeImport rest
      | None \<Rightarrow> c # removeImport cs)"
  by pat_completeness auto

termination
  by (relation "measure length") (auto dest: match_import_shorter)

subsection \<open>The import of the style module\<close>

definition json_escape :: "char \<Rightarrow> string" where
  \<comment> \<open>one character of a string under \<^verbatim>\<open>JSON.stringify\<close>\<close>
  "json_escape c =
     (if c = CHR 0x22 then [CHR 0x5C, CHR 0x22]
      else if c = CHR 0x5C then [CHR 0x5C, CHR 0x5C]
      else if c = CHR 0x08 then [CHR 0x5C, CHR ''b'']
      else if c = CHR 0x0C then [CHR 0x5C, CHR ''f'']
      else if c = CHR 0x0A then [CHR 0x5C, CHR ''n'']
      else if c = CHR 0x0D then [CHR 0x5C, CHR ''r'']
      else if c = CHR 0x09 then [CHR 0x5C, CHR ''t'']
      else if (of_char c :: nat) < 32 then [CHR 0x5C, CHR ''u'', CHR ''0'', CHR ''0''] @ hex_byte (of_char c)
      else [c])"

definition json_stringify :: "string \<Rightarrow> string" where
  "json_stringify s = [CHR 0x22] @ concat (map json_escape s) @ [CHR 0x22]"

definition addCssImport :: "string \<Rightarrow> string \<Rightarrow> string" where
  \<comment> \<open>\<^verbatim>\<open>`import ${JSON.stringify(cssModuleId)};\n\n${code}`\<close>\<close>
  "addCssImport code cssModuleId =
     ''import '' @ json_stringify cssModuleId @ '';'' @ [CHR 0x0A, CHR 0x0A] @ code"

subsection \<open>The hooks\<close>

record plugin_state =
  parsedFileInfoCache :: cache
  extractedCssPerFile :: "string \<rightharpoonup> string"

fun string_includes :: "string \<Rightarrow> string \<Rightarrow> bool" where
  \<comment> \<open>\<^verbatim>\<open>String.prototype.includes\<close>\<close>
  "string_includes [] sub = (sub = [])"
| "string_includes (c # cs) sub = (take (length sub) (c # cs) = sub \<or> string_includes cs sub)"

definition cleanId :: "string \<Rightarrow> string" where
  \<comment> \<open>the id up to its first \<^verbatim>\<open>?\<close>\<close>
  "cleanId ident = takeWhile (\<lambda>c. c \<noteq> CHR ''?'') ident"

definition cssModuleId :: "string \<Rightarrow> string \<Rightarrow> string" where
  \<comment> \<open>\<^verbatim>\<open>`${cleanId}.${hash}.css`\<close> with the hash of the style text\<close>
  "cssModuleId ident css = cleanId ident @ ''.'' @ hashText css @ ''.css''"

definition handler ::
  "string \<Rightarrow> host \<Rightarrow> plugin_state \<Rightarrow> string \<Rightarrow> string \<Rightarrow> error + string option \<times> plugin_state" where
  \<comment> \<open>\<^verbatim>\<open>transform.handler(code, id)\<close>; the result \<open>None\<close> is \<^verbatim>\<open>null\<close>\<close>
  "handler pfx h ps code ident =
     (if \<not> string_includes code ''ecij'' then Inr (None, ps)
      else
        (case extractCssFromCode pfx h (parsedFileInfoCache ps) code (cleanId ident) of
           Inl err \<Rightarrow> Inl err
         | Inr (r, c') \<Rightarrow>
            (let ps1 = ps\<lparr>parsedFileInfoCache := c'\<rparr> in
             if \<not> hasExtractions r then Inr (None, ps1)
             else
               (let withCss =
                      (if cssContent r \<noteq> []
                       then addCssImport (transformedCode r) (cssModuleId ident (cssContent r))
                       else transformedCode r);
                    ps2 =
                      (if cssContent r \<noteq> []
                       then ps1\<lparr>extractedCssPerFile :=
                              (extractedCssPerFile ps1)(cssModuleId ident (cssContent r) \<mapsto> cssContent r)\<rparr>
                       else ps1);
                    finalCode =
                      (if \<not> hasUnprocessedCssBlocks r then removeImport withCss else withCss)
                in Inr (Some finalCode, ps2)))))"

definition buildEnd :: "plugin_state \<Rightarrow> plugin_state" where
  "buildEnd ps = \<lparr>parsedFileInfoCache = Map.empty, extractedCssPerFile = Map.empty\<rparr>"

definition resolveId :: "plugin_state \<Rightarrow> string \<Rightarrow> string option" where
  "resolveId ps ident = (if extractedCssPerFile ps ident \<noteq> None then Some ident else None)"

definition load :: "plugin_state \<Rightarrow> string \<Rightarrow> string option" where
  "load ps ident = extractedCssPerFile ps ident"

definition with_style_import :: "string \<Rightarrow> ExtractionResult \<Rightarrow> string" where
  \<comment> \<open>the rewritten text with the import of the style module put in front, when there is
      style text\<close>
  "with_style_import ident r =
     (if cssContent r \<noteq> [] then addCssImport (transformedCode r) (cssModuleId ident (cssContent r))
      else transformedCode r)"

definition canonical_import :: string where
  \<comment> \<open>\<^verbatim>\<open>import { css } from 'ecij';\<close>\<close>
  "canonical_import = ''import { css } from '' @ [CHR 0x27] @ ''ecij'' @ [CHR 0x27] @ '';''"

definition plugin_after :: "plugin_state \<Rightarrow> cache \<Rightarrow> string \<Rightarrow> ExtractionResult \<Rightarrow> plugin_state" where
  \<comment> \<open>the plugin's two maps after a transform that ended with the cache \<open>c\<close> and the
      extraction result \<open>r\<close>\<close>
  "plugin_after ps c ident r =
     (if hasExtractions r \<and> cssContent r \<noteq> []
      then \<lparr>parsedFileInfoCache = c,
            extractedCssPerFile = (extractedCssPerFile ps)(cssModuleId ident (cssContent r) \<mapsto> cssContent r)\<rparr>
      else \<lparr>parsedFileInfoCache = c, extractedCssPerFile = extractedCssPerFile ps\<rparr>)"


fun no_import_before :: "string \<Rightarrow> string \<Rightarrow> bool" where
  \<comment> \<open>in the text \<open>pre @ follow\<close>, the import pattern matches at no position of \<open>pre\<close>\<close>
  "no_import_before [] follow = True"
| "no_import_before (c # pre) follow =
     (match_import (c # pre @ follow) = None \<and> no_import_before pre follow)"
section \<open>Example inputs\<close>

definition example_replacements :: "Replacement list" where
  "example_replacements =
     [\<lparr>rep_start = 2, rep_end = 4, rep_className = ''A''\<rparr>,
      \<lparr>rep_start = 7, rep_end = 9, rep_className = ''B''\<rparr>,
      \<lparr>rep_start = 5, rep_end = 6, rep_className = ''C''\<rparr>]"

text \<open>
  A small project under \<^verbatim>\<open>/proj\<close>.  Each file is given by its text and by what the
  parser returns for it; offsets are those of the tagged templates in the text.
\<close>

definition code_one :: string where
  "code_one =
     ''import { css } from '' @ [CHR 0x27] @ ''ecij'' @ [CHR 0x27] @ '';'' @ [CHR 0x0A] @
     ''const a = css'' @ [CHR 0x60] @ ''color: red;'' @ [CHR 0x60] @ '';'' @ [CHR 0x0A]"

definition parse_one :: parse_result where
  "parse_one =
     \<lparr>program =
        OtherNode [OtherNode [], OtherNode [VariableDeclarator (Identifier ''a'') (Some (TaggedTemplateExpression (Identifier ''css'') ''color: red;'' [] [] 38 54))]],
      staticImports = [StaticImport ''ecij'' [ImportEntry (ImportName ''css'') ''css'']],
      staticExports = []\<rparr>"

definition code_mixed :: string where
  "code_mixed =
     ''import { css } from '' @ [CHR 0x27] @ ''ecij'' @ [CHR 0x27] @ '';'' @ [CHR 0x0A] @
     ''const a = css'' @ [CHR 0x60] @ ''color: red;'' @ [CHR 0x60] @ '';'' @ [CHR 0x0A] @
     ''const b = css'' @ [CHR 0x60] @ ''width: ${f()}px;'' @ [CHR 0x60] @ '';'' @ [CHR 0x0A]"

definition parse_mixed :: parse_result where
  "parse_mixed =
     \<lparr>program =
        OtherNode [OtherNode [], OtherNode [VariableDeclarator (Identifier ''a'') (Some (TaggedTemplateExpression (Identifier ''css'') ''color: red;'' [] [] 38 54))],
        OtherNode [VariableDeclarator (Identifier ''b'') (Some (TaggedTemplateExpression (Identifier ''css'') ''width: '' [''px;''] [OtherNode [Identifier ''f'']] 66 87))]],
      staticImports = [StaticImport ''ecij'' [ImportEntry (ImportName ''css'') ''css'']],
      staticExports = []\<rparr>"

definition code_nested :: string where
  "code_nested =
     ''import { css } from '' @ [CHR 0x27] @ ''ecij'' @ [CHR 0x27] @ '';'' @ [CHR 0x0A] @
     ''const a = css'' @ [CHR 0x60] @ ''a${css'' @ [CHR 0x60, CHR 0x60] @ ''}b'' @
     [CHR 0x60] @ '';'' @ [CHR 0x0A]"

definition parse_nested :: parse_result where
  "parse_nested =
     \<lparr>program =
        OtherNode [OtherNode [], OtherNode [VariableDeclarator (Identifier ''a'') (Some (TaggedTemplateExpression (Identifier ''css'') ''a'' [''b''] [TaggedTemplateExpression (Identifier ''css'') [] [] [] 45 50] 38 53))]],
      staticImports = [StaticImport ''ecij'' [ImportEntry (ImportName ''css'') ''css'']],
      staticExports = []\<rparr>"

definition code_empty :: string where
  "code_empty =
     ''import { css } from '' @ [CHR 0x27] @ ''ecij'' @ [CHR 0x27] @ '';'' @ [CHR 0x0A] @
     ''const e = css'' @ [CHR 0x60, CHR 0x60] @ '';'' @ [CHR 0x0A]"

definition parse_empty :: parse_result where
  "parse_empty =
     \<lparr>program =
        OtherNode [OtherNode [], OtherNode [VariableDeclarator (Identifier ''e'') (Some (TaggedTemplateExpression (Identifier ''css'') [] [] [] 38 43))]],
      staticImports = [StaticImport ''ecij'' [ImportEntry (ImportName ''css'') ''css'']],
      staticExports = []\<rparr>"

definition code_unused :: string where
  "code_unused =
     ''import { css } from '' @ [CHR 0x27] @ ''ecij'' @ [CHR 0x27] @ '';'' @ [CHR 0x0A] @
     ''const x = 1;'' @ [CHR 0x0A]"

definition parse_unused :: parse_result where
  "parse_unused =
     \<lparr>program =
        OtherNode [OtherNode [], OtherNode [VariableDeclarator (Identifier ''x'') (Some (Literal (NumberValue ''1'')))]],
      staticImports = [StaticImport ''ecij'' [ImportEntry (ImportName ''css'') ''css'']],
      staticExports = []\<rparr>"

definition code_b :: string where
  "code_b =
     ''import { css } from '' @ [CHR 0x27] @ ''ecij'' @ [CHR 0x27] @ '';'' @ [CHR 0x0A] @
     ''export const red = css'' @ [CHR 0x60] @ ''color: ${pick()};'' @ [CHR 0x60] @ '';'' @
     [CHR 0x0A]"

definition parse_b :: parse_result where
  "parse_b =
     \<lparr>program =
        OtherNode [OtherNode [], OtherNode [OtherNode [VariableDeclarator (Identifier ''red'') (Some (TaggedTemplateExpression (Identifier ''css'') ''color: '' ['';''] [OtherNode [Identifier ''pick'']] 47 69))]]],
      staticImports = [StaticImport ''ecij'' [ImportEntry (ImportName ''css'') ''css'']],
      staticExports = [StaticExport [ExportEntry ExportImportNone (ExportExportName ''red'') (ExportLocalName ''red'')]]\<rparr>"

definition code_a :: string where
  "code_a =
     ''import { css } from '' @ [CHR 0x27] @ ''ecij'' @ [CHR 0x27] @ '';'' @ [CHR 0x0A] @
     ''import { red } from '' @ [CHR 0x27] @ ''./b'' @ [CHR 0x27] @ '';'' @ [CHR 0x0A] @
     ''const a = css'' @ [CHR 0x60] @ ''&.${red} {}'' @ [CHR 0x60] @ '';'' @ [CHR 0x0A]"

definition parse_a :: parse_result where
  "parse_a =
     \<lparr>program =
        OtherNode [OtherNode [], OtherNode [], OtherNode [VariableDeclarator (Identifier ''a'') (Some (TaggedTemplateExpression (Identifier ''css'') ''&.'' ['' {}''] [Identifier ''red''] 65 81))]],
      staticImports = [StaticImport ''ecij'' [ImportEntry (ImportName ''css'') ''css''],
         StaticImport ''./b'' [ImportEntry (ImportName ''red'') ''red'']],
      staticExports = []\<rparr>"

definition code_shadow :: string where
  "code_shadow =
     ''import { css } from '' @ [CHR 0x27] @ ''ecij'' @ [CHR 0x27] @ '';'' @ [CHR 0x0A] @
     ''export const a = css'' @ [CHR 0x60] @ ''color: ${pick()};'' @ [CHR 0x60] @ '';'' @
     [CHR 0x0A] @ ''function g() { const a = '' @ [CHR 0x27] @ ''red'' @ [CHR 0x27] @
     ''; return a; }'' @ [CHR 0x0A]"

definition parse_shadow :: parse_result where
  "parse_shadow =
     \<lparr>program =
        OtherNode [OtherNode [], OtherNode [OtherNode [VariableDeclarator (Identifier ''a'') (Some (TaggedTemplateExpression (Identifier ''css'') ''color: '' ['';''] [OtherNode [Identifier ''pick'']] 45 67))]],
        OtherNode [OtherNode [VariableDeclarator (Identifier ''a'') (Some (Literal (StringValue ''red'')))],
                   OtherNode [Identifier ''a'']]],
      staticImports = [StaticImport ''ecij'' [ImportEntry (ImportName ''css'') ''css'']],
      staticExports = [StaticExport [ExportEntry ExportImportNone (ExportExportName ''a'') (ExportLocalName ''a'')]]\<rparr>"

definition code_re :: string where
  "code_re =
     ''export { red } from '' @ [CHR 0x27] @ ''./c'' @ [CHR 0x27] @ '';'' @ [CHR 0x0A]"

definition parse_re :: parse_result where
  "parse_re =
     \<lparr>program =
        OtherNode [OtherNode []],
      staticImports = [],
      staticExports = [StaticExport [ExportEntry (ExportImportName ''red'') (ExportExportName ''red'') ExportLocalNone]]\<rparr>"

definition code_c :: string where
  "code_c =
     ''export const red = '' @ [CHR 0x27] @ ''red'' @ [CHR 0x27] @ '';'' @ [CHR 0x0A]"

definition parse_c :: parse_result where
  "parse_c =
     \<lparr>program =
        OtherNode [OtherNode [OtherNode [VariableDeclarator (Identifier ''red'') (Some (Literal (StringValue ''red'')))]]],
      staticImports = [],
      staticExports = [StaticExport [ExportEntry ExportImportNone (ExportExportName ''red'') (ExportLocalName ''red'')]]\<rparr>"

definition code_imp :: string where
  "code_imp =
     ''import { css } from '' @ [CHR 0x27] @ ''ecij'' @ [CHR 0x27] @ '';'' @ [CHR 0x0A] @
     ''import { red } from '' @ [CHR 0x27] @ ''./re'' @ [CHR 0x27] @ '';'' @ [CHR 0x0A] @
     ''const x = css'' @ [CHR 0x60] @ ''color: ${red};'' @ [CHR 0x60] @ '';'' @ [CHR 0x0A]"

definition parse_imp :: parse_result where
  "parse_imp =
     \<lparr>program =
        OtherNode [OtherNode [], OtherNode [], OtherNode [VariableDeclarator (Identifier ''x'') (Some (TaggedTemplateExpression (Identifier ''css'') ''color: '' ['';''] [Identifier ''red''] 66 85))]],
      staticImports = [StaticImport ''ecij'' [ImportEntry (ImportName ''css'') ''css''],
         StaticImport ''./re'' [ImportEntry (ImportName ''red'') ''red'']],
      staticExports = []\<rparr>"

definition code_imps :: string where
  "code_imps =
     ''import { css } from '' @ [CHR 0x27] @ ''ecij'' @ [CHR 0x27] @ '';'' @ [CHR 0x0A] @
     ''import { a } from '' @ [CHR 0x27] @ ''./shadow'' @ [CHR 0x27] @ '';'' @ [CHR 0x0A] @
     ''const y = css'' @ [CHR 0x60] @ ''&.${a} {}'' @ [CHR 0x60] @ '';'' @ [CHR 0x0A]"

definition parse_imps :: parse_result where
  "parse_imps =
     \<lparr>program =
        OtherNode [OtherNode [], OtherNode [], OtherNode [VariableDeclarator (Identifier ''y'') (Some (TaggedTemplateExpression (Identifier ''css'') ''&.'' ['' {}''] [Identifier ''a''] 68 82))]],
      staticImports = [StaticImport ''ecij'' [ImportEntry (ImportName ''css'') ''css''],
         StaticImport ''./shadow'' [ImportEntry (ImportName ''a'') ''a'']],
      staticExports = []\<rparr>"

definition code_orphan :: string where
  "code_orphan =
     ''import { css } from '' @ [CHR 0x27] @ ''ecij'' @ [CHR 0x27] @ '';'' @ [CHR 0x0A] @
     ''import { x } from '' @ [CHR 0x27] @ ''./gone'' @ [CHR 0x27] @ '';'' @ [CHR 0x0A] @
     ''const a = css'' @ [CHR 0x60] @ ''color: red;'' @ [CHR 0x60] @ '';'' @ [CHR 0x0A] @
     ''const b = css'' @ [CHR 0x60] @ ''&.${x} {}'' @ [CHR 0x60] @ '';'' @ [CHR 0x0A]"

definition parse_orphan :: parse_result where
  "parse_orphan =
     \<lparr>program =
        OtherNode [OtherNode [], OtherNode [], OtherNode [VariableDeclarator (Identifier ''a'') (Some (TaggedTemplateExpression (Identifier ''css'') ''color: red;'' [] [] 66 82))],
        OtherNode [VariableDeclarator (Identifier ''b'') (Some (TaggedTemplateExpression (Identifier ''css'') ''&.'' ['' {}''] [Identifier ''x''] 94 108))]],
      staticImports = [StaticImport ''ecij'' [ImportEntry (ImportName ''css'') ''css''],
         StaticImport ''./gone'' [ImportEntry (ImportName ''x'') ''x'']],
      staticExports = []\<rparr>"

definition empty_parse :: parse_result where
  "empty_parse = \<lparr>program = OtherNode [], staticImports = [], staticExports = []\<rparr>"

definition example_parseSync :: "string \<Rightarrow> string \<Rightarrow> parse_result" where
  "example_parseSync filePath text =
     (if text = code_one then parse_one else
      if text = code_mixed then parse_mixed else
      if text = code_nested then parse_nested else
      if text = code_empty then parse_empty else
      if text = code_unused then parse_unused else
      if text = code_b then parse_b else
      if text = code_a then parse_a else
      if text = code_shadow then parse_shadow else
      if text = code_re then parse_re else
      if text = code_c then parse_c else
      if text = code_imp then parse_imp else
      if text = code_imps then parse_imps else
      if text = code_orphan then parse_orphan
      else empty_parse)"

definition example_host :: host where
  "example_host =
     \<lparr>cwd = ''/proj'',
      relative = (\<lambda>from to. drop (Suc (length from)) to),
      parseSync = example_parseSync,
      resolve = (\<lambda>source importer.
        if source = ''./b'' then Some ''/proj/b.ts''
        else if source = ''./re'' then Some ''/proj/re.ts''
        else if source = ''./c'' then Some ''/proj/c.ts''
        else if source = ''./shadow'' then Some ''/proj/shadow.ts''
        else if source = ''./gone'' then Some ''/proj/gone.ts''
        else None),
      readFile = (\<lambda>filePath.
        if filePath = ''/proj/b.ts'' then Some code_b
        else if filePath = ''/proj/re.ts'' then Some code_re
        else if filePath = ''/proj/c.ts'' then Some code_c
        else if filePath = ''/proj/shadow.ts'' then Some code_shadow
        else None)\<rparr>"

definition fresh_plugin :: plugin_state where
  "fresh_plugin = \<lparr>parsedFileInfoCache = Map.empty, extractedCssPerFile = Map.empty\<rparr>"

definition stale_cache :: cache where
  \<comment> \<open>an entry for \<^verbatim>\<open>/proj/b.ts\<close> computed from another text\<close>
  "stale_cache = [''/proj/b.ts'' \<mapsto> analyseFile ''css-'' example_host ''/proj/b.ts'' code_c]"

definition untouched :: "string \<Rightarrow> ExtractionResult" where
  \<comment> \<open>the result of \<^verbatim>\<open>extractCssFromCode\<close> when no declaration resolved\<close>
  "untouched code =
     \<lparr>transformedCode = code, hasExtractions = False, cssContent = [],
      hasUnprocessedCssBlocks = False\<rparr>"

section \<open>Properties of splicing\<close>

lemma foldr_splice_ordered:
  "ordered_from (length code) pos rs \<Longrightarrow> pos \<le> length code \<Longrightarrow>
   foldr splice rs code = take pos code @ substitute_from pos code rs"
proof (induction rs arbitrary: pos)
  case Nil
  then show ?case by simp
next
  case (Cons r rs)
  have ih: "foldr splice rs code = take (rep_end r) code @ substitute_from (rep_end r) code rs"
    using Cons by simp
  have s: "pos \<le> rep_start r" "rep_start r \<le> rep_end r" "rep_end r \<le> length code"
    using Cons.prems by simp_all
  have t1: "take (rep_start r) (take (rep_end r) code @ substitute_from (rep_end r) code rs)
            = take (rep_start r) code"
    using s by (simp add: min_def)
  have t2: "drop (rep_end r) (take (rep_end r) code @ substitute_from (rep_end r) code rs)
            = substitute_from (rep_end r) code rs"
    using s by simp
  have t3: "take (rep_start r) code = take pos code @ take (rep_start r - pos) (drop pos code)"
    using s by (metis le_add_diff_inverse take_add)
  have "foldr splice (r # rs) code = splice r (foldr splice rs code)" by simp
  also have "\<dots> = take (rep_start r) code @ quoted (rep_className r) @
                    substitute_from (rep_end r) code rs"
    unfolding ih splice_def t1 t2 ..
  finally show ?case by (simp add: t3)
qed

lemma non_overlapping_pairs:
  assumes "non_overlapping rs" "within code rs"
  shows "distinct rs \<and> (\<forall>r \<in> set rs. \<forall>r' \<in> set rs. r \<noteq> r' \<longrightarrow> disjoint_ranges r r')"
  using assms
proof (induction rs)
  case Nil
  then show ?case by simp
next
  case (Cons a rs)
  have ih: "distinct rs" "\<forall>r \<in> set rs. \<forall>r' \<in> set rs. r \<noteq> r' \<longrightarrow> disjoint_ranges r r'"
    using Cons by (simp_all add: within_def)
  have all: "\<forall>r' \<in> set rs. disjoint_ranges a r'"
    using Cons.prems(1) by (simp add: list_all_iff)
  have ne: "rep_start a < rep_end a" using Cons.prems(2) by (simp add: within_def)
  have "a \<notin> set rs"
  proof
    assume "a \<in> set rs"
    then have "disjoint_ranges a a" using all by blast
    then show False using ne by (simp add: disjoint_ranges_def)
  qed
  moreover have "\<forall>r' \<in> set rs. disjoint_ranges r' a"
    using all by (auto simp: disjoint_ranges_def)
  ultimately show ?case using ih all by auto
qed

lemma non_overlapping_distinct_starts:
  assumes "non_overlapping rs" "within code rs"
  shows "distinct (map rep_start rs)"
proof -
  have p: "distinct rs" "\<forall>r \<in> set rs. \<forall>r' \<in> set rs. r \<noteq> r' \<longrightarrow> disjoint_ranges r r'"
    using non_overlapping_pairs [OF assms] by simp_all
  have "inj_on rep_start (set rs)"
  proof (rule inj_onI)
    fix r r' assume m: "r \<in> set rs" "r' \<in> set rs" and e: "rep_start r = rep_start r'"
    have "rep_start r < rep_end r" "rep_start r' < rep_end r'"
      using assms(2) m by (simp_all add: within_def list_all_iff)
    then have "\<not> disjoint_ranges r r'" using e by (simp add: disjoint_ranges_def)
    then show "r = r'" using p(2) m by blast
  qed
  then show ?thesis using p(1) by (simp add: distinct_map)
qed

lemma ordered_from_sorted:
  assumes "sorted (map rep_start rs)" "distinct rs"
    and "\<forall>r \<in> set rs. rep_start r < rep_end r \<and> rep_end r \<le> n \<and> pos \<le> rep_start r"
    and "\<forall>r \<in> set rs. \<forall>r' \<in> set rs. r \<noteq> r' \<longrightarrow> disjoint_ranges r r'"
  shows "ordered_from n pos rs"
  using assms
proof (induction rs arbitrary: pos)
  case Nil
  then show ?case by simp
next
  case (Cons r rs)
  have "\<forall>r' \<in> set rs. rep_end r \<le> rep_start r'"
  proof
    fix r' assume m: "r' \<in> set rs"
    then have ne: "r \<noteq> r'" using Cons.prems(2) by auto
    have le: "rep_start r \<le> rep_start r'" using Cons.prems(1) m by auto
    have "rep_start r' < rep_end r'" using Cons.prems(3) m by auto
    moreover have "disjoint_ranges r r'"
      using Cons.prems(4) m ne by auto
    ultimately show "rep_end r \<le> rep_start r'" using le by (auto simp: disjoint_ranges_def)
  qed
  then have "ordered_from n (rep_end r) rs"
    using Cons.prems by (intro Cons.IH) auto
  then show ?case using Cons.prems(3) by auto
qed

lemma sorted_rev_negated:
  "sorted (map f xs) \<Longrightarrow> sorted (map (\<lambda>x. - int (f x)) (rev xs))"
  by (induction xs) (auto simp: sorted_append)

lemma sort_desc_rev_asc:
  assumes "distinct (map rep_start rs)"
  shows "sort_key (\<lambda>r. - int (rep_start r)) rs = rev (sort_key rep_start rs)"
proof (rule map_sorted_distinct_set_unique [where f = "\<lambda>r. - int (rep_start r)"])
  have inj: "inj_on rep_start (set rs)" using assms by (simp add: distinct_map)
  show "inj_on (\<lambda>r. - int (rep_start r))
          (set (sort_key (\<lambda>r. - int (rep_start r)) rs) \<union> set (rev (sort_key rep_start rs)))"
    using inj by (auto simp: inj_on_def)
  show "sorted (map (\<lambda>r. - int (rep_start r)) (sort_key (\<lambda>r. - int (rep_start r)) rs))"
    by simp
  show "distinct (map (\<lambda>r. - int (rep_start r)) (sort_key (\<lambda>r. - int (rep_start r)) rs))"
    using inj assms by (auto simp: distinct_map inj_on_def)
  show "sorted (map (\<lambda>r. - int (rep_start r)) (rev (sort_key rep_start rs)))"
    by (rule sorted_rev_negated) simp
  show "distinct (map (\<lambda>r. - int (rep_start r)) (rev (sort_key rep_start rs)))"
    using inj assms by (auto simp: distinct_map inj_on_def)
  show "set (sort_key (\<lambda>r. - int (rep_start r)) rs) = set (rev (sort_key rep_start rs))"
    by simp
qed

text \<open>
  C4. Applying the recorded replacements by splicing, highest start offset first, gives the
  same text (hence the same length and content) as substituting each quoted class name at
  its recorded range of the original text, for every list of pairwise non-overlapping,
  non-empty ranges of the text.
\<close>

theorem C4_splicing_equals_manual_substitution:
  assumes "non_overlapping rs" and "within code rs"
  shows "applyReplacements code rs = manual_substitution code rs
         \<and> length (applyReplacements code rs) = length (manual_substitution code rs)"
proof -
  let ?as = "sort_key rep_start rs"
  have ds: "distinct (map rep_start rs)"
    using assms by (rule non_overlapping_distinct_starts)
  have p: "distinct rs" "\<forall>r \<in> set rs. \<forall>r' \<in> set rs. r \<noteq> r' \<longrightarrow> disjoint_ranges r r'"
    using non_overlapping_pairs [OF assms] by simp_all
  have ord: "ordered_from (length code) 0 ?as"
  proof (rule ordered_from_sorted)
    show "sorted (map rep_start ?as)" by simp
    show "distinct ?as" using p(1) by simp
    show "\<forall>r \<in> set ?as. rep_start r < rep_end r \<and> rep_end r \<le> length code \<and> 0 \<le> rep_start r"
      using assms(2) by (simp add: within_def list_all_iff)
    show "\<forall>r \<in> set ?as. \<forall>r' \<in> set ?as. r \<noteq> r' \<longrightarrow> disjoint_ranges r r'"
      using p(2) by simp
  qed
  have "applyReplacements code rs = fold splice (rev ?as) code"
    by (simp add: applyReplacements_def sortReplacements_def sort_desc_rev_asc [OF ds])
  also have "\<dots> = foldr splice ?as code" by (simp add: foldr_conv_fold)
  also have "\<dots> = take 0 code @ substitute_from 0 code ?as"
    using ord by (rule foldr_splice_ordered) simp
  finally have "applyReplacements code rs = manual_substitution code rs"
    by (simp add: manual_substitution_def)
  then show ?thesis by simp
qed

theorem C4_witness:
  "non_overlapping example_replacements \<and> within ''0123456789'' example_replacements
   \<and> applyReplacements ''0123456789'' example_replacements
       = [CHR ''0'', CHR ''1'', CHR 0x27, CHR ''A'', CHR 0x27, CHR ''4'', CHR 0x27, CHR ''C'',
          CHR 0x27, CHR ''6'', CHR 0x27, CHR ''B'', CHR 0x27, CHR ''9'']"
proof -
  have h1: "non_overlapping example_replacements"
    by (simp add: example_replacements_def disjoint_ranges_def)
  have h2: "within ''0123456789'' example_replacements"
    by (simp add: example_replacements_def within_def)
  have "manual_substitution ''0123456789'' example_replacements
       = [CHR ''0'', CHR ''1'', CHR 0x27, CHR ''A'', CHR 0x27, CHR ''4'', CHR 0x27, CHR ''C'',
          CHR 0x27, CHR ''6'', CHR 0x27, CHR ''B'', CHR 0x27, CHR ''9'']"
    by (simp add: manual_substitution_def example_replacements_def quoted_def)
  then show ?thesis
    using C4_splicing_equals_manual_substitution [OF h1 h2] h1 h2 by simp
qed

section \<open>Properties of the file analysis\<close>


lemma record_declarations [simp]:
  "declarations (recordIdentifierWithValue sc x v st) = declarations st"
  "seen (recordIdentifierWithValue sc x v st) = seen st"
  by (simp_all add: recordIdentifierWithValue_def seen_def Let_def split: option.splits)

lemma handle_declarations:
  "declarations (handleTaggedTemplateExpression sc ln t st) =
     declarations st @ (if is_css_tagged t then [declaration_at sc (length (declarations st), ln, t)] else [])"
  by (simp add: handleTaggedTemplateExpression_def Let_def declaration_at_def split: option.splits)

lemma handle_seen [simp]:
  "seen (handleTaggedTemplateExpression sc ln t st) = seen st"
  by (simp add: handleTaggedTemplateExpression_def Let_def split: option.splits)
     (simp add: seen_def)

lemma onTagged_declarations:
  "declarations (onTaggedTemplateExpression sc p (TaggedTemplateExpression tg q qs es s e) st) =
     declarations st @
     (if tg = Identifier ''css'' \<and> p \<notin> seen st
      then [declaration_at sc (length (declarations st), None, TaggedTemplateExpression tg q qs es s e)]
      else [])"
  by (simp add: onTaggedTemplateExpression_def handle_declarations is_css_tagged_def seen_def)

lemma onTagged_seen [simp]:
  "seen (onTaggedTemplateExpression sc p t st) = seen st"
  by (simp add: onTaggedTemplateExpression_def)

lemma onDeclarator_declarations:
  "declarations (onVariableDeclarator sc p i init st) =
     declarations st @
     (case init of
        None \<Rightarrow> []
      | Some t \<Rightarrow> if binds i init \<and> css_node t
                  then [declaration_at sc (length (declarations st), Some (name i), t)] else [])"
  by (induction sc p i init st rule: onVariableDeclarator.induct)
     (simp_all add: handle_declarations is_css_tagged_def split: option.splits)

lemma seen_add [simp]:
  "seen (st\<lparr>taggedTemplateExpressionFromVariableDeclarator :=
             x # taggedTemplateExpressionFromVariableDeclarator st\<rparr>) = insert x (seen st)"
  by (simp add: seen_def)

lemma onDeclarator_seen:
  "seen (onVariableDeclarator sc p i init st) = seen st \<union> (if binds i init then {p @ [1]} else {})"
  by (induction sc p i init st rule: onVariableDeclarator.induct) simp_all

lemma declarations_from_Nil [simp]: "declarations_from sc k [] = []"
  by (simp add: declarations_from_def)

lemma declarations_from_append:
  "declarations_from sc k (xs @ ys) = declarations_from sc k xs @ declarations_from sc (k + length xs) ys"
  by (simp add: declarations_from_def enumerate_append_eq)

lemma declarations_from_single [simp]:
  "declarations_from sc k [x] = [declaration_at sc (k, x)]"
  by (simp add: declarations_from_def)

lemma length_declarations_from [simp]: "length (declarations_from sc k xs) = length xs"
  by (simp add: declarations_from_def)

lemma child_strict: "prefix (p @ [j]) q \<Longrightarrow> strict_prefix p q"
  by (auto simp: prefix_def strict_prefix_def)

lemma child_strict': "strict_prefix (p @ [j]) q \<Longrightarrow> strict_prefix p q"
  by (auto simp: prefix_def strict_prefix_def)

lemma self_child: "strict_prefix p (p @ [j])"
  by (auto simp: strict_prefix_def)

lemma child_unique: "prefix (p @ [a]) q \<Longrightarrow> prefix (p @ [b]) q \<Longrightarrow> a = b"
  by (auto simp: prefix_def)


lemma seen_callback: "seen st \<subseteq> seen (callback sc ev st)"
proof (cases ev)
  case (Pair p n)
  then show ?thesis by (cases n) (auto simp: onDeclarator_seen)
qed

lemma seen_fold_callback: "seen st \<subseteq> seen (fold (callback sc) evs st)"
proof (induction evs arbitrary: st)
  case Nil
  then show ?case by simp
next
  case (Cons ev evs)
  have "seen st \<subseteq> seen (callback sc ev st)" by (rule seen_callback)
  also have "\<dots> \<subseteq> seen (fold (callback sc) evs (callback sc ev st))" by (rule Cons.IH)
  finally show ?case by simp
qed

lemma walk_okD:
  assumes "walk_ok sc p n" "\<forall>q \<in> seen st. \<not> strict_prefix p q"
  shows "declarations (fold (callback sc) (visits p n) st) =
          declarations st @ declarations_from sc (length (declarations st)) (occurrences (p \<in> seen st) n)"
    and "seen (fold (callback sc) (visits p n) st) \<subseteq> seen st \<union> {q. strict_prefix p q}"
  using assms unfolding walk_ok_def by blast+

lemma walk_list_okD:
  assumes "walk_list_ok sc p k cs" "\<forall>q \<in> seen st. \<forall>j \<ge> k. \<not> prefix (p @ [j]) q"
  shows "declarations (fold (callback sc) (visits_list p k cs) st) =
          declarations st @ declarations_from sc (length (declarations st)) (occurrences_list cs)"
    and "seen (fold (callback sc) (visits_list p k cs) st)
            \<subseteq> seen st \<union> {q. \<exists>j \<ge> k. strict_prefix (p @ [j]) q}"
  using assms unfolding walk_list_ok_def by blast+

lemma walk_ok_all:
  "walk_ok sc p n" and "walk_list_ok sc p k cs"
proof (induction p n and p k cs rule: visits_visits_list.induct)
  case (1 p x)
  show ?case by (simp add: walk_ok_def)
next
  case (2 p v)
  show ?case by (simp add: walk_ok_def)
next
  case (3 p tg q qs es s e)
  let ?t = "TaggedTemplateExpression tg q qs es s e"
  show ?case
    unfolding walk_ok_def
  proof (intro allI impI)
    fix st assume fresh: "\<forall>r \<in> seen st. \<not> strict_prefix p r"
    let ?st1 = "onTaggedTemplateExpression sc p ?t st"
    let ?st2 = "fold (callback sc) (visits (p @ [0]) tg) ?st1"
    let ?st3 = "fold (callback sc) (visits_list p 1 es) ?st2"
    let ?self = "if tg = Identifier ''css'' \<and> p \<notin> seen st then [(None, ?t)] else []"
    have run: "fold (callback sc) (visits p ?t) st = ?st3" by simp
    have d1: "declarations ?st1 = declarations st @ declarations_from sc (length (declarations st)) ?self"
      by (simp add: onTagged_declarations)
    have f1: "\<forall>r \<in> seen ?st1. \<not> strict_prefix (p @ [0]) r"
    proof (intro ballI notI)
      fix r assume "r \<in> seen ?st1" "strict_prefix (p @ [0]) r"
      then have "r \<in> seen st" "strict_prefix p r" by (simp_all add: child_strict')
      then show False using fresh by simp
    qed
    have n1: "p @ [0] \<notin> seen ?st1"
    proof
      assume "p @ [0] \<in> seen ?st1"
      then have "p @ [0] \<in> seen st" by simp
      moreover have "strict_prefix p (p @ [0])" by (rule self_child)
      ultimately show False using fresh by blast
    qed
    have d2: "declarations ?st2 = declarations ?st1 @
                declarations_from sc (length (declarations ?st1)) (occurrences False tg)"
      using walk_okD(1) [OF "3.IH"(1) f1] n1 by simp
    have s2: "seen ?st2 \<subseteq> seen ?st1 \<union> {r. strict_prefix (p @ [0]) r}"
      using walk_okD(2) [OF "3.IH"(1) f1] .
    have f2: "\<forall>r \<in> seen ?st2. \<forall>j \<ge> 1. \<not> prefix (p @ [j]) r"
    proof (intro ballI allI impI notI)
      fix r j assume r: "r \<in> seen ?st2" and j: "(1::nat) \<le> j" and pr: "prefix (p @ [j]) r"
      from r s2 have "r \<in> seen ?st1 \<or> strict_prefix (p @ [0]) r" by blast
      then have "r \<in> seen st \<or> strict_prefix (p @ [0]) r" by simp
      then show False
      proof
        assume a: "r \<in> seen st"
        have "strict_prefix p r" using pr by (rule child_strict)
        then show False using fresh a by simp
      next
        assume "strict_prefix (p @ [0]) r"
        then have "prefix (p @ [0]) r" by (simp add: strict_prefix_def)
        then have "0 = j" using pr by (rule child_unique)
        then show False using j by simp
      qed
    qed
    have d3: "declarations ?st3 = declarations ?st2 @
                declarations_from sc (length (declarations ?st2)) (occurrences_list es)"
      using walk_list_okD(1) [OF "3.IH"(2) f2] .
    have s3: "seen ?st3 \<subseteq> seen ?st2 \<union> {r. \<exists>j \<ge> 1. strict_prefix (p @ [j]) r}"
      using walk_list_okD(2) [OF "3.IH"(2) f2] .
    have occ: "occurrences (p \<in> seen st) ?t = ?self @ occurrences False tg @ occurrences_list es"
      by simp
    have "declarations ?st3 =
            declarations st @ declarations_from sc (length (declarations st)) (occurrences (p \<in> seen st) ?t)"
      by (simp only: occ d3 d2 d1 declarations_from_append length_append length_declarations_from
            append_assoc add.assoc)
    moreover have "seen ?st3 \<subseteq> seen st \<union> {r. strict_prefix p r}"
    proof
      fix r assume "r \<in> seen ?st3"
      then have "r \<in> seen ?st2 \<or> (\<exists>j \<ge> 1. strict_prefix (p @ [j]) r)"
        using s3 by blast
      then have "r \<in> seen ?st1 \<or> strict_prefix (p @ [0]) r \<or> (\<exists>j \<ge> 1. strict_prefix (p @ [j]) r)"
        using s2 by blast
      then have "r \<in> seen st \<or> strict_prefix p r"
        by (auto dest: child_strict')
      then show "r \<in> seen st \<union> {r. strict_prefix p r}" by simp
    qed
    ultimately show "declarations (fold (callback sc) (visits p ?t) st) =
            declarations st @ declarations_from sc (length (declarations st)) (occurrences (p \<in> seen st) ?t)
          \<and> seen (fold (callback sc) (visits p ?t) st) \<subseteq> seen st \<union> {r. strict_prefix p r}"
      unfolding run by simp
  qed
next
  case (4 p i init)
  let ?n = "VariableDeclarator i init"
  show ?case
    unfolding walk_ok_def
  proof (intro allI impI)
    fix st assume fresh: "\<forall>r \<in> seen st. \<not> strict_prefix p r"
    let ?st1 = "onVariableDeclarator sc p i init st"
    let ?st2 = "fold (callback sc) (visits (p @ [0]) i) ?st1"
    let ?own = "case init of None \<Rightarrow> [] | Some t \<Rightarrow> if binds i init \<and> css_node t then [(Some (name i), t)] else []"
    have d1: "declarations ?st1 = declarations st @ declarations_from sc (length (declarations st)) ?own"
      by (simp add: onDeclarator_declarations split: option.splits)
    have s1: "seen ?st1 = seen st \<union> (if binds i init then {p @ [1]} else {})"
      by (rule onDeclarator_seen)
    have f1: "\<forall>r \<in> seen ?st1. \<not> strict_prefix (p @ [0]) r"
    proof (intro ballI notI)
      fix r assume r: "r \<in> seen ?st1" and sp: "strict_prefix (p @ [0]) r"
      have "strict_prefix p r" using sp by (rule child_strict')
      then have "r \<notin> seen st" using fresh by blast
      then have "r = p @ [1]" using r s1 by (auto split: if_splits)
      then show False using sp by (auto simp: strict_prefix_def prefix_def)
    qed
    have n1: "p @ [0] \<notin> seen ?st1"
    proof
      assume a: "p @ [0] \<in> seen ?st1"
      have "p @ [0] \<notin> seen st" using fresh self_child [of p 0] by blast
      then have "p @ [0] = p @ [1]" using a s1 by (auto split: if_splits)
      then show False by simp
    qed
    have d2: "declarations ?st2 = declarations ?st1 @
                declarations_from sc (length (declarations ?st1)) (occurrences False i)"
      using walk_okD(1) [OF "4.IH"(1) f1] n1 by simp
    have s2: "seen ?st2 \<subseteq> seen ?st1 \<union> {r. strict_prefix (p @ [0]) r}"
      using walk_okD(2) [OF "4.IH"(1) f1] .
    have s2': "seen ?st1 \<subseteq> seen ?st2" by (rule seen_fold_callback)
    show "declarations (fold (callback sc) (visits p ?n) st) =
            declarations st @ declarations_from sc (length (declarations st)) (occurrences (p \<in> seen st) ?n)
          \<and> seen (fold (callback sc) (visits p ?n) st) \<subseteq> seen st \<union> {r. strict_prefix p r}"
    proof (cases init)
      case None
      have run: "fold (callback sc) (visits p ?n) st = ?st2" using None by simp
      have own: "?own = []" using None by simp
      have occ: "occurrences (p \<in> seen st) ?n = occurrences False i" using None by simp
      have "declarations ?st2 =
            declarations st @ declarations_from sc (length (declarations st)) (occurrences False i)"
        unfolding d2 d1 own by simp
      moreover have "seen ?st2 \<subseteq> seen st \<union> {r. strict_prefix p r}"
      proof
        fix r assume "r \<in> seen ?st2"
        then have "r \<in> seen ?st1 \<or> strict_prefix (p @ [0]) r" using s2 by blast
        moreover have "seen ?st1 = seen st" using s1 None by simp
        ultimately have "r \<in> seen st \<or> strict_prefix p r"
          using child_strict' [of p 0 r] by blast
        then show "r \<in> seen st \<union> {r. strict_prefix p r}" by simp
      qed
      ultimately show ?thesis unfolding run occ by simp
    next
      case (Some t)
      let ?st3 = "fold (callback sc) (visits (p @ [1]) t) ?st2"
      have run: "fold (callback sc) (visits p ?n) st = ?st3" using Some by simp
      have f2: "\<forall>r \<in> seen ?st2. \<not> strict_prefix (p @ [1]) r"
      proof (intro ballI notI)
        fix r assume r: "r \<in> seen ?st2" and sp: "strict_prefix (p @ [1]) r"
        have spp: "strict_prefix p r" using sp by (rule child_strict')
        have "r \<in> seen ?st1 \<or> strict_prefix (p @ [0]) r" using r s2 by blast
        then show False
        proof
          assume "r \<in> seen ?st1"
          then have "r \<in> seen st \<or> r = p @ [1]" using s1 by (auto split: if_splits)
          then show False using fresh spp sp by (auto simp: strict_prefix_def)
        next
          assume "strict_prefix (p @ [0]) r"
          then have "prefix (p @ [0]) r" by (simp add: strict_prefix_def)
          moreover have "prefix (p @ [1]) r" using sp by (simp add: strict_prefix_def)
          ultimately have "(0::nat) = 1" by (rule child_unique)
          then show False by simp
        qed
      qed
      have m2: "p @ [1] \<in> seen ?st2 \<longleftrightarrow> binds i init"
      proof
        assume a: "p @ [1] \<in> seen ?st2"
        have "\<not> strict_prefix (p @ [0]) (p @ [1])" by (auto simp: strict_prefix_def prefix_def)
        then have "p @ [1] \<in> seen ?st1" using a s2 by blast
        moreover have "p @ [1] \<notin> seen st" using fresh self_child [of p 1] by blast
        ultimately show "binds i init" using s1 by (auto split: if_splits)
      next
        assume "binds i init"
        then have "p @ [1] \<in> seen ?st1" using s1 by simp
        then show "p @ [1] \<in> seen ?st2" using s2' by blast
      qed
      have d3: "declarations ?st3 = declarations ?st2 @
                  declarations_from sc (length (declarations ?st2)) (occurrences (binds i init) t)"
        using walk_okD(1) [OF "4.IH"(2) [OF Some] f2] m2 by simp
      have s3: "seen ?st3 \<subseteq> seen ?st2 \<union> {r. strict_prefix (p @ [1]) r}"
        using walk_okD(2) [OF "4.IH"(2) [OF Some] f2] .
      have occ: "occurrences (p \<in> seen st) ?n = ?own @ occurrences False i @ occurrences (binds i init) t"
        using Some by simp
      have "declarations ?st3 =
            declarations st @ declarations_from sc (length (declarations st)) (occurrences (p \<in> seen st) ?n)"
        by (simp only: occ d3 d2 d1 declarations_from_append length_append length_declarations_from
            append_assoc add.assoc)
      moreover have "seen ?st3 \<subseteq> seen st \<union> {r. strict_prefix p r}"
      proof
        fix r assume "r \<in> seen ?st3"
        then have "r \<in> seen ?st2 \<or> strict_prefix (p @ [1]) r" using s3 by blast
        then have "r \<in> seen ?st1 \<or> strict_prefix (p @ [0]) r \<or> strict_prefix (p @ [1]) r"
          using s2 by blast
        then have "r \<in> seen st \<or> r = p @ [1] \<or> strict_prefix (p @ [0]) r \<or> strict_prefix (p @ [1]) r"
          using s1 by (auto split: if_splits)
        then have "r \<in> seen st \<or> strict_prefix p r"
          using child_strict' [of p 0 r] child_strict' [of p 1 r] self_child [of p 1] by blast
        then show "r \<in> seen st \<union> {r. strict_prefix p r}" by simp
      qed
      ultimately show ?thesis unfolding run by simp
    qed
  qed
next
  case (5 p cs)
  show ?case
    unfolding walk_ok_def
  proof (intro allI impI)
    fix st assume fresh: "\<forall>r \<in> seen st. \<not> strict_prefix p r"
    have f: "\<forall>r \<in> seen st. \<forall>j \<ge> 0. \<not> prefix (p @ [j]) r"
    proof (intro ballI allI impI notI)
      fix r j assume "r \<in> seen st" "prefix (p @ [j]) r"
      then show False using fresh child_strict [of p j r] by blast
    qed
    have d: "declarations (fold (callback sc) (visits_list p 0 cs) st) =
          declarations st @ declarations_from sc (length (declarations st)) (occurrences_list cs)"
      using walk_list_okD(1) [OF "5.IH" f] .
    have s: "seen (fold (callback sc) (visits_list p 0 cs) st)
            \<subseteq> seen st \<union> {q. \<exists>j \<ge> 0. strict_prefix (p @ [j]) q}"
      using walk_list_okD(2) [OF "5.IH" f] .
    have "seen (fold (callback sc) (visits_list p 0 cs) st) \<subseteq> seen st \<union> {r. strict_prefix p r}"
    proof
      fix r assume "r \<in> seen (fold (callback sc) (visits_list p 0 cs) st)"
      then have "r \<in> seen st \<or> (\<exists>j. strict_prefix (p @ [j]) r)" using s by blast
      then have "r \<in> seen st \<or> strict_prefix p r"
      proof (elim disjE exE)
        assume "r \<in> seen st" then show ?thesis by simp
      next
        fix j assume "strict_prefix (p @ [j]) r"
        then show ?thesis using child_strict' [of p j r] by simp
      qed
      then show "r \<in> seen st \<union> {r. strict_prefix p r}" by simp
    qed
    then show "declarations (fold (callback sc) (visits p (OtherNode cs)) st) =
            declarations st @ declarations_from sc (length (declarations st))
               (occurrences (p \<in> seen st) (OtherNode cs))
          \<and> seen (fold (callback sc) (visits p (OtherNode cs)) st) \<subseteq> seen st \<union> {r. strict_prefix p r}"
      using d by simp
  qed
next
  case (6 p k)
  show ?case by (simp add: walk_list_ok_def)
next
  case (7 p k c cs)
  show ?case
    unfolding walk_list_ok_def
  proof (intro allI impI)
    fix st assume fresh: "\<forall>r \<in> seen st. \<forall>j \<ge> k. \<not> prefix (p @ [j]) r"
    let ?st1 = "fold (callback sc) (visits (p @ [k]) c) st"
    let ?st2 = "fold (callback sc) (visits_list p (Suc k) cs) ?st1"
    have run: "fold (callback sc) (visits_list p k (c # cs)) st = ?st2" by simp
    have f1: "\<forall>r \<in> seen st. \<not> strict_prefix (p @ [k]) r"
      using fresh by (auto simp: strict_prefix_def)
    have n1: "p @ [k] \<notin> seen st" using fresh by auto
    have d1: "declarations ?st1 = declarations st @
                declarations_from sc (length (declarations st)) (occurrences False c)"
      using walk_okD(1) [OF "7.IH"(1) f1] n1 by simp
    have s1: "seen ?st1 \<subseteq> seen st \<union> {r. strict_prefix (p @ [k]) r}"
      using walk_okD(2) [OF "7.IH"(1) f1] .
    have f2: "\<forall>r \<in> seen ?st1. \<forall>j \<ge> Suc k. \<not> prefix (p @ [j]) r"
    proof (intro ballI allI impI notI)
      fix r j assume r: "r \<in> seen ?st1" and j: "Suc k \<le> j" and pr: "prefix (p @ [j]) r"
      have "r \<in> seen st \<or> strict_prefix (p @ [k]) r" using r s1 by blast
      then show False
      proof
        assume "r \<in> seen st"
        then show False using fresh j pr by auto
      next
        assume "strict_prefix (p @ [k]) r"
        then have "prefix (p @ [k]) r" by (simp add: strict_prefix_def)
        then have "k = j" using pr by (rule child_unique)
        then show False using j by simp
      qed
    qed
    have d2: "declarations ?st2 = declarations ?st1 @
                declarations_from sc (length (declarations ?st1)) (occurrences_list cs)"
      using walk_list_okD(1) [OF "7.IH"(2) f2] .
    have s2: "seen ?st2 \<subseteq> seen ?st1 \<union> {r. \<exists>j \<ge> Suc k. strict_prefix (p @ [j]) r}"
      using walk_list_okD(2) [OF "7.IH"(2) f2] .
    have occ: "occurrences_list (c # cs) = occurrences False c @ occurrences_list cs" by simp
    have "declarations ?st2 =
            declarations st @ declarations_from sc (length (declarations st)) (occurrences_list (c # cs))"
      by (simp only: occ d2 d1 declarations_from_append length_append length_declarations_from
            append_assoc add.assoc)
    moreover have "seen ?st2 \<subseteq> seen st \<union> {r. \<exists>j \<ge> k. strict_prefix (p @ [j]) r}"
    proof
      fix r assume "r \<in> seen ?st2"
      then have "r \<in> seen ?st1 \<or> (\<exists>j \<ge> Suc k. strict_prefix (p @ [j]) r)" using s2 by blast
      then have "r \<in> seen st \<or> strict_prefix (p @ [k]) r \<or> (\<exists>j \<ge> Suc k. strict_prefix (p @ [j]) r)"
        using s1 by blast
      then have "r \<in> seen st \<or> (\<exists>j \<ge> k. strict_prefix (p @ [j]) r)"
        by (metis Suc_leD order_refl)
      then show "r \<in> seen st \<union> {r. \<exists>j \<ge> k. strict_prefix (p @ [j]) r}" by simp
    qed
    ultimately show "declarations (fold (callback sc) (visits_list p k (c # cs)) st) =
          declarations st @ declarations_from sc (length (declarations st)) (occurrences_list (c # cs))
        \<and> seen (fold (callback sc) (visits_list p k (c # cs)) st)
            \<subseteq> seen st \<union> {q. \<exists>j \<ge> k. strict_prefix (p @ [j]) q}"
      unfolding run by simp
  qed
qed

lemma length_occurrences:
  "length (occurrences listed n) + (if listed \<and> css_node n then 1 else 0) = count_css n"
  "length (occurrences_list cs) = count_css_list cs"
proof (induction listed n and cs rule: occurrences_occurrences_list.induct)
  case (4 listed i init)
  show ?case
  proof (cases init)
    case None
    then show ?thesis using 4 by simp
  next
    case (Some t)
    have a: "length (occurrences False i) = count_css i"
      using "4.IH"(2) [OF Some] by simp
    have b: "length (occurrences (binds i init) t) + (if binds i init \<and> css_node t then 1 else 0) = count_css t"
      using "4.IH"(3) [OF Some] .
    show ?thesis using Some a b by (auto split: if_splits)
  qed
qed simp_all

lemma analyse_declarations:
  "declarations (analyse pfx rel pr) =
     declarations_from
       \<lparr>classPrefix = pfx, relativePath = rel,
        localNameToExportedNameMap = collectExports (staticExports pr)\<rparr>
       0 (occurrences False (program pr))"
proof -
  let ?sc = "\<lparr>classPrefix = pfx, relativePath = rel,
        localNameToExportedNameMap = collectExports (staticExports pr)\<rparr>"
  let ?st = "initial_state (collectImports (staticImports pr))"
  have e: "seen ?st = {}" "declarations ?st = []"
    by (simp_all add: seen_def initial_state_def)
  have "\<forall>q \<in> seen ?st. \<not> strict_prefix [] q" using e by simp
  from walk_okD(1) [OF walk_ok_all(1) this, of ?sc "program pr"]
  show ?thesis
    using e by (simp add: analyse_def visit_def Let_def ParsedFileInfo.truncate_def)
qed

lemma analyseFile_count:
  "length (declarations (analyseFile pfx h filePath sourceText))
     = count_css (program (parseSync h filePath sourceText))"
  using length_occurrences(1) [of False "program (parseSync h filePath sourceText)"]
  by (simp add: analyseFile_def analyse_declarations)

section \<open>Properties of the naming scheme\<close>

lemma digit_char_inj: "d < 10 \<Longrightarrow> d' < 10 \<Longrightarrow> digit_char d = digit_char d' \<Longrightarrow> d = d'"
proof -
  assume a: "d < 10" "d' < 10" "digit_char d = digit_char d'"
  then have "(of_char (char_of (48 + d)) :: nat) = of_char (char_of (48 + d'))"
    by (simp add: digit_char_def)
  then have "(48 + d) mod 256 = (48 + d') mod 256" by simp
  then show ?thesis using a by simp
qed

lemma string_of_nat_nonempty: "string_of_nat n \<noteq> []"
  by (subst string_of_nat.simps) simp

lemma string_of_nat_inj: "string_of_nat n = string_of_nat m \<Longrightarrow> n = m"
proof (induction n arbitrary: m rule: string_of_nat.induct)
  case (1 n)
  show ?case
  proof (cases "n < 10")
    case True
    then have sn: "string_of_nat n = [digit_char n]" by (subst string_of_nat.simps) simp
    show ?thesis
    proof (cases "m < 10")
      case True
      then have "string_of_nat m = [digit_char m]" by (subst string_of_nat.simps) simp
      then show ?thesis using sn "1.prems" \<open>n < 10\<close> True digit_char_inj by simp
    next
      case False
      then have "string_of_nat m = string_of_nat (m div 10) @ [digit_char (m mod 10)]"
        by (subst string_of_nat.simps) simp
      then show ?thesis using sn "1.prems" string_of_nat_nonempty [of "m div 10"] by simp
    qed
  next
    case False
    then have sn: "string_of_nat n = string_of_nat (n div 10) @ [digit_char (n mod 10)]"
      by (subst string_of_nat.simps) simp
    show ?thesis
    proof (cases "m < 10")
      case True
      then have "string_of_nat m = [digit_char m]" by (subst string_of_nat.simps) simp
      then show ?thesis using sn "1.prems" string_of_nat_nonempty [of "n div 10"] by simp
    next
      case m: False
      then have sm: "string_of_nat m = string_of_nat (m div 10) @ [digit_char (m mod 10)]"
        by (subst string_of_nat.simps) simp
      from sn sm "1.prems" have e: "string_of_nat (n div 10) = string_of_nat (m div 10)"
        "digit_char (n mod 10) = digit_char (m mod 10)" by simp_all
      have "n div 10 = m div 10" using "1.IH" [OF False e(1)] .
      moreover have "n mod 10 = m mod 10" using digit_char_inj [OF _ _ e(2)] by simp
      ultimately show ?thesis by (metis div_mult_mod_eq)
    qed
  qed
qed

lemma classNameKey_index_inj:
  "classNameKey rel i ln = classNameKey rel j ln \<Longrightarrow> i = j"
  by (simp add: classNameKey_def string_of_nat_inj)

lemma classNameKey_name_inj:
  "classNameKey rel i (Some n) = classNameKey rel i (Some m) \<Longrightarrow> n = m"
  by (simp add: classNameKey_def string_of_name_def)

lemma string_of_nat_digit: "n < 10 \<Longrightarrow> string_of_nat n = [digit_char n]"
  by (subst string_of_nat.simps) simp

lemma string_of_nat_small [simp]:
  "string_of_nat 0 = ''0''" "string_of_nat 1 = ''1''" "string_of_nat 2 = ''2''"
  "string_of_nat 3 = ''3''" "string_of_nat 14 = ''14''" "string_of_nat (Suc 0) = ''1''"
  by code_simp+

subsection \<open>Some digests, computed\<close>

text \<open>
  The third one is the class name the repository's test \<^verbatim>\<open>classPrefix setting\<close> expects for
  \<^verbatim>\<open>basicClass\<close> in \<^verbatim>\<open>test/fixtures/basic.input.ts\<close> (\<^verbatim>\<open>custom_90f511d6\<close>).
\<close>

lemma replicate_numeral_unfold: "replicate (numeral k) x = x # replicate (pred_numeral k) x"
  by (simp add: numeral_eq_Suc)

lemma upt_64:
  "[0..<64] =
     [0, 1, 2, 3, 4, 5, 6, 7, 8, 9, 10, 11, 12, 13, 14, 15] @
     [16, 17, 18, 19, 20, 21, 22, 23, 24, 25, 26, 27, 28, 29, 30, 31] @
     [32, 33, 34, 35, 36, 37, 38, 39, 40, 41, 42, 43, 44, 45, 46, 47] @
     [48, 49, 50, 51, 52, 53, 54, 55, 56, 57, 58, 59, 60, 61, 62, 63]"
  by code_simp

lemma hash_a3_words:
  "md5_blocks (md5_words (md5_pad (utf8 (''src/a.ts:3:v3226246'')))) =
     [[795046515, 1936993889, 1983525690, 909259315, 2151035954, 0, 0, 0, 0, 0, 0, 0, 0, 0,
       152, 0]]"
  by (simp add: md5_pad_def utf8_def md5_blocks.simps replicate_numeral_unfold)

lemma hash_a3_r0:
  "fold (md5_step
      [795046515, 1936993889, 1983525690, 909259315, 2151035954, 0, 0, 0, 0, 0, 0, 0, 0, 0,
       152, 0])
     [0, 1, 2, 3, 4, 5, 6, 7, 8, 9, 10, 11, 12, 13, 14, 15]
     (1732584193, 4023233417, 2562383102, 271733878) =
   (1252257350, 1969095603, 1119686513, 1229414123)"
  by (simp add: rotl32_def md5_K_def md5_s_def md5_f_def md5_g_def)

lemma hash_a3_r1:
  "fold (md5_step
      [795046515, 1936993889, 1983525690, 909259315, 2151035954, 0, 0, 0, 0, 0, 0, 0, 0, 0,
       152, 0])
     [16, 17, 18, 19, 20, 21, 22, 23, 24, 25, 26, 27, 28, 29, 30, 31]
     (1252257350, 1969095603, 1119686513, 1229414123) =
   (3740724655, 2061895234, 1687185980, 3066109145)"
  by (simp add: rotl32_def md5_K_def md5_s_def md5_f_def md5_g_def)

lemma hash_a3_r2:
  "fold (md5_step
      [795046515, 1936993889, 1983525690, 909259315, 2151035954, 0, 0, 0, 0, 0, 0, 0, 0, 0,
       152, 0])
     [32, 33, 34, 35, 36, 37, 38, 39, 40, 41, 42, 43, 44, 45, 46, 47]
     (3740724655, 2061895234, 1687185980, 3066109145) =
   (324651722, 2314254662, 2983609804, 118959221)"
  by (simp add: rotl32_def md5_K_def md5_s_def md5_f_def md5_g_def)

lemma hash_a3_r3:
  "fold (md5_step
      [795046515, 1936993889, 1983525690, 909259315, 2151035954, 0, 0, 0, 0, 0, 0, 0, 0, 0,
       152, 0])
     [48, 49, 50, 51, 52, 53, 54, 55, 56, 57, 58, 59, 60, 61, 62, 63]
     (324651722, 2314254662, 2983609804, 118959221) =
   (75120248, 3358389026, 1809182742, 2848818557)"
  by (simp add: rotl32_def md5_K_def md5_s_def md5_f_def md5_g_def)

lemma hash_a3_rounds:
  "md5_rounds
      [795046515, 1936993889, 1983525690, 909259315, 2151035954, 0, 0, 0, 0, 0, 0, 0, 0, 0,
       152, 0] md5_init =
   (75120248, 3358389026, 1809182742, 2848818557)"
  unfolding md5_rounds_def upt_64 md5_init_def
  using hash_a3_r0 hash_a3_r1 hash_a3_r2 hash_a3_r3 by (simp only: fold_append comp_apply)

lemma hash_a3_hash:
  "hashText (''src/a.ts:3:v3226246'') = ''7961bf6b''"
  unfolding hashText_def md5_hex_def md5_def hash_a3_words
  by (simp add: md5_block_def hash_a3_rounds hex_word_def hex_byte_def hex_digit_def)
     (simp add: md5_init_def hex_word_def hex_byte_def hex_digit_def)

lemma hash_a14_words:
  "md5_blocks (md5_words (md5_pad (utf8 (''src/a.ts:14:v3226246'')))) =
     [[795046515, 1936993889, 976499002, 842150774, 909390390, 128, 0, 0, 0, 0, 0, 0, 0, 0,
       160, 0]]"
  by (simp add: md5_pad_def utf8_def md5_blocks.simps replicate_numeral_unfold)

lemma hash_a14_r0:
  "fold (md5_step
      [795046515, 1936993889, 976499002, 842150774, 909390390, 128, 0, 0, 0, 0, 0, 0, 0, 0,
       160, 0])
     [0, 1, 2, 3, 4, 5, 6, 7, 8, 9, 10, 11, 12, 13, 14, 15]
     (1732584193, 4023233417, 2562383102, 271733878) =
   (3495575290, 916506503, 228709654, 1455462860)"
  by (simp add: rotl32_def md5_K_def md5_s_def md5_f_def md5_g_def)

lemma hash_a14_r1:
  "fold (md5_step
      [795046515, 1936993889, 976499002, 842150774, 909390390, 128, 0, 0, 0, 0, 0, 0, 0, 0,
       160, 0])
     [16, 17, 18, 19, 20, 21, 22, 23, 24, 25, 26, 27, 28, 29, 30, 31]
     (3495575290, 916506503, 228709654, 1455462860) =
   (1318336045, 108084825, 1122196287, 412008024)"
  by (simp add: rotl32_def md5_K_def md5_s_def md5_f_def md5_g_def)

lemma hash_a14_r2:
  "fold (md5_step
      [795046515, 1936993889, 976499002, 842150774, 909390390, 128, 0, 0, 0, 0, 0, 0, 0, 0,
       160, 0])
     [32, 33, 34, 35, 36, 37, 38, 39, 40, 41, 42, 43, 44, 45, 46, 47]
     (1318336045, 108084825, 1122196287, 412008024) =
   (1659278276, 484736839, 4007693509, 810265754)"
  by (simp add: rotl32_def md5_K_def md5_s_def md5_f_def md5_g_def)

lemma hash_a14_r3:
  "fold (md5_step
      [795046515, 1936993889, 976499002, 842150774, 909390390, 128, 0, 0, 0, 0, 0, 0, 0, 0,
       160, 0])
     [48, 49, 50, 51, 52, 53, 54, 55, 56, 57, 58, 59, 60, 61, 62, 63]
     (1659278276, 484736839, 4007693509, 810265754) =
   (75120248, 3561441397, 2683530161, 3447257595)"
  by (simp add: rotl32_def md5_K_def md5_s_def md5_f_def md5_g_def)

lemma hash_a14_rounds:
  "md5_rounds
      [795046515, 1936993889, 976499002, 842150774, 909390390, 128, 0, 0, 0, 0, 0, 0, 0, 0,
       160, 0] md5_init =
   (75120248, 3561441397, 2683530161, 3447257595)"
  unfolding md5_rounds_def upt_64 md5_init_def
  using hash_a14_r0 hash_a14_r1 hash_a14_r2 hash_a14_r3 by (simp only: fold_append comp_apply)

lemma hash_a14_hash:
  "hashText (''src/a.ts:14:v3226246'') = ''7961bf6b''"
  unfolding hashText_def md5_hex_def md5_def hash_a14_words
  by (simp add: md5_block_def hash_a14_rounds hex_word_def hex_byte_def hex_digit_def)
     (simp add: md5_init_def hex_word_def hex_byte_def hex_digit_def)

lemma hash_basic_words:
  "md5_blocks (md5_words (md5_pad (utf8 (''test/fixtures/basic.input.ts:0:basicClass'')))) =
     [[1953719668, 2020173359, 1701999988, 1633824627, 778266995, 1970302569, 1936993908,
       1647980602, 1667855201, 1935764547, 32883, 0, 0, 0, 328, 0]]"
  by (simp add: md5_pad_def utf8_def md5_blocks.simps replicate_numeral_unfold)

lemma hash_basic_r0:
  "fold (md5_step
      [1953719668, 2020173359, 1701999988, 1633824627, 778266995, 1970302569, 1936993908,
       1647980602, 1667855201, 1935764547, 32883, 0, 0, 0, 328, 0])
     [0, 1, 2, 3, 4, 5, 6, 7, 8, 9, 10, 11, 12, 13, 14, 15]
     (1732584193, 4023233417, 2562383102, 271733878) =
   (1154727162, 2133334487, 703546150, 2390636170)"
  by (simp add: rotl32_def md5_K_def md5_s_def md5_f_def md5_g_def)

lemma hash_basic_r1:
  "fold (md5_step
      [1953719668, 2020173359, 1701999988, 1633824627, 778266995, 1970302569, 1936993908,
       1647980602, 1667855201, 1935764547, 32883, 0, 0, 0, 328, 0])
     [16, 17, 18, 19, 20, 21, 22, 23, 24, 25, 26, 27, 28, 29, 30, 31]
     (1154727162, 2133334487, 703546150, 2390636170) =
   (3729666036, 195994605, 340713246, 2708834362)"
  by (simp add: rotl32_def md5_K_def md5_s_def md5_f_def md5_g_def)

lemma hash_basic_r2:
  "fold (md5_step
      [1953719668, 2020173359, 1701999988, 1633824627, 778266995, 1970302569, 1936993908,
       1647980602, 1667855201, 1935764547, 32883, 0, 0, 0, 328, 0])
     [32, 33, 34, 35, 36, 37, 38, 39, 40, 41, 42, 43, 44, 45, 46, 47]
     (3729666036, 195994605, 340713246, 2708834362) =
   (2440219491, 1904976168, 1554939932, 3742437868)"
  by (simp add: rotl32_def md5_K_def md5_s_def md5_f_def md5_g_def)

lemma hash_basic_r3:
  "fold (md5_step
      [1953719668, 2020173359, 1701999988, 1633824627, 778266995, 1970302569, 1936993908,
       1647980602, 1667855201, 1935764547, 32883, 0, 0, 0, 328, 0])
     [48, 49, 50, 51, 52, 53, 54, 55, 56, 57, 58, 59, 60, 61, 62, 63]
     (2440219491, 1904976168, 1554939932, 3742437868) =
   (1858917007, 1015491804, 2415777279, 1773009386)"
  by (simp add: rotl32_def md5_K_def md5_s_def md5_f_def md5_g_def)

lemma hash_basic_rounds:
  "md5_rounds
      [1953719668, 2020173359, 1701999988, 1633824627, 778266995, 1970302569, 1936993908,
       1647980602, 1667855201, 1935764547, 32883, 0, 0, 0, 328, 0] md5_init =
   (1858917007, 1015491804, 2415777279, 1773009386)"
  unfolding md5_rounds_def upt_64 md5_init_def
  using hash_basic_r0 hash_basic_r1 hash_basic_r2 hash_basic_r3 by (simp only: fold_append comp_apply)

lemma hash_basic_hash:
  "hashText (''test/fixtures/basic.input.ts:0:basicClass'') = ''90f511d6''"
  unfolding hashText_def md5_hex_def md5_def hash_basic_words
  by (simp add: md5_block_def hash_basic_rounds hex_word_def hex_byte_def hex_digit_def)
     (simp add: md5_init_def hex_word_def hex_byte_def hex_digit_def)

lemma hash_one_words:
  "md5_blocks (md5_words (md5_pad (utf8 (''one.ts:0:a'')))) =
     [[778399343, 809137012, 8413498, 0, 0, 0, 0, 0, 0, 0, 0, 0, 0, 0, 80, 0]]"
  by (simp add: md5_pad_def utf8_def md5_blocks.simps replicate_numeral_unfold)

lemma hash_one_r0:
  "fold (md5_step
      [778399343, 809137012, 8413498, 0, 0, 0, 0, 0, 0, 0, 0, 0, 0, 0, 80, 0])
     [0, 1, 2, 3, 4, 5, 6, 7, 8, 9, 10, 11, 12, 13, 14, 15]
     (1732584193, 4023233417, 2562383102, 271733878) =
   (1899420893, 4029221202, 606898593, 725068926)"
  by (simp add: rotl32_def md5_K_def md5_s_def md5_f_def md5_g_def)

lemma hash_one_r1:
  "fold (md5_step
      [778399343, 809137012, 8413498, 0, 0, 0, 0, 0, 0, 0, 0, 0, 0, 0, 80, 0])
     [16, 17, 18, 19, 20, 21, 22, 23, 24, 25, 26, 27, 28, 29, 30, 31]
     (1899420893, 4029221202, 606898593, 725068926) =
   (1829166894, 529852518, 1477640565, 989246671)"
  by (simp add: rotl32_def md5_K_def md5_s_def md5_f_def md5_g_def)

lemma hash_one_r2:
  "fold (md5_step
      [778399343, 809137012, 8413498, 0, 0, 0, 0, 0, 0, 0, 0, 0, 0, 0, 80, 0])
     [32, 33, 34, 35, 36, 37, 38, 39, 40, 41, 42, 43, 44, 45, 46, 47]
     (1829166894, 529852518, 1477640565, 989246671) =
   (2986254669, 3457543203, 3878655100, 758588149)"
  by (simp add: rotl32_def md5_K_def md5_s_def md5_f_def md5_g_def)

lemma hash_one_r3:
  "fold (md5_step
      [778399343, 809137012, 8413498, 0, 0, 0, 0, 0, 0, 0, 0, 0, 0, 0, 80, 0])
     [48, 49, 50, 51, 52, 53, 54, 55, 56, 57, 58, 59, 60, 61, 62, 63]
     (2986254669, 3457543203, 3878655100, 758588149) =
   (217643700, 2199159250, 2323232480, 1893356191)"
  by (simp add: rotl32_def md5_K_def md5_s_def md5_f_def md5_g_def)

lemma hash_one_rounds:
  "md5_rounds
      [778399343, 809137012, 8413498, 0, 0, 0, 0, 0, 0, 0, 0, 0, 0, 0, 80, 0] md5_init =
   (217643700, 2199159250, 2323232480, 1893356191)"
  unfolding md5_rounds_def upt_64 md5_init_def
  using hash_one_r0 hash_one_r1 hash_one_r2 hash_one_r3 by (simp only: fold_append comp_apply)

lemma hash_one_hash:
  "hashText (''one.ts:0:a'') = ''b51d3e74''"
  unfolding hashText_def md5_hex_def md5_def hash_one_words
  by (simp add: md5_block_def hash_one_rounds hex_word_def hex_byte_def hex_digit_def)
     (simp add: md5_init_def hex_word_def hex_byte_def hex_digit_def)

lemma hash_one_css_words:
  "md5_blocks (md5_words (md5_pad (utf8 (''.css-b51d3e74 {'' @ [CHR 0x0A] @ ''  color: red;'' @ [CHR 0x0A] @ ''}'')))) =
     [[1936941870, 825582125, 929379172, 175841332, 1868767264, 980578156, 1684369952,
       2155678267, 0, 0, 0, 0, 0, 0, 248, 0]]"
  by (simp add: md5_pad_def utf8_def md5_blocks.simps replicate_numeral_unfold)

lemma hash_one_css_r0:
  "fold (md5_step
      [1936941870, 825582125, 929379172, 175841332, 1868767264, 980578156, 1684369952,
       2155678267, 0, 0, 0, 0, 0, 0, 248, 0])
     [0, 1, 2, 3, 4, 5, 6, 7, 8, 9, 10, 11, 12, 13, 14, 15]
     (1732584193, 4023233417, 2562383102, 271733878) =
   (3829668980, 3959009984, 213591106, 2905028573)"
  by (simp add: rotl32_def md5_K_def md5_s_def md5_f_def md5_g_def)

lemma hash_one_css_r1:
  "fold (md5_step
      [1936941870, 825582125, 929379172, 175841332, 1868767264, 980578156, 1684369952,
       2155678267, 0, 0, 0, 0, 0, 0, 248, 0])
     [16, 17, 18, 19, 20, 21, 22, 23, 24, 25, 26, 27, 28, 29, 30, 31]
     (3829668980, 3959009984, 213591106, 2905028573) =
   (1854182800, 1251205740, 2132781376, 4059811933)"
  by (simp add: rotl32_def md5_K_def md5_s_def md5_f_def md5_g_def)

lemma hash_one_css_r2:
  "fold (md5_step
      [1936941870, 825582125, 929379172, 175841332, 1868767264, 980578156, 1684369952,
       2155678267, 0, 0, 0, 0, 0, 0, 248, 0])
     [32, 33, 34, 35, 36, 37, 38, 39, 40, 41, 42, 43, 44, 45, 46, 47]
     (1854182800, 1251205740, 2132781376, 4059811933) =
   (2680552982, 1839524988, 613279530, 1143000941)"
  by (simp add: rotl32_def md5_K_def md5_s_def md5_f_def md5_g_def)

lemma hash_one_css_r3:
  "fold (md5_step
      [1936941870, 825582125, 929379172, 175841332, 1868767264, 980578156, 1684369952,
       2155678267, 0, 0, 0, 0, 0, 0, 248, 0])
     [48, 49, 50, 51, 52, 53, 54, 55, 56, 57, 58, 59, 60, 61, 62, 63]
     (2680552982, 1839524988, 613279530, 1143000941) =
   (1510432008, 3105175221, 1216742851, 1654884097)"
  by (simp add: rotl32_def md5_K_def md5_s_def md5_f_def md5_g_def)

lemma hash_one_css_rounds:
  "md5_rounds
      [1936941870, 825582125, 929379172, 175841332, 1868767264, 980578156, 1684369952,
       2155678267, 0, 0, 0, 0, 0, 0, 248, 0] md5_init =
   (1510432008, 3105175221, 1216742851, 1654884097)"
  unfolding md5_rounds_def upt_64 md5_init_def
  using hash_one_css_r0 hash_one_css_r1 hash_one_css_r2 hash_one_css_r3 by (simp only: fold_append comp_apply)

lemma hash_one_css_hash:
  "hashText (''.css-b51d3e74 {'' @ [CHR 0x0A] @ ''  color: red;'' @ [CHR 0x0A] @ ''}'') = ''09804cc1''"
  unfolding hashText_def md5_hex_def md5_def hash_one_css_words
  by (simp add: md5_block_def hash_one_css_rounds hex_word_def hex_byte_def hex_digit_def)
     (simp add: md5_init_def hex_word_def hex_byte_def hex_digit_def)








lemma hash_empty_words:
  "md5_blocks (md5_words (md5_pad (utf8 (''empty.ts:0:e'')))) =
     [[1953525093, 1936993913, 1698312250, 128, 0, 0, 0, 0, 0, 0, 0, 0, 0, 0, 96, 0]]"
  by (simp add: md5_pad_def utf8_def md5_blocks.simps replicate_numeral_unfold)

lemma hash_empty_r0:
  "fold (md5_step
      [1953525093, 1936993913, 1698312250, 128, 0, 0, 0, 0, 0, 0, 0, 0, 0, 0, 96, 0])
     [0, 1, 2, 3, 4, 5, 6, 7, 8, 9, 10, 11, 12, 13, 14, 15]
     (1732584193, 4023233417, 2562383102, 271733878) =
   (268216376, 3844352253, 4043379254, 2253513072)"
  by (simp add: rotl32_def md5_K_def md5_s_def md5_f_def md5_g_def)

lemma hash_empty_r1:
  "fold (md5_step
      [1953525093, 1936993913, 1698312250, 128, 0, 0, 0, 0, 0, 0, 0, 0, 0, 0, 96, 0])
     [16, 17, 18, 19, 20, 21, 22, 23, 24, 25, 26, 27, 28, 29, 30, 31]
     (268216376, 3844352253, 4043379254, 2253513072) =
   (897258130, 221948188, 3960533614, 2225541162)"
  by (simp add: rotl32_def md5_K_def md5_s_def md5_f_def md5_g_def)

lemma hash_empty_r2:
  "fold (md5_step
      [1953525093, 1936993913, 1698312250, 128, 0, 0, 0, 0, 0, 0, 0, 0, 0, 0, 96, 0])
     [32, 33, 34, 35, 36, 37, 38, 39, 40, 41, 42, 43, 44, 45, 46, 47]
     (897258130, 221948188, 3960533614, 2225541162) =
   (1613783490, 1681301587, 154366516, 2403395789)"
  by (simp add: rotl32_def md5_K_def md5_s_def md5_f_def md5_g_def)

lemma hash_empty_r3:
  "fold (md5_step
      [1953525093, 1936993913, 1698312250, 128, 0, 0, 0, 0, 0, 0, 0, 0, 0, 0, 96, 0])
     [48, 49, 50, 51, 52, 53, 54, 55, 56, 57, 58, 59, 60, 61, 62, 63]
     (1613783490, 1681301587, 154366516, 2403395789) =
   (3896084336, 2214841, 671230929, 2850566644)"
  by (simp add: rotl32_def md5_K_def md5_s_def md5_f_def md5_g_def)

lemma hash_empty_rounds:
  "md5_rounds
      [1953525093, 1936993913, 1698312250, 128, 0, 0, 0, 0, 0, 0, 0, 0, 0, 0, 96, 0] md5_init =
   (3896084336, 2214841, 671230929, 2850566644)"
  unfolding md5_rounds_def upt_64 md5_init_def
  using hash_empty_r0 hash_empty_r1 hash_empty_r2 hash_empty_r3 by (simp only: fold_append comp_apply)

lemma hash_empty_hash:
  "hashText (''empty.ts:0:e'') = ''71aa7e4f''"
  unfolding hashText_def md5_hex_def md5_def hash_empty_words
  by (simp add: md5_block_def hash_empty_rounds hex_word_def hex_byte_def hex_digit_def)
     (simp add: md5_init_def hex_word_def hex_byte_def hex_digit_def)

section \<open>Properties of the cache\<close>

lemma parseFile_text:
  "parseFile pfx h c filePath (Some text) =
     Inr (analyseFile pfx h filePath text, c(filePath \<mapsto> analyseFile pfx h filePath text))"
  by (simp add: parseFile_def Let_def split: option.splits)

lemma parseFile_hit:
  "c filePath = Some cached \<Longrightarrow> parseFile pfx h c filePath None = Inr (cached, c)"
  by (simp add: parseFile_def)

lemma parseFile_miss:
  "c filePath = None \<Longrightarrow>
   parseFile pfx h c filePath None =
     (case readFile h filePath of
        None \<Rightarrow> Inl (ReadFileError filePath)
      | Some text \<Rightarrow>
          Inr (analyseFile pfx h filePath text, c(filePath \<mapsto> analyseFile pfx h filePath text)))"
  by (simp add: parseFile_def Let_def split: option.splits)

lemma parseFile_lookup_mono:
  "parseFile pfx h c filePath None = Inr (info, c') \<Longrightarrow> c \<subseteq>\<^sub>m c'"
  by (cases "c filePath")
     (auto simp: parseFile_miss parseFile_hit map_le_def split: option.splits)

lemma resolveValue_mono:
  "resolveValue pfx h filePath info c x = Inr (v, c') \<Longrightarrow> c \<subseteq>\<^sub>m c'"
  by (auto simp: resolveValue_def split: option.splits sum.splits prod.splits
      dest: parseFile_lookup_mono)

lemma interpolate_mono:
  "interpolate pfx h filePath info c qs es acc = Inr (v, c') \<Longrightarrow> c \<subseteq>\<^sub>m c'"
proof (induction pfx h filePath info c qs es acc arbitrary: v c' rule: interpolate.induct)
  case (3 pfx h filePath info c q qs identifierName es cssContent)
  from "3.prems" obtain rv c1 where
    r: "resolveValue pfx h filePath info c identifierName = Inr (rv, c1)"
    by (auto split: sum.splits)
  have le: "c \<subseteq>\<^sub>m c1" using r by (rule resolveValue_mono)
  show ?case
  proof (cases rv)
    case None
    then show ?thesis using "3.prems" r le by simp
  next
    case (Some resolvedValue)
    then have "interpolate pfx h filePath info c1 qs es (cssContent @ q @ resolvedValue) = Inr (v, c')"
      using "3.prems" r by simp
    then have "c1 \<subseteq>\<^sub>m c'" using "3.IH" r Some by blast
    then show ?thesis using le by (rule map_le_trans [rotated])
  qed
qed simp_all

lemma pass2_mono:
  "pass2 pfx h filePath info c ds acc = Inr (acc', c') \<Longrightarrow> c \<subseteq>\<^sub>m c'"
proof (induction ds arbitrary: c acc)
  case Nil
  then show ?case by simp
next
  case (Cons d ds)
  show ?case
  proof (cases "hasInterpolations d")
    case False
    then show ?thesis using Cons by simp
  next
    case True
    from Cons.prems True obtain r c1 where
      i: "interpolate pfx h filePath info c (quasis (node d)) (expressions (node d)) [] = Inr (r, c1)"
      by (auto split: sum.splits)
    have le: "c \<subseteq>\<^sub>m c1" using i by (rule interpolate_mono)
    have "c1 \<subseteq>\<^sub>m c'"
    proof (cases r)
      case None
      then have "pass2 pfx h filePath info c1 ds acc = Inr (acc', c')"
        using Cons.prems True i by simp
      then show ?thesis by (rule Cons.IH)
    next
      case (Some s)
      then have "pass2 pfx h filePath info c1 ds (addProcessedDeclaration d s acc) = Inr (acc', c')"
        using Cons.prems True i by simp
      then show ?thesis by (rule Cons.IH)
    qed
    then show ?thesis using le by (rule map_le_trans [rotated])
  qed
qed

lemma extract_cache:
  assumes "extractCssFromCode pfx h c code filePath = Inr (r, c')"
  shows "c' filePath = Some (analyseFile pfx h filePath code)"
    and "p \<noteq> filePath \<Longrightarrow> c p = Some info \<Longrightarrow> c' p = Some info"
proof -
  let ?info = "analyseFile pfx h filePath code"
  let ?c1 = "c(filePath \<mapsto> ?info)"
  from assms obtain acc where
    "pass2 pfx h filePath ?info ?c1 (declarations ?info) (pass1 (declarations ?info) ([], [])) = Inr (acc, c')"
    by (auto simp: extractCssFromCode_def parseFile_text split: sum.splits)
  then have le: "?c1 \<subseteq>\<^sub>m c'" by (rule pass2_mono)
  show "c' filePath = Some ?info"
    using le by (auto simp: map_le_def dom_def)
  show "p \<noteq> filePath \<Longrightarrow> c p = Some info \<Longrightarrow> c' p = Some info"
    using le by (force simp: map_le_def dom_def)
qed

section \<open>Properties of the export map\<close>

lemma ran_upd_cases: "v \<in> ran (m(k \<mapsto> w)) \<Longrightarrow> v = w \<or> v \<in> ran m"
  by (auto simp: ran_def split: if_splits)

lemma recordExport_ran:
  "v \<in> ran (recordExport e m) \<Longrightarrow>
   v \<in> ran m \<or> (export_importName e = ExportImportNone \<and> export_exportName e = ExportExportName v)"
  by (auto simp: recordExport_def split: export_import_name.splits export_export_name.splits
      export_local_name.splits dest: ran_upd_cases)

lemma fold_recordExport_ran:
  "v \<in> ran (fold recordExport es m) \<Longrightarrow>
   v \<in> ran m \<or> (\<exists>e \<in> set es. export_importName e = ExportImportNone
            \<and> export_exportName e = ExportExportName v)"
proof (induction es arbitrary: m)
  case Nil
  then show ?case by simp
next
  case (Cons e es)
  from Cons.prems have "v \<in> ran (fold recordExport es (recordExport e m))" by simp
  then have "v \<in> ran (recordExport e m) \<or> (\<exists>e \<in> set es. export_importName e = ExportImportNone
            \<and> export_exportName e = ExportExportName v)"
    by (rule Cons.IH)
  then show ?case using recordExport_ran [of v e m] by auto
qed

lemma collectExports_outer:
  "v \<in> ran (fold (\<lambda>staticExport. fold recordExport (export_entries staticExport)) exps m0) \<Longrightarrow>
   v \<in> ran m0 \<or> (\<exists>se \<in> set exps. \<exists>e \<in> set (export_entries se).
            export_importName e = ExportImportNone \<and> export_exportName e = ExportExportName v)"
proof (induction exps arbitrary: m0)
  case Nil
  then show ?case by simp
next
  case (Cons se exps)
  from Cons.prems
  have "v \<in> ran (fold (\<lambda>staticExport. fold recordExport (export_entries staticExport)) exps
                    (fold recordExport (export_entries se) m0))" by simp
  then have "v \<in> ran (fold recordExport (export_entries se) m0)
      \<or> (\<exists>se \<in> set exps. \<exists>e \<in> set (export_entries se).
            export_importName e = ExportImportNone \<and> export_exportName e = ExportExportName v)"
    by (rule Cons.IH)
  then show ?case using fold_recordExport_ran [of v "export_entries se" m0] by auto
qed

lemma collectExports_ran:
  "v \<in> ran (collectExports exps) \<Longrightarrow>
   \<exists>se \<in> set exps. \<exists>e \<in> set (export_entries se).
      export_importName e = ExportImportNone \<and> export_exportName e = ExportExportName v"
  unfolding collectExports_def by (drule collectExports_outer) simp

lemma record_exports:
  "dom (exportNameToValueMap (recordIdentifierWithValue sc x v st))
     \<subseteq> dom (exportNameToValueMap st) \<union> ran (localNameToExportedNameMap sc)"
  by (auto simp: recordIdentifierWithValue_def Let_def ran_def split: option.splits if_splits)

lemma handle_exports:
  "dom (exportNameToValueMap (handleTaggedTemplateExpression sc ln t st))
     \<subseteq> dom (exportNameToValueMap st) \<union> ran (localNameToExportedNameMap sc)"
proof (cases "is_css_tagged t")
  case False
  then show ?thesis by (simp add: handleTaggedTemplateExpression_def)
next
  case True
  show ?thesis
  proof (cases ln)
    case None
    then show ?thesis using True by (simp add: handleTaggedTemplateExpression_def Let_def)
  next
    case (Some x)
    show ?thesis
      using True Some
        record_exports [of sc x "generateClassName (classPrefix sc) (relativePath sc) (length (declarations st)) ln"
          "st\<lparr>declarations := declarations st @
                    [\<lparr>className = generateClassName (classPrefix sc) (relativePath sc) (length (declarations st)) ln,
                      node = t, hasInterpolations = (expressions t \<noteq> [])\<rparr>]\<rparr>"]
      by (simp add: handleTaggedTemplateExpression_def Let_def)
  qed
qed

lemma onDeclarator_exports:
  "dom (exportNameToValueMap (onVariableDeclarator sc p i init st))
     \<subseteq> dom (exportNameToValueMap st) \<union> ran (localNameToExportedNameMap sc)"
proof (induction sc p i init st rule: onVariableDeclarator.induct)
  case (1 sc p localName tg q qs es s e st)
  show ?case
    using handle_exports [of sc "Some localName" "TaggedTemplateExpression tg q qs es s e"
        "st\<lparr>taggedTemplateExpressionFromVariableDeclarator :=
             (p @ [1]) # taggedTemplateExpressionFromVariableDeclarator st\<rparr>"]
    by simp
qed (simp_all add: record_exports)

lemma callback_exports:
  "dom (exportNameToValueMap (callback sc ev st))
     \<subseteq> dom (exportNameToValueMap st) \<union> ran (localNameToExportedNameMap sc)"
proof (cases ev)
  case (Pair p n)
  show ?thesis
  proof (cases n)
    case (TaggedTemplateExpression tg q qs es s e)
    show ?thesis
      using handle_exports [of sc None n st] Pair TaggedTemplateExpression
      by (simp add: onTaggedTemplateExpression_def)
  next
    case (VariableDeclarator i init)
    show ?thesis
      using onDeclarator_exports [of sc p i init st] Pair VariableDeclarator by simp
  qed (simp_all add: Pair)
qed

lemma fold_callback_exports:
  "dom (exportNameToValueMap (fold (callback sc) evs st))
     \<subseteq> dom (exportNameToValueMap st) \<union> ran (localNameToExportedNameMap sc)"
proof (induction evs arbitrary: st)
  case Nil
  then show ?case by simp
next
  case (Cons ev evs)
  show ?case using Cons.IH [of "callback sc ev st"] callback_exports [of sc ev st] by auto
qed

lemma analyse_exports:
  "dom (exportNameToValueMap (analyse pfx rel pr)) \<subseteq> ran (collectExports (staticExports pr))"
  using fold_callback_exports [of "\<lparr>classPrefix = pfx, relativePath = rel,
        localNameToExportedNameMap = collectExports (staticExports pr)\<rparr>"
        "visits [] (program pr)" "initial_state (collectImports (staticImports pr))"]
  by (simp add: analyse_def visit_def Let_def ParsedFileInfo.truncate_def initial_state_def)

lemma reexported_only_absent:
  assumes "reexported_only n pr"
  shows "exportNameToValueMap (analyse pfx rel pr) n = None"
proof (rule ccontr)
  assume "exportNameToValueMap (analyse pfx rel pr) n \<noteq> None"
  then have "n \<in> ran (collectExports (staticExports pr))"
    using analyse_exports [of pfx rel pr] by (auto simp: dom_def)
  then obtain se e where "se \<in> set (staticExports pr)" "e \<in> set (export_entries se)"
    "export_importName e = ExportImportNone" "export_exportName e = ExportExportName n"
    using collectExports_ran by blast
  then show False using assms by (auto simp: reexported_only_def list_all_iff)
qed

section \<open>The example files, analysed\<close>

lemmas example_defs =
  example_host_def example_parseSync_def code_one_def code_mixed_def code_nested_def code_empty_def
  code_unused_def code_b_def code_a_def code_shadow_def code_re_def code_c_def code_imp_def code_imps_def
  code_orphan_def

lemmas analysis_defs =
  analyseFile_def analyse_def visit_def initial_state_def collectImports_def collectExports_def
  recordImport_def recordExport_def Let_def ParsedFileInfo.truncate_def
  handleTaggedTemplateExpression_def recordIdentifierWithValue_def onTaggedTemplateExpression_def
  is_css_tagged_def generateClassName_def classNameKey_def string_of_name_def
  projectRelativePath_def example_defs

lemma info_b:
  "analyseFile ''css-'' example_host ''/proj/b.ts'' code_b =
     \<lparr>declarations =
        [\<lparr>className = ''css-'' @ hashText ''b.ts:0:red'',
          node = TaggedTemplateExpression (Identifier ''css'') ''color: '' ['';'']
                   [OtherNode [Identifier ''pick'']] 47 69,
          hasInterpolations = True\<rparr>],
      localIdentifiers = [''red'' \<mapsto> ''css-'' @ hashText ''b.ts:0:red''],
      importedIdentifiers = [''css'' \<mapsto> (''ecij'', ''css'')],
      exportNameToValueMap = [''red'' \<mapsto> ''css-'' @ hashText ''b.ts:0:red'']\<rparr>"
  by (simp add: analysis_defs parse_b_def)

lemma info_re:
  "analyseFile ''css-'' example_host ''/proj/re.ts'' code_re =
     \<lparr>declarations = [], localIdentifiers = Map.empty, importedIdentifiers = Map.empty,
      exportNameToValueMap = Map.empty\<rparr>"
  by (simp add: analysis_defs parse_re_def)

lemma info_c:
  "analyseFile ''css-'' example_host ''/proj/c.ts'' code_c =
     \<lparr>declarations = [], localIdentifiers = [''red'' \<mapsto> ''red''], importedIdentifiers = Map.empty,
      exportNameToValueMap = [''red'' \<mapsto> ''red'']\<rparr>"
  by (simp add: analysis_defs parse_c_def)

lemma info_imp:
  "analyseFile ''css-'' example_host ''/proj/imp.ts'' code_imp =
     \<lparr>declarations =
        [\<lparr>className = ''css-'' @ hashText ''imp.ts:0:x'',
          node = TaggedTemplateExpression (Identifier ''css'') ''color: '' ['';'']
                   [Identifier ''red''] 66 85,
          hasInterpolations = True\<rparr>],
      localIdentifiers = [''x'' \<mapsto> ''css-'' @ hashText ''imp.ts:0:x''],
      importedIdentifiers = [''css'' \<mapsto> (''ecij'', ''css''), ''red'' \<mapsto> (''./re'', ''red'')],
      exportNameToValueMap = Map.empty\<rparr>"
  by (simp add: analysis_defs parse_imp_def)

lemma info_one:
  "analyseFile ''css-'' example_host ''/proj/one.ts'' code_one =
     \<lparr>declarations =
        [\<lparr>className = ''css-b51d3e74'',
          node = TaggedTemplateExpression (Identifier ''css'') ''color: red;'' [] [] 38 54,
          hasInterpolations = False\<rparr>],
      localIdentifiers = [''a'' \<mapsto> ''css-b51d3e74''],
      importedIdentifiers = [''css'' \<mapsto> (''ecij'', ''css'')],
      exportNameToValueMap = Map.empty\<rparr>"
  by (simp add: analysis_defs parse_one_def hash_one_hash)

lemma info_empty:
  "analyseFile ''css-'' example_host ''/proj/empty.ts'' code_empty =
     \<lparr>declarations =
        [\<lparr>className = ''css-71aa7e4f'',
          node = TaggedTemplateExpression (Identifier ''css'') [] [] [] 38 43,
          hasInterpolations = False\<rparr>],
      localIdentifiers = [''e'' \<mapsto> ''css-71aa7e4f''],
      importedIdentifiers = [''css'' \<mapsto> (''ecij'', ''css'')],
      exportNameToValueMap = Map.empty\<rparr>"
  by (simp add: analysis_defs parse_empty_def hash_empty_hash)

lemma info_unused:
  "analyseFile ''css-'' example_host ''/proj/unused.ts'' code_unused =
     \<lparr>declarations = [],
      localIdentifiers = [''x'' \<mapsto> ''1''],
      importedIdentifiers = [''css'' \<mapsto> (''ecij'', ''css'')],
      exportNameToValueMap = Map.empty\<rparr>"
  by (simp add: analysis_defs parse_unused_def)



lemma includes_one: "string_includes code_one ''ecij''"
  by (simp add: code_one_def)

lemma outcomes_one:
  "outcomes ''css-'' example_host ''/proj/one.ts''
     (analyseFile ''css-'' example_host ''/proj/one.ts'' code_one)
     [''/proj/one.ts'' \<mapsto> analyseFile ''css-'' example_host ''/proj/one.ts'' code_one]
     (declarations (analyseFile ''css-'' example_host ''/proj/one.ts'' code_one))
   = Inr ([(declarations (analyseFile ''css-'' example_host ''/proj/one.ts'' code_one) ! 0,
            Some ''color: red;'')],
          [''/proj/one.ts'' \<mapsto> analyseFile ''css-'' example_host ''/proj/one.ts'' code_one])"
  by (simp add: info_one)

lemma assemble_one:
  "assemble code_one (declarations (analyseFile ''css-'' example_host ''/proj/one.ts'' code_one))
     (collected_of (resolved
        [(declarations (analyseFile ''css-'' example_host ''/proj/one.ts'' code_one) ! 0,
          Some ''color: red;'')]))
   = \<lparr>transformedCode =
        ''import { css } from '' @ [CHR 0x27] @ ''ecij'' @ [CHR 0x27] @ '';'' @ [CHR 0x0A] @
        ''const a = '' @ [CHR 0x27] @ ''css-b51d3e74'' @ [CHR 0x27] @ '';'' @ [CHR 0x0A],
      hasExtractions = True,
      cssContent = ''.css-b51d3e74 {'' @ [CHR 0x0A] @ ''  color: red;'' @ [CHR 0x0A] @ ''}'',
      hasUnprocessedCssBlocks = False\<rparr>"
  unfolding info_one
  by (simp add: assemble_def collected_of_def resolved_def extraction_of_def
      replacement_of_def applyReplacements_def sortReplacements_def splice_def quoted_def
      cssBlocks_def renderBlock_def trim_def is_space_def code_one_def)


lemmas hash_one_css_norm = hash_one_css_hash [simplified]

lemmas matcher_defs =
  match_import_def literally_def spaces1_def spaces0_def quote_mark_def optional_semicolon_def
  is_space_def

lemmas assemble_defs =
  assemble_def collected_of_def resolved_def extraction_of_def replacement_of_def
  applyReplacements_def sortReplacements_def splice_def quoted_def cssBlocks_def renderBlock_def
  trim_def is_space_def



lemma outcomes_empty:
  "outcomes ''css-'' example_host ''/proj/empty.ts''
     (analyseFile ''css-'' example_host ''/proj/empty.ts'' code_empty)
     [''/proj/empty.ts'' \<mapsto> analyseFile ''css-'' example_host ''/proj/empty.ts'' code_empty]
     (declarations (analyseFile ''css-'' example_host ''/proj/empty.ts'' code_empty))
   = Inr ([(declarations (analyseFile ''css-'' example_host ''/proj/empty.ts'' code_empty) ! 0,
            Some [])],
          [''/proj/empty.ts'' \<mapsto> analyseFile ''css-'' example_host ''/proj/empty.ts'' code_empty])"
  by (simp add: info_empty)

lemma info_shadow:
  "analyseFile ''css-'' example_host ''/proj/shadow.ts'' code_shadow =
     \<lparr>declarations =
        [\<lparr>className = ''css-'' @ hashText ''shadow.ts:0:a'',
          node = TaggedTemplateExpression (Identifier ''css'') ''color: '' ['';'']
                   [OtherNode [Identifier ''pick'']] 45 67,
          hasInterpolations = True\<rparr>],
      localIdentifiers = [''a'' \<mapsto> ''red''],
      importedIdentifiers = [''css'' \<mapsto> (''ecij'', ''css'')],
      exportNameToValueMap = [''a'' \<mapsto> ''red'']\<rparr>"
  by (simp add: analysis_defs parse_shadow_def)

lemma info_imps:
  "analyseFile ''css-'' example_host ''/proj/imps.ts'' code_imps =
     \<lparr>declarations =
        [\<lparr>className = ''css-'' @ hashText ''imps.ts:0:y'',
          node = TaggedTemplateExpression (Identifier ''css'') ''&.'' ['' {}'']
                   [Identifier ''a''] 68 82,
          hasInterpolations = True\<rparr>],
      localIdentifiers = [''y'' \<mapsto> ''css-'' @ hashText ''imps.ts:0:y''],
      importedIdentifiers = [''css'' \<mapsto> (''ecij'', ''css''), ''a'' \<mapsto> (''./shadow'', ''a'')],
      exportNameToValueMap = Map.empty\<rparr>"
  by (simp add: analysis_defs parse_imps_def)

lemma info_a:
  "analyseFile ''css-'' example_host ''/proj/a.ts'' code_a =
     \<lparr>declarations =
        [\<lparr>className = ''css-'' @ hashText ''a.ts:0:a'',
          node = TaggedTemplateExpression (Identifier ''css'') ''&.'' ['' {}'']
                   [Identifier ''red''] 65 81,
          hasInterpolations = True\<rparr>],
      localIdentifiers = [''a'' \<mapsto> ''css-'' @ hashText ''a.ts:0:a''],
      importedIdentifiers = [''css'' \<mapsto> (''ecij'', ''css''), ''red'' \<mapsto> (''./b'', ''red'')],
      exportNameToValueMap = Map.empty\<rparr>"
  by (simp add: analysis_defs parse_a_def)




lemma walk_b:
  "visits [] (program (parseSync example_host ''/proj/b.ts'' code_b)) =
     [] @ ([1, 0, 0], VariableDeclarator (Identifier ''red'')
             (Some (TaggedTemplateExpression (Identifier ''css'') ''color: '' ['';'']
                      [OtherNode [Identifier ''pick'']] 47 69)))
        # [([1, 0, 0, 1], TaggedTemplateExpression (Identifier ''css'') ''color: '' ['';'']
                      [OtherNode [Identifier ''pick'']] 47 69)]"
  by (simp add: example_defs parse_b_def)

lemma scope_b:
  "localNameToExportedNameMap (scope_of ''css-'' example_host ''/proj/b.ts'' code_b) ''red'' = Some ''red''"
  by (simp add: scope_of_def example_defs parse_b_def collectExports_def recordExport_def)
section \<open>The two passes, per declaration\<close>

lemma pass1_collect:
  "pass1 ds (es, rs) =
     (es @ map extraction_of (map (\<lambda>d. (d, first_quasi (node d))) (filter (\<lambda>d. \<not> hasInterpolations d) ds)),
      rs @ map replacement_of (map (\<lambda>d. (d, first_quasi (node d))) (filter (\<lambda>d. \<not> hasInterpolations d) ds)))"
proof (induction ds arbitrary: es rs)
  case Nil
  then show ?case by (simp add: pass1_def)
next
  case (Cons d ds)
  then show ?case
    by (simp add: pass1_def addProcessedDeclaration_def extraction_of_def replacement_of_def)
qed

lemma pass2_collect:
  "pass2 pfx h filePath info c ds (es, rs) =
     (case outcomes pfx h filePath info c ds of
        Inl err \<Rightarrow> Inl err
      | Inr (os, c') \<Rightarrow>
          Inr ((es @ map extraction_of (contents (filter (\<lambda>(d, r). hasInterpolations d) os)),
                rs @ map replacement_of (contents (filter (\<lambda>(d, r). hasInterpolations d) os))), c'))"
proof (induction ds arbitrary: c es rs)
  case Nil
  then show ?case by simp
next
  case (Cons d ds)
  show ?case
  proof (cases "hasInterpolations d")
    case False
    then show ?thesis using Cons.IH [of c es rs]
      by (simp split: sum.splits prod.splits)
  next
    case True
    show ?thesis
    proof (cases "interpolate pfx h filePath info c (quasis (node d)) (expressions (node d)) []")
      case (Inl err)
      then show ?thesis using True by simp
    next
      case (Inr rc)
      obtain r c1 where rc: "rc = (r, c1)" by (cases rc)
      show ?thesis
      proof (cases r)
        case None
        then show ?thesis using True Inr rc Cons.IH [of c1 es rs]
          by (simp split: sum.splits prod.splits)
      next
        case (Some s)
        obtain es' rs' where a: "addProcessedDeclaration d s (es, rs) = (es', rs')"
          by (cases "addProcessedDeclaration d s (es, rs)")
        then have e: "es' = es @ [extraction_of (d, s)]" "rs' = rs @ [replacement_of (d, s)]"
          by (simp_all add: addProcessedDeclaration_def extraction_of_def replacement_of_def)
        show ?thesis using True Inr rc Some a Cons.IH [of c1 es' rs'] e
          by (simp split: sum.splits prod.splits)
      qed
    qed
  qed
qed

lemma outcomes_shape:
  "outcomes pfx h filePath info c ds = Inr (os, c') \<Longrightarrow>
   map fst os = ds
   \<and> contents (filter (\<lambda>(d, r). \<not> hasInterpolations d) os)
       = map (\<lambda>d. (d, first_quasi (node d))) (filter (\<lambda>d. \<not> hasInterpolations d) ds)"
proof (induction ds arbitrary: c os)
  case Nil
  then show ?case by simp
next
  case (Cons d ds)
  show ?case
  proof (cases "hasInterpolations d")
    case False
    from Cons.prems False obtain os1 where
      o: "outcomes pfx h filePath info c ds = Inr (os1, c')" and os: "os = (d, Some (first_quasi (node d))) # os1"
      by (auto split: sum.splits)
    show ?thesis using Cons.IH [OF o] os False by simp
  next
    case True
    from Cons.prems True obtain r c1 os1 where
      o: "outcomes pfx h filePath info c1 ds = Inr (os1, c')" and os: "os = (d, r) # os1"
      by (auto split: sum.splits)
    show ?thesis using Cons.IH [OF o] os True by simp
  qed
qed

lemma extract_outcomes:
  assumes "outcomes pfx h filePath (analyseFile pfx h filePath code)
             (c(filePath \<mapsto> analyseFile pfx h filePath code))
             (declarations (analyseFile pfx h filePath code)) = Inr (os, c')"
  shows "extractCssFromCode pfx h c code filePath =
           Inr (assemble code (declarations (analyseFile pfx h filePath code))
                  (collected_of (resolved os)), c')"
  using assms outcomes_shape [OF assms]
  by (simp add: extractCssFromCode_def parseFile_text pass1_collect pass2_collect collected_of_def
      resolved_def)

lemma contents_filter_length:
  "length (contents (filter P os)) + length (contents (filter (\<lambda>x. \<not> P x) os)) = length (contents os)"
  by (induction os rule: contents.induct) auto

lemma length_resolved: "length (resolved os) = length (contents os)"
  using contents_filter_length [of "\<lambda>(d, r). \<not> hasInterpolations d" os]
  by (simp add: resolved_def case_prod_unfold)

lemma length_contents_le: "length (contents os) \<le> length os"
  by (induction os rule: contents.induct) auto

lemma contents_all: "length (contents os) = length os \<longleftrightarrow> all_resolved os"
proof (induction os rule: contents.induct)
  case (2 d os)
  have "length (contents os) \<le> length os" by (rule length_contents_le)
  then show ?case by (simp add: all_resolved_def)
qed (simp_all add: all_resolved_def)

lemma contents_none: "contents os = [] \<longleftrightarrow> none_resolved os"
  by (induction os rule: contents.induct) (simp_all add: none_resolved_def)

lemma resolved_none: "resolved os = [] \<longleftrightarrow> none_resolved os"
  using length_resolved [of os] contents_none [of os] by (metis length_0_conv)

lemma assemble_resolved:
  assumes "length ds = length os"
  shows "assemble code ds (collected_of (resolved os)) =
     (if none_resolved os then
        \<lparr>transformedCode = code, hasExtractions = False, cssContent = [],
         hasUnprocessedCssBlocks = False\<rparr>
      else
        \<lparr>transformedCode = applyReplacements code (map replacement_of (resolved os)),
         hasExtractions = True,
         cssContent = join [CHR 0x0A, CHR 0x0A] (cssBlocks (map extraction_of (resolved os))),
         hasUnprocessedCssBlocks = (\<not> all_resolved os)\<rparr>)"
proof -
  have "length os > length (contents os) \<longleftrightarrow> \<not> all_resolved os"
    using contents_all [of os] length_contents_le [of os] by linarith
  then show ?thesis
    using assms resolved_none [of os]
    by (simp add: assemble_def collected_of_def length_resolved)
qed

lemma handler_outcomes:
  assumes inc: "string_includes code ''ecij''"
    and out: "outcomes pfx h (cleanId ident) (analyseFile pfx h (cleanId ident) code)
             ((parsedFileInfoCache ps)(cleanId ident \<mapsto> analyseFile pfx h (cleanId ident) code))
             (declarations (analyseFile pfx h (cleanId ident) code)) = Inr (os, c')"
    and r: "r = assemble code (declarations (analyseFile pfx h (cleanId ident) code))
                  (collected_of (resolved os))"
  shows "handler pfx h ps code ident =
     Inr (if none_resolved os then None
          else Some (if all_resolved os then removeImport (with_style_import ident r)
                     else with_style_import ident r),
          plugin_after ps c' ident r)"
proof -
  have len: "length (declarations (analyseFile pfx h (cleanId ident) code)) = length os"
    using outcomes_shape [OF out] by (metis length_map)
  have e: "extractCssFromCode pfx h (parsedFileInfoCache ps) code (cleanId ident) = Inr (r, c')"
    using extract_outcomes [OF out] r by simp
  have a: "r = (if none_resolved os then
        \<lparr>transformedCode = code, hasExtractions = False, cssContent = [],
         hasUnprocessedCssBlocks = False\<rparr>
      else
        \<lparr>transformedCode = applyReplacements code (map replacement_of (resolved os)),
         hasExtractions = True,
         cssContent = join [CHR 0x0A, CHR 0x0A] (cssBlocks (map extraction_of (resolved os))),
         hasUnprocessedCssBlocks = (\<not> all_resolved os)\<rparr>)"
    unfolding r by (rule assemble_resolved [OF len])
  have f: "hasExtractions r = (\<not> none_resolved os)"
    "hasUnprocessedCssBlocks r = (\<not> none_resolved os \<and> \<not> all_resolved os)"
    by (simp_all add: a)
  show ?thesis
    using inc by (simp add: handler_def e f Let_def with_style_import_def plugin_after_def)
qed

lemma match_canonical:
  "match_import (canonical_import @ rest) = Some (dropWhile is_space rest)"
  by (simp add: match_import_def canonical_import_def literally_def spaces1_def spaces0_def
      quote_mark_def optional_semicolon_def is_space_def)

lemma removeImport_canonical:
  "removeImport (canonical_import @ rest) = removeImport (dropWhile is_space rest)"
proof -
  obtain c cs where e: "canonical_import @ rest = c # cs"
    by (simp add: canonical_import_def)
  show ?thesis
    using match_canonical [of rest] unfolding e by simp
qed

lemma extract_error:
  assumes "outcomes pfx h filePath (analyseFile pfx h filePath code)
             (c(filePath \<mapsto> analyseFile pfx h filePath code))
             (declarations (analyseFile pfx h filePath code)) = Inl err"
  shows "extractCssFromCode pfx h c code filePath = Inl err"
  using assms
  by (simp add: extractCssFromCode_def parseFile_text pass1_collect pass2_collect)

lemma removeImport_skip:
  "no_import_before pre follow \<Longrightarrow> removeImport (pre @ follow) = pre @ removeImport follow"
  by (induction pre) simp_all

lemma match_import_Nil [simp]: "match_import [] = None"
  by (simp add: match_import_def literally_def)

lemma removeImport_match:
  "match_import s = Some rest \<Longrightarrow> removeImport s = removeImport rest"
  by (cases s) simp_all

lemma removeImport_free:
  "no_import_before s [] \<Longrightarrow> removeImport s = s"
  using removeImport_skip [of s "[]"] by simp

lemma removeImport_one:
  assumes "match_import (m @ rest) = Some rest"
    and "no_import_before pre (m @ rest)" and "no_import_before rest []"
  shows "removeImport (pre @ m @ rest) = pre @ rest"
  using removeImport_skip [OF assms(2)] removeImport_match [OF assms(1)] removeImport_free [OF assms(3)]
  by simp

section \<open>Import elision\<close>

text \<open>
  C1. What the transform hook returns, for every file.  A file without the text
  \<^verbatim>\<open>ecij\<close> and a file in which no declaration resolved (also one with no declaration at
  all) get \<^verbatim>\<open>null\<close>: the text stays as it is, import included.  Otherwise the rewritten
  text is returned: the text with every resolved declaration replaced and the import of the
  style module in front.  The import of \<^verbatim>\<open>css\<close> is deleted from it exactly when every
  declaration resolved.  When the rewritten text reads \<open>pre @ m @ rest\<close>, with \<open>m\<close> the
  one place where the import pattern matches (it matches \<open>m\<close> in front of \<open>rest\<close>, and
  at no position of \<open>pre\<close> or of \<open>rest\<close>), the hook returns \<open>pre @ rest\<close> when every
  declaration resolved, and \<open>pre @ m @ rest\<close> when one is left unresolved.  The statement
  \<^verbatim>\<open>import { css } from 'ecij';\<close> is matched by the pattern, together with the white
  space after it.
\<close>

theorem C1_import_elision:
  "handler pfx h ps code ident =
     (if \<not> string_includes code ''ecij'' then Inr (None, ps)
      else
        (case outcomes pfx h (cleanId ident) (analyseFile pfx h (cleanId ident) code)
                ((parsedFileInfoCache ps)(cleanId ident \<mapsto> analyseFile pfx h (cleanId ident) code))
                (declarations (analyseFile pfx h (cleanId ident) code)) of
           Inl err \<Rightarrow> Inl err
         | Inr (os, c') \<Rightarrow>
             Inr (if none_resolved os then None
                  else Some
                    (if all_resolved os
                     then removeImport (with_style_import ident
                            (assemble code (declarations (analyseFile pfx h (cleanId ident) code))
                               (collected_of (resolved os))))
                     else with_style_import ident
                            (assemble code (declarations (analyseFile pfx h (cleanId ident) code))
                               (collected_of (resolved os)))),
                  plugin_after ps c' ident
                    (assemble code (declarations (analyseFile pfx h (cleanId ident) code))
                       (collected_of (resolved os))))))
   \<and> (\<forall>os c' pre m rest.
         string_includes code ''ecij''
       \<and> outcomes pfx h (cleanId ident) (analyseFile pfx h (cleanId ident) code)
           ((parsedFileInfoCache ps)(cleanId ident \<mapsto> analyseFile pfx h (cleanId ident) code))
           (declarations (analyseFile pfx h (cleanId ident) code)) = Inr (os, c')
       \<and> with_style_import ident
           (assemble code (declarations (analyseFile pfx h (cleanId ident) code))
              (collected_of (resolved os))) = pre @ m @ rest
       \<and> match_import (m @ rest) = Some rest
       \<and> no_import_before pre (m @ rest) \<and> no_import_before rest [] \<longrightarrow>
         handler pfx h ps code ident =
           Inr (if none_resolved os then None
                else Some (if all_resolved os then pre @ rest else pre @ m @ rest),
                plugin_after ps c' ident
                  (assemble code (declarations (analyseFile pfx h (cleanId ident) code))
                     (collected_of (resolved os)))))
   \<and> match_import (canonical_import @ after) = Some (dropWhile is_space after)"
proof (intro conjI allI impI)
  show "match_import (canonical_import @ after) = Some (dropWhile is_space after)"
    by (rule match_canonical)
  show "handler pfx h ps code ident =
     (if \<not> string_includes code ''ecij'' then Inr (None, ps)
      else
        (case outcomes pfx h (cleanId ident) (analyseFile pfx h (cleanId ident) code)
                ((parsedFileInfoCache ps)(cleanId ident \<mapsto> analyseFile pfx h (cleanId ident) code))
                (declarations (analyseFile pfx h (cleanId ident) code)) of
           Inl err \<Rightarrow> Inl err
         | Inr (os, c') \<Rightarrow>
             Inr (if none_resolved os then None
                  else Some
                    (if all_resolved os
                     then removeImport (with_style_import ident
                            (assemble code (declarations (analyseFile pfx h (cleanId ident) code))
                               (collected_of (resolved os))))
                     else with_style_import ident
                            (assemble code (declarations (analyseFile pfx h (cleanId ident) code))
                               (collected_of (resolved os)))),
                  plugin_after ps c' ident
                    (assemble code (declarations (analyseFile pfx h (cleanId ident) code))
                       (collected_of (resolved os))))))"
  proof (cases "string_includes code ''ecij''")
    case False
    then show ?thesis by (simp add: handler_def)
  next
    case True
    show ?thesis
    proof (cases "outcomes pfx h (cleanId ident) (analyseFile pfx h (cleanId ident) code)
                  ((parsedFileInfoCache ps)(cleanId ident \<mapsto> analyseFile pfx h (cleanId ident) code))
                  (declarations (analyseFile pfx h (cleanId ident) code))")
      case (Inl err)
      then show ?thesis using True extract_error [OF Inl] by (simp add: handler_def)
    next
      case (Inr oc)
      obtain os c' where oc: "oc = (os, c')" by (cases oc)
      show ?thesis
        using handler_outcomes [OF True Inr [unfolded oc] refl] True Inr oc by simp
    qed
  qed
next
  fix os c' pre m rest
  assume a: "string_includes code ''ecij''
       \<and> outcomes pfx h (cleanId ident) (analyseFile pfx h (cleanId ident) code)
           ((parsedFileInfoCache ps)(cleanId ident \<mapsto> analyseFile pfx h (cleanId ident) code))
           (declarations (analyseFile pfx h (cleanId ident) code)) = Inr (os, c')
       \<and> with_style_import ident
           (assemble code (declarations (analyseFile pfx h (cleanId ident) code))
              (collected_of (resolved os))) = pre @ m @ rest
       \<and> match_import (m @ rest) = Some rest
       \<and> no_import_before pre (m @ rest) \<and> no_import_before rest []"
  then have inc: "string_includes code ''ecij''"
    and out: "outcomes pfx h (cleanId ident) (analyseFile pfx h (cleanId ident) code)
           ((parsedFileInfoCache ps)(cleanId ident \<mapsto> analyseFile pfx h (cleanId ident) code))
           (declarations (analyseFile pfx h (cleanId ident) code)) = Inr (os, c')"
    and eq: "with_style_import ident
           (assemble code (declarations (analyseFile pfx h (cleanId ident) code))
              (collected_of (resolved os))) = pre @ m @ rest"
    and m: "match_import (m @ rest) = Some rest"
    and pre: "no_import_before pre (m @ rest)" and rest: "no_import_before rest []"
    by simp_all
  show "handler pfx h ps code ident =
           Inr (if none_resolved os then None
                else Some (if all_resolved os then pre @ rest else pre @ m @ rest),
                plugin_after ps c' ident
                  (assemble code (declarations (analyseFile pfx h (cleanId ident) code))
                     (collected_of (resolved os))))"
    unfolding handler_outcomes [OF inc out refl] eq removeImport_one [OF m pre rest] ..
qed

theorem C1_witness:
  "handler ''css-'' example_host fresh_plugin code_one ''/proj/one.ts'' =
     Inr (Some (''import '' @ [CHR 0x22] @ ''/proj/one.ts.09804cc1.css'' @ [CHR 0x22] @ '';'' @
               [CHR 0x0A, CHR 0x0A] @
               ''const a = '' @ [CHR 0x27] @ ''css-b51d3e74'' @ [CHR 0x27] @ '';'' @ [CHR 0x0A]),
          \<lparr>parsedFileInfoCache =
             [''/proj/one.ts'' \<mapsto> analyseFile ''css-'' example_host ''/proj/one.ts'' code_one],
           extractedCssPerFile =
             [''/proj/one.ts.09804cc1.css'' \<mapsto>
                ''.css-b51d3e74 {'' @ [CHR 0x0A] @ ''  color: red;'' @ [CHR 0x0A] @ ''}'']\<rparr>)"
proof -
  let ?info = "analyseFile ''css-'' example_host ''/proj/one.ts'' code_one"
  let ?os = "[(declarations ?info ! 0, Some ''color: red;'')]"
  let ?pre = "''import '' @ [CHR 0x22] @ ''/proj/one.ts.09804cc1.css'' @ [CHR 0x22] @ '';'' @
               [CHR 0x0A, CHR 0x0A]"
  let ?m = "''import { css } from '' @ [CHR 0x27] @ ''ecij'' @ [CHR 0x27] @ '';'' @ [CHR 0x0A]"
  let ?rest = "''const a = '' @ [CHR 0x27] @ ''css-b51d3e74'' @ [CHR 0x27] @ '';'' @ [CHR 0x0A]"
  have id: "cleanId ''/proj/one.ts'' = ''/proj/one.ts''"
    by (simp add: cleanId_def)
  have c: "parsedFileInfoCache fresh_plugin = Map.empty" "extractedCssPerFile fresh_plugin = Map.empty"
    by (simp_all add: fresh_plugin_def)
  have out: "outcomes ''css-'' example_host (cleanId ''/proj/one.ts'')
      (analyseFile ''css-'' example_host (cleanId ''/proj/one.ts'') code_one)
      ((parsedFileInfoCache fresh_plugin)(cleanId ''/proj/one.ts'' \<mapsto>
          analyseFile ''css-'' example_host (cleanId ''/proj/one.ts'') code_one))
      (declarations (analyseFile ''css-'' example_host (cleanId ''/proj/one.ts'') code_one))
     = Inr (?os, [''/proj/one.ts'' \<mapsto> ?info])"
    unfolding id c by (rule outcomes_one)
  have eq: "with_style_import ''/proj/one.ts''
      (assemble code_one (declarations (analyseFile ''css-'' example_host (cleanId ''/proj/one.ts'') code_one))
         (collected_of (resolved ?os))) = ?pre @ ?m @ ?rest"
    unfolding id assemble_one
    by (simp add: with_style_import_def cssModuleId_def id hash_one_css_norm
        addCssImport_def json_stringify_def json_escape_def)
  have m: "match_import (?m @ ?rest) = Some ?rest"
    by (simp add: matcher_defs)
  have pre: "no_import_before ?pre (?m @ ?rest)"
    by (simp add: matcher_defs)
  have rest: "no_import_before ?rest []"
    by (simp add: matcher_defs)
  have "handler ''css-'' example_host fresh_plugin code_one ''/proj/one.ts'' =
           Inr (if none_resolved ?os then None
                else Some (if all_resolved ?os then ?pre @ ?rest else ?pre @ ?m @ ?rest),
                plugin_after fresh_plugin [''/proj/one.ts'' \<mapsto> ?info] ''/proj/one.ts''
                  (assemble code_one
                     (declarations (analyseFile ''css-'' example_host (cleanId ''/proj/one.ts'') code_one))
                     (collected_of (resolved ?os))))"
    using C1_import_elision [where pfx = "''css-''" and h = example_host and ps = fresh_plugin and code = code_one
        and ident = "''/proj/one.ts''" and after = "[]",
        THEN conjunct2, THEN conjunct1, THEN spec, THEN spec, THEN spec, THEN spec, THEN spec, THEN mp,
        OF conjI [OF includes_one conjI [OF out conjI [OF eq conjI [OF m conjI [OF pre rest]]]]]] .
  then show ?thesis
    unfolding id assemble_one
    by (simp add: none_resolved_def all_resolved_def plugin_after_def cssModuleId_def id c
        hash_one_css_norm)
qed

text \<open>
  A file that imports \<^verbatim>\<open>css\<close> and declares nothing with it: no declaration is left
  unresolved, and the hook returns \<^verbatim>\<open>null\<close>, so the import is not removed.
\<close>

theorem C1_counterexample:
  "declarations (analyseFile ''css-'' example_host ''/proj/unused.ts'' code_unused) = []
   \<and> all_resolved []
   \<and> string_includes code_unused ''ecij''
   \<and> handler ''css-'' example_host fresh_plugin code_unused ''/proj/unused.ts'' =
       Inr (None,
            \<lparr>parsedFileInfoCache =
               [''/proj/unused.ts'' \<mapsto> analyseFile ''css-'' example_host ''/proj/unused.ts'' code_unused],
             extractedCssPerFile = Map.empty\<rparr>)"
proof -
  have id: "cleanId ''/proj/unused.ts'' = ''/proj/unused.ts''"
    by (simp add: cleanId_def)
  have d: "declarations (analyseFile ''css-'' example_host ''/proj/unused.ts'' code_unused) = []"
    by (simp add: info_unused)
  have i: "string_includes code_unused ''ecij''"
    by (simp add: code_unused_def)
  have "handler ''css-'' example_host fresh_plugin code_unused ''/proj/unused.ts'' =
       Inr (None,
            \<lparr>parsedFileInfoCache =
               [''/proj/unused.ts'' \<mapsto> analyseFile ''css-'' example_host ''/proj/unused.ts'' code_unused],
             extractedCssPerFile = Map.empty\<rparr>)"
    using i
    by (simp add: handler_def extractCssFromCode_def parseFile_text pass1_def id d assemble_def
        fresh_plugin_def Let_def)
  then show ?thesis using d i by (simp add: all_resolved_def)
qed

section \<open>Declarations with empty content\<close>

lemma cssBlocks_non_empty:
  "cssBlocks (map extraction_of ps) = cssBlocks (map extraction_of (filter non_empty ps))"
proof -
  have e: "(\<lambda>e. ext_cssContent e \<noteq> []) \<circ> extraction_of = non_empty"
    by (auto simp: extraction_of_def non_empty_def fun_eq_iff)
  have "filter (\<lambda>e. ext_cssContent e \<noteq> []) (map extraction_of ps)
        = filter (\<lambda>e. ext_cssContent e \<noteq> []) (map extraction_of (filter non_empty ps))"
    by (simp add: filter_map e)
  then show ?thesis by (simp add: cssBlocks_def filter_sort)
qed

lemma contents_all_empty:
  "all_empty os \<Longrightarrow> filter non_empty (contents os) = []"
  by (induction os rule: contents.induct) (simp_all add: all_empty_def non_empty_def)

lemma all_empty_filter: "all_empty os \<Longrightarrow> all_empty (filter P os)"
  by (simp add: all_empty_def list_all_iff)

lemma resolved_all_empty:
  "all_empty os \<Longrightarrow> filter non_empty (resolved os) = []"
  by (simp add: resolved_def contents_all_empty all_empty_filter)

lemma all_empty_resolved: "all_empty os \<Longrightarrow> all_resolved os"
  by (auto simp: all_empty_def all_resolved_def list_all_iff split: option.splits)

lemma all_empty_some: "all_empty os \<Longrightarrow> os \<noteq> [] \<Longrightarrow> \<not> none_resolved os"
  by (cases os) (auto simp: all_empty_def none_resolved_def split: option.splits)

text \<open>
  C5. When at least one declaration resolved, every resolved declaration has its range
  replaced, whatever its content, and the style text is made of the blocks of those whose
  trimmed content is not empty.  When every declaration of the file resolved to content
  that trims to the empty string, there is no style text: the hook stores no style module,
  puts no import of one in front, and returns the text with the class names in place.
\<close>

theorem C5_empty_content:
  assumes inc: "string_includes code ''ecij''"
    and out: "outcomes pfx h (cleanId ident) (analyseFile pfx h (cleanId ident) code)
             ((parsedFileInfoCache ps)(cleanId ident \<mapsto> analyseFile pfx h (cleanId ident) code))
             (declarations (analyseFile pfx h (cleanId ident) code)) = Inr (os, c')"
    and some: "\<not> none_resolved os"
  shows "\<exists>r. extractCssFromCode pfx h (parsedFileInfoCache ps) code (cleanId ident) = Inr (r, c')
           \<and> transformedCode r = applyReplacements code (map replacement_of (resolved os))
           \<and> cssContent r = join [CHR 0x0A, CHR 0x0A]
                 (cssBlocks (map extraction_of (filter non_empty (resolved os))))
           \<and> (all_empty os \<longrightarrow>
                cssContent r = []
                \<and> handler pfx h ps code ident =
                    Inr (Some (removeImport (transformedCode r)),
                         \<lparr>parsedFileInfoCache = c',
                          extractedCssPerFile = extractedCssPerFile ps\<rparr>))"
proof -
  let ?ds = "declarations (analyseFile pfx h (cleanId ident) code)"
  let ?r = "assemble code ?ds (collected_of (resolved os))"
  have len: "length ?ds = length os"
    using outcomes_shape [OF out] by (metis length_map)
  have a: "?r = \<lparr>transformedCode = applyReplacements code (map replacement_of (resolved os)),
         hasExtractions = True,
         cssContent = join [CHR 0x0A, CHR 0x0A] (cssBlocks (map extraction_of (resolved os))),
         hasUnprocessedCssBlocks = (\<not> all_resolved os)\<rparr>"
    using assemble_resolved [OF len, of code] some by simp
  have e: "extractCssFromCode pfx h (parsedFileInfoCache ps) code (cleanId ident) = Inr (?r, c')"
    using extract_outcomes [OF out] .
  have t: "transformedCode ?r = applyReplacements code (map replacement_of (resolved os))"
    by (simp add: a)
  have s: "cssContent ?r = join [CHR 0x0A, CHR 0x0A]
                 (cssBlocks (map extraction_of (filter non_empty (resolved os))))"
    using cssBlocks_non_empty [of "resolved os"] by (simp add: a)
  have "all_empty os \<longrightarrow>
                cssContent ?r = []
                \<and> handler pfx h ps code ident =
                    Inr (Some (removeImport (transformedCode ?r)),
                         \<lparr>parsedFileInfoCache = c',
                          extractedCssPerFile = extractedCssPerFile ps\<rparr>)"
  proof
    assume ae: "all_empty os"
    have c0: "cssContent ?r = []"
      unfolding s by (simp add: resolved_all_empty [OF ae] cssBlocks_def)
    have "handler pfx h ps code ident =
        Inr (Some (removeImport (with_style_import ident ?r)), plugin_after ps c' ident ?r)"
      using handler_outcomes [OF inc out refl] some all_empty_resolved [OF ae] by simp
    then show "cssContent ?r = []
                \<and> handler pfx h ps code ident =
                    Inr (Some (removeImport (transformedCode ?r)),
                         \<lparr>parsedFileInfoCache = c',
                          extractedCssPerFile = extractedCssPerFile ps\<rparr>)"
      using c0 by (simp add: with_style_import_def plugin_after_def)
  qed
  then show ?thesis using e t s by blast
qed

theorem C5_witness:
  "string_includes code_empty ''ecij''
   \<and> all_empty
        [(declarations (analyseFile ''css-'' example_host ''/proj/empty.ts'' code_empty) ! 0, Some [])]
   \<and> handler ''css-'' example_host fresh_plugin code_empty ''/proj/empty.ts'' =
       Inr (Some (''const e = '' @ [CHR 0x27] @ ''css-71aa7e4f'' @ [CHR 0x27] @ '';'' @ [CHR 0x0A]),
            \<lparr>parsedFileInfoCache =
               [''/proj/empty.ts'' \<mapsto> analyseFile ''css-'' example_host ''/proj/empty.ts'' code_empty],
             extractedCssPerFile = Map.empty\<rparr>)"
proof -
  let ?os = "[(declarations (analyseFile ''css-'' example_host ''/proj/empty.ts'' code_empty) ! 0, Some [])]"
  have inc: "string_includes code_empty ''ecij''"
    by (simp add: code_empty_def)
  have out: "outcomes ''css-'' example_host (cleanId ''/proj/empty.ts'')
      (analyseFile ''css-'' example_host (cleanId ''/proj/empty.ts'') code_empty)
      ((parsedFileInfoCache fresh_plugin)(cleanId ''/proj/empty.ts'' \<mapsto>
          analyseFile ''css-'' example_host (cleanId ''/proj/empty.ts'') code_empty))
      (declarations (analyseFile ''css-'' example_host (cleanId ''/proj/empty.ts'') code_empty))
     = Inr (?os, [''/proj/empty.ts'' \<mapsto> analyseFile ''css-'' example_host ''/proj/empty.ts'' code_empty])"
    by (simp add: cleanId_def fresh_plugin_def outcomes_empty)
  have some: "\<not> none_resolved ?os" by (simp add: none_resolved_def)
  have ae: "all_empty ?os" by (simp add: all_empty_def trim_def)
  have t: "applyReplacements code_empty (map replacement_of (resolved ?os))
      = ''import { css } from '' @ [CHR 0x27] @ ''ecij'' @ [CHR 0x27] @ '';'' @ [CHR 0x0A] @
        ''const e = '' @ [CHR 0x27] @ ''css-71aa7e4f'' @ [CHR 0x27] @ '';'' @ [CHR 0x0A]"
    unfolding info_empty by (simp add: assemble_defs code_empty_def)
  have r: "removeImport (''import { css } from '' @ [CHR 0x27] @ ''ecij'' @ [CHR 0x27] @ '';'' @ [CHR 0x0A] @
        ''const e = '' @ [CHR 0x27] @ ''css-71aa7e4f'' @ [CHR 0x27] @ '';'' @ [CHR 0x0A])
      = ''const e = '' @ [CHR 0x27] @ ''css-71aa7e4f'' @ [CHR 0x27] @ '';'' @ [CHR 0x0A]"
    by (simp add: matcher_defs)
  from C5_empty_content [OF inc out some] ae
  have "handler ''css-'' example_host fresh_plugin code_empty ''/proj/empty.ts'' =
       Inr (Some (removeImport (applyReplacements code_empty (map replacement_of (resolved ?os)))),
            \<lparr>parsedFileInfoCache =
               [''/proj/empty.ts'' \<mapsto> analyseFile ''css-'' example_host ''/proj/empty.ts'' code_empty],
             extractedCssPerFile = extractedCssPerFile fresh_plugin\<rparr>)"
    by auto
  then show ?thesis
    unfolding t r using inc ae by (simp add: fresh_plugin_def)
qed

section \<open>Partial failure\<close>









section \<open>The declarations of a file\<close>

text \<open>
  C9. The analysis of a file lists as many declarations as the tree has tagged templates
  with the tag \<^verbatim>\<open>css\<close>, each counted once, bound to a variable or not.
\<close>

theorem C9_declaration_count:
  "length (declarations (analyseFile pfx h filePath sourceText))
     = count_css (program (parseSync h filePath sourceText))"
proof -
  let ?prog = "program (parseSync h filePath sourceText)"
  have "length (declarations (analyseFile pfx h filePath sourceText))
          = length (occurrences False ?prog)"
    by (simp add: analyseFile_def analyse_declarations)
  also have "\<dots> = count_css ?prog"
    using length_occurrences(1) [of False ?prog] by simp
  finally show ?thesis .
qed

theorem C9_witness:
  "length (declarations (analyseFile ''css-'' example_host ''/proj/nested.ts'' code_nested)) = 2"
  using C9_declaration_count [of "''css-''" example_host "''/proj/nested.ts''" code_nested]
  by (simp add: example_defs parse_nested_def)

text \<open>
  C7. The class name of the declaration with index \<open>i\<close> is the naming function applied to
  the class prefix, the project-relative path with every backslash replaced by a slash, the
  index \<open>i\<close>, and the name of the variable the template initialises (or none): nothing
  else of the file, of the host or of the cache enters it.
\<close>

theorem C7_class_name_of_declaration:
  assumes "i < length (declarations (analyseFile pfx h filePath sourceText))"
  shows "className (declarations (analyseFile pfx h filePath sourceText) ! i)
           = generateClassName pfx (projectRelativePath h filePath) i
               (fst (occurrences False (program (parseSync h filePath sourceText)) ! i))
         \<and> CHR 0x5C \<notin> set (projectRelativePath h filePath)"
proof
  show "className (declarations (analyseFile pfx h filePath sourceText) ! i)
           = generateClassName pfx (projectRelativePath h filePath) i
               (fst (occurrences False (program (parseSync h filePath sourceText)) ! i))"
    using assms
    by (auto simp: analyseFile_def analyse_declarations declarations_from_def declaration_at_def
        nth_enumerate_eq split: prod.splits)
  show "CHR 0x5C \<notin> set (projectRelativePath h filePath)"
    by (auto simp: projectRelativePath_def)
qed

theorem C7_witness:
  "1 < length (declarations (analyseFile ''css-'' example_host ''/proj/nested.ts'' code_nested))
   \<and> className (declarations (analyseFile ''css-'' example_host ''/proj/nested.ts'' code_nested) ! 1)
       = ''css-'' @ hashText ''nested.ts:1:undefined''"
proof -
  have h: "1 < length (declarations (analyseFile ''css-'' example_host ''/proj/nested.ts'' code_nested))"
    by (simp add: analyseFile_count example_defs parse_nested_def)
  have "generateClassName ''css-'' (projectRelativePath example_host ''/proj/nested.ts'') 1
          (fst (occurrences False (program (parseSync example_host ''/proj/nested.ts'' code_nested)) ! 1))
        = ''css-'' @ hashText ''nested.ts:1:undefined''"
    by (simp add: example_defs parse_nested_def projectRelativePath_def generateClassName_def
        classNameKey_def string_of_name_def)
  then show ?thesis
    using C7_class_name_of_declaration [OF h] h by simp
qed

section \<open>The cache and cross-file lookups\<close>

lemmas extraction_defs =
  extractCssFromCode_def pass1_def quasis_def assemble_def addProcessedDeclaration_def

text \<open>
  C8. When source text is supplied, \<^verbatim>\<open>parseFile\<close> analyses that text whatever the cache
  holds and stores the result under the path; a stored analysis is returned only when no
  text is supplied.  After a transform of a file the cache holds the analysis of the text
  that was transformed, and the lookups made for imports have replaced no other entry.
\<close>

theorem C8_cache:
  "parseFile pfx h c filePath (Some text) =
     Inr (analyseFile pfx h filePath text, c(filePath \<mapsto> analyseFile pfx h filePath text))
   \<and> (c filePath = Some cached \<longrightarrow> parseFile pfx h c filePath None = Inr (cached, c))
   \<and> (extractCssFromCode pfx h c code filePath = Inr (r, c') \<longrightarrow>
        c' filePath = Some (analyseFile pfx h filePath code)
        \<and> (\<forall>p info. p \<noteq> filePath \<and> c p = Some info \<longrightarrow> c' p = Some info))"
proof (intro conjI impI allI)
  show "parseFile pfx h c filePath (Some text) =
     Inr (analyseFile pfx h filePath text, c(filePath \<mapsto> analyseFile pfx h filePath text))"
    by (rule parseFile_text)
next
  assume "c filePath = Some cached"
  then show "parseFile pfx h c filePath None = Inr (cached, c)" by (rule parseFile_hit)
next
  assume "extractCssFromCode pfx h c code filePath = Inr (r, c')"
  then show "c' filePath = Some (analyseFile pfx h filePath code)" by (rule extract_cache(1))
next
  fix p info
  assume a: "extractCssFromCode pfx h c code filePath = Inr (r, c')"
    and b: "p \<noteq> filePath \<and> c p = Some info"
  show "c' p = Some info" using extract_cache(2) [OF a] b by blast
qed

theorem C8_witness:
  "stale_cache ''/proj/b.ts'' = Some (analyseFile ''css-'' example_host ''/proj/b.ts'' code_c)
   \<and> parseFile ''css-'' example_host stale_cache ''/proj/b.ts'' (Some code_b)
       = Inr (analyseFile ''css-'' example_host ''/proj/b.ts'' code_b,
              stale_cache(''/proj/b.ts'' \<mapsto> analyseFile ''css-'' example_host ''/proj/b.ts'' code_b))
   \<and> parseFile ''css-'' example_host stale_cache ''/proj/b.ts'' None
       = Inr (analyseFile ''css-'' example_host ''/proj/b.ts'' code_c, stale_cache)
   \<and> extractCssFromCode ''css-'' example_host stale_cache code_b ''/proj/b.ts''
       = Inr (untouched code_b,
              stale_cache(''/proj/b.ts'' \<mapsto> analyseFile ''css-'' example_host ''/proj/b.ts'' code_b))"
proof -
  have h: "stale_cache ''/proj/b.ts'' = Some (analyseFile ''css-'' example_host ''/proj/b.ts'' code_c)"
    by (simp add: stale_cache_def)
  have e: "extractCssFromCode ''css-'' example_host stale_cache code_b ''/proj/b.ts''
       = Inr (untouched code_b,
              stale_cache(''/proj/b.ts'' \<mapsto> analyseFile ''css-'' example_host ''/proj/b.ts'' code_b))"
    by (simp add: extraction_defs parseFile_text info_b untouched_def)
  show ?thesis
    using C8_cache [of "''css-''" example_host stale_cache "''/proj/b.ts''" code_b
        "analyseFile ''css-'' example_host ''/proj/b.ts'' code_c" code_b "untouched code_b"
        "stale_cache(''/proj/b.ts'' \<mapsto> analyseFile ''css-'' example_host ''/proj/b.ts'' code_b)"]
      h e
    by simp
qed

text \<open>
  C6. An imported identifier is looked up in the export map of the file its module specifier
  resolves to, and nowhere else.  A name that file only re-exports from another module is
  not in the map: the lookup gives no value, and no further file is analysed.
\<close>

theorem C6_one_hop:
  assumes "localIdentifiers info x = None"
    and "importedIdentifiers info x = Some (source, imported)"
    and "resolve h source filePath = Some target"
  shows "(parseFile pfx h c target None = Inr (tinfo, c') \<longrightarrow>
            resolveValue pfx h filePath info c x = Inr (exportNameToValueMap tinfo imported, c'))
       \<and> (c target = None \<and> readFile h target = Some text
            \<and> reexported_only imported (parseSync h target text) \<longrightarrow>
            resolveValue pfx h filePath info c x
              = Inr (None, c(target \<mapsto> analyseFile pfx h target text)))"
  using assms reexported_only_absent [of imported "parseSync h target text" pfx "projectRelativePath h target"]
  by (auto simp: resolveValue_def parseFile_miss analyseFile_def)

theorem C6_witness:
  "localIdentifiers (analyseFile ''css-'' example_host ''/proj/imp.ts'' code_imp) ''red'' = None
   \<and> importedIdentifiers (analyseFile ''css-'' example_host ''/proj/imp.ts'' code_imp) ''red''
       = Some (''./re'', ''red'')
   \<and> resolve example_host ''./re'' ''/proj/imp.ts'' = Some ''/proj/re.ts''
   \<and> readFile example_host ''/proj/re.ts'' = Some code_re
   \<and> reexported_only ''red'' (parseSync example_host ''/proj/re.ts'' code_re)
   \<and> exportNameToValueMap (analyseFile ''css-'' example_host ''/proj/c.ts'' code_c) ''red'' = Some ''red''
   \<and> resolveValue ''css-'' example_host ''/proj/imp.ts''
         (analyseFile ''css-'' example_host ''/proj/imp.ts'' code_imp) Map.empty ''red''
       = Inr (None, [''/proj/re.ts'' \<mapsto> analyseFile ''css-'' example_host ''/proj/re.ts'' code_re])"
proof -
  have h1: "localIdentifiers (analyseFile ''css-'' example_host ''/proj/imp.ts'' code_imp) ''red'' = None"
    by (simp add: info_imp)
  have h2: "importedIdentifiers (analyseFile ''css-'' example_host ''/proj/imp.ts'' code_imp) ''red''
       = Some (''./re'', ''red'')"
    by (simp add: info_imp)
  have h3: "resolve example_host ''./re'' ''/proj/imp.ts'' = Some ''/proj/re.ts''"
    by (simp add: example_host_def)
  have h4: "readFile example_host ''/proj/re.ts'' = Some code_re"
    by (simp add: example_host_def)
  have h5: "reexported_only ''red'' (parseSync example_host ''/proj/re.ts'' code_re)"
    by (simp add: reexported_only_def example_defs parse_re_def)
  have h6: "exportNameToValueMap (analyseFile ''css-'' example_host ''/proj/c.ts'' code_c) ''red'' = Some ''red''"
    by (simp add: info_c)
  show ?thesis
    using C6_one_hop [OF h1 h2 h3, of "''css-''" Map.empty _ _ code_re] h1 h2 h3 h4 h5 h6
    by simp
qed

section \<open>Collisions of class names\<close>

text \<open>
  C3. Two declarations of one file with the same variable name and different indices have
  different hash inputs, and so have two declarations with different variable names and the
  same index; their class names are equal exactly when the eight-digit hashes of the two
  inputs are.
\<close>

theorem C3_keys_differ:
  "(i \<noteq> j \<longrightarrow> classNameKey rel i ln \<noteq> classNameKey rel j ln)
   \<and> (n \<noteq> m \<longrightarrow> classNameKey rel i (Some n) \<noteq> classNameKey rel i (Some m))
   \<and> (generateClassName pfx rel i ln = generateClassName pfx rel j ln'
        \<longleftrightarrow> hashText (classNameKey rel i ln) = hashText (classNameKey rel j ln'))"
  using classNameKey_index_inj classNameKey_name_inj by (auto simp: generateClassName_def)

theorem C3_witness:
  "(0::nat) \<noteq> 1 \<and> classNameKey ''x.ts'' 0 (Some ''a'') \<noteq> classNameKey ''x.ts'' 1 (Some ''a'')
   \<and> ''a'' \<noteq> ''b'' \<and> classNameKey ''x.ts'' 0 (Some ''a'') \<noteq> classNameKey ''x.ts'' 0 (Some ''b'')"
  using C3_keys_differ [of 0 1 "''x.ts''" "Some ''a''" "''a''" "''b''"] by simp

text \<open>
  The class names of the declarations with indices 3 and 14 of \<^verbatim>\<open>src/a.ts\<close>, both bound
  to a variable \<^verbatim>\<open>v3226246\<close>, are the same.
\<close>

theorem C3_counterexample:
  "(3::nat) \<noteq> 14
   \<and> generateClassName ''css-'' ''src/a.ts'' 3 (Some ''v3226246'')
     = generateClassName ''css-'' ''src/a.ts'' 14 (Some ''v3226246'')"
  by (simp add: generateClassName_def classNameKey_def string_of_name_def hash_a3_hash hash_a14_hash)

section \<open>Class names recorded for interpolation\<close>

lemma record_keeps:
  "y \<noteq> x \<Longrightarrow> localIdentifiers (recordIdentifierWithValue sc y v st) x = localIdentifiers st x"
  "localNameToExportedNameMap sc y \<noteq> Some en \<Longrightarrow>
     exportNameToValueMap (recordIdentifierWithValue sc y v st) en = exportNameToValueMap st en"
  by (simp_all add: recordIdentifierWithValue_def Let_def split: option.splits)

lemma record_sets:
  "localIdentifiers (recordIdentifierWithValue sc x v st) x = Some v"
  "localNameToExportedNameMap sc x = Some en \<Longrightarrow>
     exportNameToValueMap (recordIdentifierWithValue sc x v st) en = Some v"
  by (simp_all add: recordIdentifierWithValue_def Let_def split: option.splits)

lemma handle_keeps:
  assumes "ln = None \<or> \<not> is_css_tagged t \<or> (\<exists>y. ln = Some y \<and> y \<noteq> x)"
  shows "localIdentifiers (handleTaggedTemplateExpression sc ln t st) x = localIdentifiers st x"
  using assms
  by (auto simp: handleTaggedTemplateExpression_def Let_def record_keeps split: option.splits)

lemma handle_keeps_export:
  assumes "ln = None \<or> \<not> is_css_tagged t \<or> (\<exists>y. ln = Some y \<and> localNameToExportedNameMap sc y \<noteq> Some en)"
  shows "exportNameToValueMap (handleTaggedTemplateExpression sc ln t st) en = exportNameToValueMap st en"
  using assms
  by (auto simp: handleTaggedTemplateExpression_def Let_def record_keeps split: option.splits)

lemma callback_keeps_local:
  assumes "\<not> rebinds sc x ev"
  shows "localIdentifiers (callback sc ev st) x = localIdentifiers st x"
proof (cases ev)
  case (Pair p n)
  show ?thesis
  proof (cases n)
    case (TaggedTemplateExpression tg q qs es s e)
    then show ?thesis using Pair by (simp add: onTaggedTemplateExpression_def handle_keeps)
  next
    case (VariableDeclarator i init)
    have "localIdentifiers (onVariableDeclarator sc p i init st) x = localIdentifiers st x"
      using assms [unfolded Pair VariableDeclarator]
    proof (induction sc p i init st rule: onVariableDeclarator.induct)
      case (1 sc p localName tg q qs es s e st)
      then show ?case by (auto simp: handle_keeps is_css_tagged_def)
    qed (auto simp: record_keeps)
    then show ?thesis using Pair VariableDeclarator by simp
  qed (simp_all add: Pair)
qed

lemma callback_keeps_export:
  assumes "\<not> rebinds sc x ev" and "localNameToExportedNameMap sc x = Some en"
  shows "exportNameToValueMap (callback sc ev st) en = exportNameToValueMap st en"
proof (cases ev)
  case (Pair p n)
  show ?thesis
  proof (cases n)
    case (TaggedTemplateExpression tg q qs es s e)
    then show ?thesis using Pair by (simp add: onTaggedTemplateExpression_def handle_keeps_export)
  next
    case (VariableDeclarator i init)
    have "exportNameToValueMap (onVariableDeclarator sc p i init st) en = exportNameToValueMap st en"
      using assms(1) [unfolded Pair VariableDeclarator] assms(2)
    proof (induction sc p i init st rule: onVariableDeclarator.induct)
      case (1 sc p localName tg q qs es s e st)
      then show ?case by (auto simp: handle_keeps_export is_css_tagged_def)
    qed (auto simp: record_keeps)
    then show ?thesis using Pair VariableDeclarator by simp
  qed (simp_all add: Pair)
qed

lemma fold_keeps_local:
  assumes "list_all (\<lambda>ev. \<not> rebinds sc x ev) evs"
  shows "localIdentifiers (fold (callback sc) evs st) x = localIdentifiers st x"
  using assms
  by (induction evs arbitrary: st) (simp_all add: callback_keeps_local)

lemma fold_keeps_export:
  assumes "list_all (\<lambda>ev. \<not> rebinds sc x ev) evs"
    and "localNameToExportedNameMap sc x = Some en"
  shows "exportNameToValueMap (fold (callback sc) evs st) en = exportNameToValueMap st en"
  using assms(1)
proof (induction evs arbitrary: st)
  case Nil
  then show ?case by simp
next
  case (Cons ev evs)
  have "exportNameToValueMap (fold (callback sc) evs (callback sc ev st)) en
          = exportNameToValueMap (callback sc ev st) en"
    using Cons by simp
  also have "\<dots> = exportNameToValueMap st en"
    using callback_keeps_export [of sc x ev en st] Cons.prems assms(2) by simp
  finally show ?case by simp
qed

lemma callback_extends: "\<exists>ds. declarations (callback sc ev st) = declarations st @ ds"
proof (cases ev)
  case (Pair p n)
  then show ?thesis
    by (cases n) (simp_all add: onTagged_declarations onDeclarator_declarations)
qed

lemma fold_extends: "\<exists>ds. declarations (fold (callback sc) evs st) = declarations st @ ds"
proof (induction evs arbitrary: st)
  case Nil
  then show ?case by simp
next
  case (Cons ev evs)
  obtain ds1 where a: "declarations (callback sc ev st) = declarations st @ ds1"
    using callback_extends by blast
  obtain ds2 where "declarations (fold (callback sc) evs (callback sc ev st))
      = declarations (callback sc ev st) @ ds2"
    using Cons.IH by blast
  then show ?case using a by simp
qed

lemma declarator_records:
  assumes "css_node t"
  shows "declarations (onVariableDeclarator sc p (Identifier x) (Some t) st) =
           declarations st @ [declaration_at sc (length (declarations st), Some x, t)]"
    and "localIdentifiers (onVariableDeclarator sc p (Identifier x) (Some t) st) x =
           Some (generateClassName (classPrefix sc) (relativePath sc) (length (declarations st)) (Some x))"
    and "localNameToExportedNameMap sc x = Some en \<Longrightarrow>
         exportNameToValueMap (onVariableDeclarator sc p (Identifier x) (Some t) st) en =
           Some (generateClassName (classPrefix sc) (relativePath sc) (length (declarations st)) (Some x))"
proof -
  obtain tg q qs es s e where t: "t = TaggedTemplateExpression tg q qs es s e" "tg = Identifier ''css''"
    using assms by (cases t) auto
  show "declarations (onVariableDeclarator sc p (Identifier x) (Some t) st) =
           declarations st @ [declaration_at sc (length (declarations st), Some x, t)]"
    using t by (simp add: handle_declarations is_css_tagged_def)
  show "localIdentifiers (onVariableDeclarator sc p (Identifier x) (Some t) st) x =
           Some (generateClassName (classPrefix sc) (relativePath sc) (length (declarations st)) (Some x))"
    using t by (simp add: handleTaggedTemplateExpression_def is_css_tagged_def Let_def record_sets)
  show "localNameToExportedNameMap sc x = Some en \<Longrightarrow>
         exportNameToValueMap (onVariableDeclarator sc p (Identifier x) (Some t) st) en =
           Some (generateClassName (classPrefix sc) (relativePath sc) (length (declarations st)) (Some x))"
    using t by (simp add: handleTaggedTemplateExpression_def is_css_tagged_def Let_def record_sets)
qed

lemma truncate_fields [simp]:
  "declarations (ParsedFileInfo.truncate st) = declarations st"
  "localIdentifiers (ParsedFileInfo.truncate st) = localIdentifiers st"
  "importedIdentifiers (ParsedFileInfo.truncate st) = importedIdentifiers st"
  "exportNameToValueMap (ParsedFileInfo.truncate st) = exportNameToValueMap st"
  by (simp_all add: ParsedFileInfo.truncate_def)

lemma analyseFile_fold:
  "analyseFile pfx h filePath text =
     ParsedFileInfo.truncate
       (fold (callback (scope_of pfx h filePath text))
          (visits [] (program (parseSync h filePath text)))
          (initial_state (collectImports (staticImports (parseSync h filePath text)))))"
  by (simp add: analyseFile_def analyse_def visit_def scope_of_def Let_def)

lemma last_binding:
  fixes sc :: file_scope and st0 :: visit_state
  assumes walk: "evs = pre @ (p, VariableDeclarator (Identifier x) (Some t)) # post"
    and css: "css_node t"
    and last: "list_all (\<lambda>ev. \<not> rebinds sc x ev) post"
  defines "k \<equiv> length (declarations (fold (callback sc) pre st0))"
  defines "st \<equiv> fold (callback sc) evs st0"
  shows "k < length (declarations st)"
    and "declarations st ! k = declaration_at sc (k, Some x, t)"
    and "localIdentifiers st x = Some (generateClassName (classPrefix sc) (relativePath sc) k (Some x))"
    and "localNameToExportedNameMap sc x = Some en \<Longrightarrow>
         exportNameToValueMap st en = Some (generateClassName (classPrefix sc) (relativePath sc) k (Some x))"
proof -
  let ?st1 = "fold (callback sc) pre st0"
  let ?st2 = "onVariableDeclarator sc p (Identifier x) (Some t) ?st1"
  have st: "st = fold (callback sc) post ?st2"
    by (simp add: st_def walk)
  obtain ds where ds: "declarations st = declarations ?st2 @ ds"
    unfolding st using fold_extends by blast
  have d2: "declarations ?st2 = declarations ?st1 @ [declaration_at sc (k, Some x, t)]"
    using declarator_records(1) [OF css] by (simp add: k_def)
  show "k < length (declarations st)"
    by (simp add: ds d2 k_def)
  show "declarations st ! k = declaration_at sc (k, Some x, t)"
    by (simp add: ds d2 k_def nth_append)
  show "localIdentifiers st x = Some (generateClassName (classPrefix sc) (relativePath sc) k (Some x))"
    unfolding st fold_keeps_local [OF last] using declarator_records(2) [OF css]
    by (simp add: k_def)
  show "exportNameToValueMap st en = Some (generateClassName (classPrefix sc) (relativePath sc) k (Some x))"
    if "localNameToExportedNameMap sc x = Some en"
    unfolding st fold_keeps_export [OF last that] using declarator_records(3) [OF css that]
    by (simp add: k_def)
qed

lemma resolveValue_import:
  assumes "localIdentifiers from_info y = None"
    and "importedIdentifiers from_info y = Some (source, imported)"
    and "resolve h source importer = Some filePath"
    and "c filePath = None" and "readFile h filePath = Some text"
  shows "resolveValue pfx h importer from_info c y =
           Inr (exportNameToValueMap (analyseFile pfx h filePath text) imported,
                c(filePath \<mapsto> analyseFile pfx h filePath text))"
  using assms by (simp add: resolveValue_def parseFile_def Let_def)

text \<open>
  C10. A declarator \<^verbatim>\<open>x = css`...`\<close> adds a declaration, with the class name generated
  for its index and the name \<open>x\<close>, and writes that class name to the entry of \<open>x\<close> in
  \<open>localIdentifiers\<close> and, when \<open>x\<close> is exported, to the entry of its exported name in
  \<open>exportNameToValueMap\<close>, whatever the interpolations of the template are.  Both maps are
  keyed by name, and a later write to the same key replaces the value.  So the class name is
  what the analysis of the file holds for \<open>x\<close> when no declarator visited later writes to
  these entries: none that binds \<open>x\<close>, or a name exported under the same name, to a
  \<^verbatim>\<open>css\<close> template or to a string or number literal.  Then an identifier of another
  file that has no local value there, is imported under the exported name from a module
  that resolves to this file, and finds the file readable and not in the cache, resolves to
  the class name.
\<close>

theorem C10_class_name_recorded:
  assumes walk: "visits [] (program (parseSync h filePath text))
                   = pre @ (p, VariableDeclarator (Identifier x) (Some t)) # post"
    and css: "css_node t"
    and last: "list_all (\<lambda>ev. \<not> rebinds (scope_of pfx h filePath text) x ev) post"
  shows "\<exists>k < length (declarations (analyseFile pfx h filePath text)).
           node (declarations (analyseFile pfx h filePath text) ! k) = t
         \<and> className (declarations (analyseFile pfx h filePath text) ! k)
             = generateClassName pfx (projectRelativePath h filePath) k (Some x)
         \<and> localIdentifiers (analyseFile pfx h filePath text) x
             = Some (generateClassName pfx (projectRelativePath h filePath) k (Some x))
         \<and> (\<forall>en. localNameToExportedNameMap (scope_of pfx h filePath text) x = Some en \<longrightarrow>
               exportNameToValueMap (analyseFile pfx h filePath text) en
                 = Some (generateClassName pfx (projectRelativePath h filePath) k (Some x))
             \<and> (\<forall>importer from_info c y source.
                   localIdentifiers from_info y = None
                 \<and> importedIdentifiers from_info y = Some (source, en)
                 \<and> resolve h source importer = Some filePath
                 \<and> c filePath = None \<and> readFile h filePath = Some text \<longrightarrow>
                   resolveValue pfx h importer from_info c y
                     = Inr (Some (generateClassName pfx (projectRelativePath h filePath) k (Some x)),
                            c(filePath \<mapsto> analyseFile pfx h filePath text))))"
proof -
  let ?sc = "scope_of pfx h filePath text"
  let ?st0 = "initial_state (collectImports (staticImports (parseSync h filePath text)))"
  let ?k = "length (declarations (fold (callback ?sc) pre ?st0))"
  let ?info = "analyseFile pfx h filePath text"
  let ?cn = "generateClassName pfx (projectRelativePath h filePath) ?k (Some x)"
  note facts = last_binding [OF walk css last, where ?st0.0 = ?st0]
  have sc: "classPrefix ?sc = pfx" "relativePath ?sc = projectRelativePath h filePath"
    by (simp_all add: scope_of_def)
  have k: "?k < length (declarations ?info)"
    using facts(1) by (simp add: analyseFile_fold)
  have d: "declarations ?info ! ?k = declaration_at ?sc (?k, Some x, t)"
    using facts(2) by (simp add: analyseFile_fold)
  have n: "node (declarations ?info ! ?k) = t" and cn: "className (declarations ?info ! ?k) = ?cn"
    unfolding d by (simp_all add: declaration_at_def sc)
  have l: "localIdentifiers ?info x = Some ?cn"
    using facts(3) by (simp add: analyseFile_fold sc)
  have e: "exportNameToValueMap ?info en = Some ?cn"
    if "localNameToExportedNameMap ?sc x = Some en" for en
    using facts(4) [OF that] by (simp add: analyseFile_fold sc)
  have r: "resolveValue pfx h importer from_info c y = Inr (Some ?cn, c(filePath \<mapsto> ?info))"
    if "localNameToExportedNameMap ?sc x = Some en"
      and "localIdentifiers from_info y = None" "importedIdentifiers from_info y = Some (source, en)"
      and "resolve h source importer = Some filePath"
      and "c filePath = None" "readFile h filePath = Some text"
    for en importer from_info c y source
    using that(2-6) e [OF that(1)] by (simp add: resolveValue_import)
  show ?thesis
    using k n cn l e r by blast
qed

text \<open>
  The file \<^verbatim>\<open>b.ts\<close> exports \<^verbatim>\<open>red\<close>, whose template interpolates a call: the declaration
  does not resolve, and the class name is what \<^verbatim>\<open>a.ts\<close> gets for the imported \<^verbatim>\<open>red\<close>.
\<close>

theorem C10_witness:
  "declarations (analyseFile ''css-'' example_host ''/proj/b.ts'' code_b) =
     [\<lparr>className = ''css-'' @ hashText ''b.ts:0:red'',
       node = TaggedTemplateExpression (Identifier ''css'') ''color: '' ['';'']
                [OtherNode [Identifier ''pick'']] 47 69,
       hasInterpolations = True\<rparr>]
   \<and> outcomes ''css-'' example_host ''/proj/b.ts''
       (analyseFile ''css-'' example_host ''/proj/b.ts'' code_b)
       [''/proj/b.ts'' \<mapsto> analyseFile ''css-'' example_host ''/proj/b.ts'' code_b]
       (declarations (analyseFile ''css-'' example_host ''/proj/b.ts'' code_b))
     = Inr ([(declarations (analyseFile ''css-'' example_host ''/proj/b.ts'' code_b) ! 0, None)],
            [''/proj/b.ts'' \<mapsto> analyseFile ''css-'' example_host ''/proj/b.ts'' code_b])
   \<and> localIdentifiers (analyseFile ''css-'' example_host ''/proj/b.ts'' code_b) ''red''
     = Some (''css-'' @ hashText ''b.ts:0:red'')
   \<and> exportNameToValueMap (analyseFile ''css-'' example_host ''/proj/b.ts'' code_b) ''red''
     = Some (''css-'' @ hashText ''b.ts:0:red'')
   \<and> resolveValue ''css-'' example_host ''/proj/a.ts''
       (analyseFile ''css-'' example_host ''/proj/a.ts'' code_a) Map.empty ''red''
     = Inr (Some (''css-'' @ hashText ''b.ts:0:red''),
            [''/proj/b.ts'' \<mapsto> analyseFile ''css-'' example_host ''/proj/b.ts'' code_b])"
proof -
  let ?t = "TaggedTemplateExpression (Identifier ''css'') ''color: '' ['';'']
              [OtherNode [Identifier ''pick'']] 47 69"
  let ?info = "analyseFile ''css-'' example_host ''/proj/b.ts'' code_b"
  have css: "css_node ?t" by simp
  have last: "list_all (\<lambda>ev. \<not> rebinds (scope_of ''css-'' example_host ''/proj/b.ts'' code_b) ''red'' ev)
                [([1, 0, 0, 1], ?t)]"
    by simp
  have len: "length (declarations ?info) = 1"
    by (simp add: info_b)
  have name: "generateClassName ''css-'' (projectRelativePath example_host ''/proj/b.ts'') 0 (Some ''red'')
                = ''css-'' @ hashText ''b.ts:0:red''"
    by (simp add: generateClassName_def classNameKey_def string_of_name_def projectRelativePath_def
        example_host_def)
  have imp: "localIdentifiers (analyseFile ''css-'' example_host ''/proj/a.ts'' code_a) ''red'' = None
     \<and> importedIdentifiers (analyseFile ''css-'' example_host ''/proj/a.ts'' code_a) ''red''
         = Some (''./b'', ''red'')
     \<and> resolve example_host ''./b'' ''/proj/a.ts'' = Some ''/proj/b.ts''
     \<and> Map.empty ''/proj/b.ts'' = (None :: ParsedFileInfo option)
     \<and> readFile example_host ''/proj/b.ts'' = Some code_b"
    by (simp add: info_a) (simp add: example_host_def)
  from C10_class_name_recorded [OF walk_b css last]
  obtain k where k: "k < length (declarations ?info)"
    and l: "localIdentifiers ?info ''red''
             = Some (generateClassName ''css-'' (projectRelativePath example_host ''/proj/b.ts'') k (Some ''red''))"
    and e: "\<forall>en. localNameToExportedNameMap (scope_of ''css-'' example_host ''/proj/b.ts'' code_b) ''red'' = Some en \<longrightarrow>
               exportNameToValueMap ?info en
                 = Some (generateClassName ''css-'' (projectRelativePath example_host ''/proj/b.ts'') k (Some ''red''))
             \<and> (\<forall>importer from_info c y source.
                   localIdentifiers from_info y = None
                 \<and> importedIdentifiers from_info y = Some (source, en)
                 \<and> resolve example_host source importer = Some ''/proj/b.ts''
                 \<and> c ''/proj/b.ts'' = None \<and> readFile example_host ''/proj/b.ts'' = Some code_b \<longrightarrow>
                   resolveValue ''css-'' example_host importer from_info c y
                     = Inr (Some (generateClassName ''css-'' (projectRelativePath example_host ''/proj/b.ts'') k (Some ''red'')),
                            c(''/proj/b.ts'' \<mapsto> ?info)))"
    by blast
  have k0: "k = 0" using k len by simp
  have x: "exportNameToValueMap ?info ''red'' = Some (''css-'' @ hashText ''b.ts:0:red'')"
    and r: "\<forall>importer from_info c y source.
                   localIdentifiers from_info y = None
                 \<and> importedIdentifiers from_info y = Some (source, ''red'')
                 \<and> resolve example_host source importer = Some ''/proj/b.ts''
                 \<and> c ''/proj/b.ts'' = None \<and> readFile example_host ''/proj/b.ts'' = Some code_b \<longrightarrow>
                   resolveValue ''css-'' example_host importer from_info c y
                     = Inr (Some (''css-'' @ hashText ''b.ts:0:red''), c(''/proj/b.ts'' \<mapsto> ?info))"
    using e [THEN spec, THEN mp, OF scope_b] unfolding k0 name by simp_all
  have rv: "resolveValue ''css-'' example_host ''/proj/a.ts''
       (analyseFile ''css-'' example_host ''/proj/a.ts'' code_a) Map.empty ''red''
     = Inr (Some (''css-'' @ hashText ''b.ts:0:red''), [''/proj/b.ts'' \<mapsto> ?info])"
    using r [THEN spec, THEN spec, THEN spec, THEN spec, THEN spec, THEN mp, OF imp] .
  have o: "outcomes ''css-'' example_host ''/proj/b.ts'' ?info [''/proj/b.ts'' \<mapsto> ?info]
             (declarations ?info)
           = Inr ([(declarations ?info ! 0, None)], [''/proj/b.ts'' \<mapsto> ?info])"
    by (simp add: info_b quasis_def)
  have d: "declarations ?info =
     [\<lparr>className = ''css-'' @ hashText ''b.ts:0:red'', node = ?t, hasInterpolations = True\<rparr>]"
    by (simp add: info_b)
  show ?thesis
    using d o l [unfolded k0 name] x rv by simp
qed

text \<open>
  The file \<^verbatim>\<open>shadow.ts\<close> exports \<^verbatim>\<open>a\<close>, bound to a \<^verbatim>\<open>css\<close> template, and then binds a
  variable of the same name to the string \<^verbatim>\<open>'red'\<close> inside a function.  After the analysis
  both maps hold \<^verbatim>\<open>red\<close> for \<^verbatim>\<open>a\<close>, not the class name of the declaration, and the
  interpolation of the imported \<^verbatim>\<open>a\<close> in \<^verbatim>\<open>imps.ts\<close> resolves to \<^verbatim>\<open>red\<close>.
\<close>

theorem C10_counterexample:
  "declarations (analyseFile ''css-'' example_host ''/proj/shadow.ts'' code_shadow) =
     [\<lparr>className = ''css-'' @ hashText ''shadow.ts:0:a'',
       node = TaggedTemplateExpression (Identifier ''css'') ''color: '' ['';'']
                [OtherNode [Identifier ''pick'']] 45 67,
       hasInterpolations = True\<rparr>]
   \<and> binds (Identifier ''a'')
       (Some (node (declarations (analyseFile ''css-'' example_host ''/proj/shadow.ts'' code_shadow) ! 0)))
   \<and> localNameToExportedNameMap (scope_of ''css-'' example_host ''/proj/shadow.ts'' code_shadow) ''a''
     = Some ''a''
   \<and> localIdentifiers (analyseFile ''css-'' example_host ''/proj/shadow.ts'' code_shadow) ''a''
     = Some ''red''
   \<and> exportNameToValueMap (analyseFile ''css-'' example_host ''/proj/shadow.ts'' code_shadow) ''a''
     = Some ''red''
   \<and> resolveValue ''css-'' example_host ''/proj/imps.ts''
       (analyseFile ''css-'' example_host ''/proj/imps.ts'' code_imps) Map.empty ''a''
     = Inr (Some ''red'',
            [''/proj/shadow.ts'' \<mapsto> analyseFile ''css-'' example_host ''/proj/shadow.ts'' code_shadow])
   \<and> ''red'' \<noteq> ''css-'' @ hashText ''shadow.ts:0:a''"
proof -
  have s: "localNameToExportedNameMap (scope_of ''css-'' example_host ''/proj/shadow.ts'' code_shadow) ''a''
     = Some ''a''"
    by (simp add: scope_of_def example_defs parse_shadow_def collectExports_def recordExport_def)
  have r: "resolveValue ''css-'' example_host ''/proj/imps.ts''
       (analyseFile ''css-'' example_host ''/proj/imps.ts'' code_imps) Map.empty ''a''
     = Inr (Some ''red'',
            [''/proj/shadow.ts'' \<mapsto> analyseFile ''css-'' example_host ''/proj/shadow.ts'' code_shadow])"
    unfolding info_imps
    by (simp add: resolveValue_def parseFile_def example_host_def Let_def)
       (simp add: info_shadow [unfolded example_host_def])
  show ?thesis
    using s r by (simp add: info_shadow)
qed
end
